(* ===== verification/Prelude.thy ===== *)
theory Prelude
  imports Main "HOL-Library.Char_ord" "HOL-Library.List_Lexorder" "HOL-Library.Multiset"
begin

text \<open>
  Shared ground of the development: the part of Go's \<open>strings\<close>, \<open>strconv\<close> and
  \<open>sort\<close> packages the program uses, insertion-ordered association lists for Go maps, and
  the generic lemmas the component theories rely on.

  A Go string is a sequence of bytes, so it is modelled by Isabelle's \<open>string\<close>, whose
  characters are exactly the 256 bytes; a literal with a character outside ASCII is written
  with its UTF-8 bytes. Case mapping and white space are the ASCII ones: \<open>ToLower\<close>,
  \<open>EqualFold\<close> and \<open>TrimSpace\<close> leave bytes from 128 on unchanged, which is exact for
  every string without letters or blanks outside ASCII.
\<close>

named_theorems str_simps \<open>string operations on concrete shapes\<close>
named_theorems amap_simps \<open>insertion-ordered maps\<close>

section \<open>Bytes and strings\<close>

definition lower_byte :: "char \<Rightarrow> char" where
  "lower_byte c = (let n = (of_char c :: nat)
     in if 65 \<le> n \<and> n \<le> 90 then char_of (n + 32) else c)"

definition to_lower :: "string \<Rightarrow> string" where
  "to_lower s = map lower_byte s"

definition equal_fold :: "string \<Rightarrow> string \<Rightarrow> bool" where
  "equal_fold s t \<longleftrightarrow> to_lower s = to_lower t"

definition is_space :: "char \<Rightarrow> bool" where
  "is_space c = (let n = (of_char c :: nat) in n = 32 \<or> (9 \<le> n \<and> n \<le> 13))"

text \<open>The same by the bits of a byte, for evaluation.\<close>

lemma lower_byte_code [code]:
  "lower_byte (Char b0 b1 b2 b3 b4 b5 b6 b7) =
     (if \<not> b7 \<and> b6 \<and> \<not> b5 \<and> (b0 \<or> b1 \<or> b2 \<or> b3 \<or> b4) \<and> \<not> (b4 \<and> b3 \<and> (b2 \<or> b1 \<and> b0))
      then Char b0 b1 b2 b3 b4 True b6 b7 else Char b0 b1 b2 b3 b4 b5 b6 b7)"
  by (cases b0; cases b1; cases b2; cases b3; cases b4; cases b5; cases b6; cases b7;
      simp add: lower_byte_def char_of_def bit_0)

lemma is_space_code [code]:
  "is_space (Char b0 b1 b2 b3 b4 b5 b6 b7) \<longleftrightarrow>
     \<not> b7 \<and> \<not> b6 \<and> \<not> b4 \<and>
     (if b5 then \<not> (b0 \<or> b1 \<or> b2 \<or> b3) else b3 \<and> (if b2 then \<not> b1 else b0 \<or> b1))"
  by (cases b0; cases b1; cases b2; cases b3; cases b4; cases b5; cases b6; cases b7;
      simp add: is_space_def)

definition trim_space :: "string \<Rightarrow> string" where
  "trim_space s = rev (dropWhile is_space (rev (dropWhile is_space s)))"

fun has_prefix :: "string \<Rightarrow> string \<Rightarrow> bool" where
  "has_prefix s [] = True"
| "has_prefix [] (p # ps) = False"
| "has_prefix (c # cs) (p # ps) = (c = p \<and> has_prefix cs ps)"

definition trim_prefix :: "string \<Rightarrow> string \<Rightarrow> string" where
  "trim_prefix s p = (if has_prefix s p then drop (length p) s else s)"

definition has_suffix :: "string \<Rightarrow> string \<Rightarrow> bool" where
  "has_suffix s p = has_prefix (rev s) (rev p)"

definition trim_suffix :: "string \<Rightarrow> string \<Rightarrow> string" where
  "trim_suffix s p = (if has_suffix s p then take (length s - length p) s else s)"

fun str_index :: "string \<Rightarrow> string \<Rightarrow> nat option" where
  "str_index [] sub = (if sub = [] then Some 0 else None)"
| "str_index (c # cs) sub =
     (if has_prefix (c # cs) sub then Some 0 else map_option Suc (str_index cs sub))"

definition contains :: "string \<Rightarrow> string \<Rightarrow> bool" where
  "contains s sub \<longleftrightarrow> str_index s sub \<noteq> None"

fun join :: "string list \<Rightarrow> string \<Rightarrow> string" where
  "join [] sep = []"
| "join [x] sep = x"
| "join (x # y # xs) sep = x @ sep @ join (y # xs) sep"

fun split_on :: "char \<Rightarrow> string \<Rightarrow> string list" where
  "split_on sep [] = [[]]"
| "split_on sep (c # cs) =
     (if c = sep then [] # split_on sep cs
      else (case split_on sep cs of [] \<Rightarrow> [[c]] | p # ps \<Rightarrow> (c # p) # ps))"

definition remove_char :: "char \<Rightarrow> string \<Rightarrow> string" where
  "remove_char c s = filter (\<lambda>x. x \<noteq> c) s"

fun nat_str :: "nat \<Rightarrow> string" where
  "nat_str n = (if n < 10 then [char_of (48 + n)]
     else nat_str (n div 10) @ [char_of (48 + n mod 10)])"

declare nat_str.simps [simp del]

definition itoa :: "int \<Rightarrow> string" where
  "itoa i = (if i < 0 then ''-'' @ nat_str (nat (- i)) else nat_str (nat i))"

abbreviation em_dash :: string where
  "em_dash \<equiv> [CHR 0xE2, CHR 0x80, CHR 0x94]"

abbreviation right_arrow :: string where
  "right_arrow \<equiv> [CHR 0xE2, CHR 0x86, CHR 0x92]"

abbreviation ellipsis :: string where
  "ellipsis \<equiv> [CHR 0xE2, CHR 0x80, CHR 0xA6]"

lemma lower_byte_idem [simp]: "lower_byte (lower_byte c) = lower_byte c"
  by (auto simp: lower_byte_def Let_def)

lemma to_lower_Nil [simp]: "to_lower [] = []"
  by (simp add: to_lower_def)

lemma to_lower_Cons [simp]: "to_lower (c # s) = lower_byte c # to_lower s"
  by (simp add: to_lower_def)

lemma to_lower_append [simp]: "to_lower (s @ t) = to_lower s @ to_lower t"
  by (simp add: to_lower_def)

lemma to_lower_idem [simp]: "to_lower (to_lower s) = to_lower s"
  by (simp add: to_lower_def)

lemma to_lower_eq_Nil [simp]: "to_lower s = [] \<longleftrightarrow> s = []"
  by (simp add: to_lower_def)

lemma length_to_lower [simp]: "length (to_lower s) = length s"
  by (simp add: to_lower_def)

lemma lower_byte_non_upper:
  "\<not> (65 \<le> (of_char c :: nat) \<and> (of_char c :: nat) \<le> 90) \<Longrightarrow> lower_byte c = c"
  by (auto simp: lower_byte_def Let_def)

lemma lower_byte_eq_non_letter:
  assumes "(of_char d :: nat) < 65 \<or> 122 < (of_char d :: nat)"
  shows "lower_byte c = d \<longleftrightarrow> c = d"
proof (cases "65 \<le> (of_char c :: nat) \<and> (of_char c :: nat) \<le> 90")
  case True
  then have "lower_byte c = char_of ((of_char c :: nat) + 32)" by (simp add: lower_byte_def)
  moreover have "(of_char (char_of ((of_char c :: nat) + 32) :: char) :: nat) = of_char c + 32"
    using True by simp
  ultimately show ?thesis using True assms by auto
next
  case False
  with assms show ?thesis by (auto simp: lower_byte_non_upper)
qed

lemma equal_fold_refl [simp]: "equal_fold s s"
  by (simp add: equal_fold_def)

lemma equal_fold_sym: "equal_fold s t \<Longrightarrow> equal_fold t s"
  by (simp add: equal_fold_def)

lemma equal_fold_trans: "equal_fold s t \<Longrightarrow> equal_fold t u \<Longrightarrow> equal_fold s u"
  by (simp add: equal_fold_def)

lemma has_prefix_iff: "has_prefix s p \<longleftrightarrow> (\<exists>t. s = p @ t)"
  by (induction s p rule: has_prefix.induct) auto

lemma has_prefix_append [simp]: "has_prefix (p @ t) p"
  by (auto simp: has_prefix_iff)

lemma trim_prefix_append [simp]: "trim_prefix (p @ t) p = t"
  by (simp add: trim_prefix_def)

lemma has_suffix_iff: "has_suffix s p \<longleftrightarrow> (\<exists>t. s = t @ p)"
  by (metis has_prefix_iff has_suffix_def rev_append rev_rev_ident)

lemma str_index_Some_append:
  "str_index s sub = Some i \<Longrightarrow> \<exists>b. s = take i s @ sub @ b \<and> i + length sub \<le> length s"
proof (induction s sub arbitrary: i rule: str_index.induct)
  case (1 sub)
  then show ?case by (auto split: if_splits)
next
  case (2 c cs sub)
  show ?case
  proof (cases "has_prefix (c # cs) sub")
    case True
    then obtain t where t: "c # cs = sub @ t" by (auto simp: has_prefix_iff)
    moreover from True 2 have "i = 0" by simp
    ultimately show ?thesis by simp
  next
    case False
    with 2 obtain j where j: "str_index cs sub = Some j" "i = Suc j" by auto
    with 2 False obtain b where "cs = take j cs @ sub @ b" "j + length sub \<le> length cs" by blast
    with j show ?thesis by auto
  qed
qed

lemma str_index_append_le: "\<exists>i. str_index (a @ sub @ b) sub = Some i \<and> i \<le> length a"
proof (induction a)
  case Nil
  show ?case
  proof (cases "sub @ b")
    case (Cons c cs)
    have "has_prefix (c # cs) sub" unfolding Cons [symmetric] by simp
    with Cons show ?thesis by simp
  qed simp
next
  case (Cons x a)
  then show ?case by auto
qed

lemma contains_iff: "contains s sub \<longleftrightarrow> (\<exists>a b. s = a @ sub @ b)"
proof
  assume "contains s sub"
  then obtain i where "str_index s sub = Some i" by (auto simp: contains_def)
  from str_index_Some_append [OF this] show "\<exists>a b. s = a @ sub @ b" by blast
next
  assume "\<exists>a b. s = a @ sub @ b"
  then obtain a b where "s = a @ sub @ b" by blast
  then show "contains s sub" using str_index_append_le [of a sub b] by (auto simp: contains_def)
qed

lemma str_index_char:
  "c \<notin> set a \<Longrightarrow> str_index (a @ c # b) [c] = Some (length a)"
  by (induction a) auto

lemma contains_char_iff: "contains s [c] \<longleftrightarrow> c \<in> set s"
  by (auto simp: contains_iff in_set_conv_decomp)

text \<open>A separator that does not occur in the first parts makes joining injective.\<close>

lemma sep_inj:
  "c \<notin> set a \<Longrightarrow> c \<notin> set a' \<Longrightarrow> a @ c # b = a' @ c # b' \<longleftrightarrow> a = a' \<and> b = b'"
proof (induction a arbitrary: a')
  case Nil
  then show ?case by (cases a') auto
next
  case (Cons x a)
  then show ?case by (cases a') auto
qed

lemma trim_space_id:
  "s \<noteq> [] \<Longrightarrow> \<not> is_space (hd s) \<Longrightarrow> \<not> is_space (last s) \<Longrightarrow> trim_space s = s"
proof -
  assume "s \<noteq> []" "\<not> is_space (hd s)" "\<not> is_space (last s)"
  then have "dropWhile is_space s = s" "dropWhile is_space (rev s) = rev s"
    by (simp_all only: dropWhile_eq_self_iff hd_rev rev_is_Nil_conv simp_thms)
  then show "trim_space s = s" by (simp only: trim_space_def rev_rev_ident)
qed

lemma nat_str_nonempty [simp]: "nat_str n \<noteq> []"
  by (subst nat_str.simps) simp

lemma itoa_nonempty [simp]: "itoa i \<noteq> []"
  by (simp add: itoa_def)

lemma nat_str_chars: "c \<in> set (nat_str n) \<Longrightarrow> 48 \<le> (of_char c :: nat) \<and> (of_char c :: nat) \<le> 57"
proof (induction n arbitrary: c rule: nat_str.induct)
  case (1 n)
  show ?case
  proof (cases "n < 10")
    case True
    with 1 show ?thesis by (simp add: nat_str.simps [of n])
  next
    case False
    have "n mod 10 < 10" by simp
    then have "(of_char (char_of (48 + n mod 10) :: char) :: nat) = 48 + n mod 10"
      by simp
    with 1 False \<open>n mod 10 < 10\<close> show ?thesis
      by (fastforce simp: nat_str.simps [of n])
  qed
qed

section \<open>Insertion-ordered maps\<close>

text \<open>
  A Go map whose iteration order the program does not rely on is an association list with
  distinct keys, kept in first-insertion order: \<open>amap_upd\<close> is \<open>m[k] = f(m[k], ok)\<close>.
\<close>

fun amap_upd :: "'k \<Rightarrow> ('v option \<Rightarrow> 'v) \<Rightarrow> ('k \<times> 'v) list \<Rightarrow> ('k \<times> 'v) list" where
  "amap_upd k f [] = [(k, f None)]"
| "amap_upd k f ((k', v) # m) = (if k' = k then (k', f (Some v)) # m else (k', v) # amap_upd k f m)"

definition amap_put :: "'k \<Rightarrow> 'v \<Rightarrow> ('k \<times> 'v) list \<Rightarrow> ('k \<times> 'v) list" where
  "amap_put k v m = amap_upd k (\<lambda>_. v) m"

definition amap_del :: "'k \<Rightarrow> ('k \<times> 'v) list \<Rightarrow> ('k \<times> 'v) list" where
  "amap_del k m = filter (\<lambda>(k', v). k' \<noteq> k) m"

abbreviation amap_inv :: "('k \<times> 'v) list \<Rightarrow> bool" where
  "amap_inv m \<equiv> distinct (map fst m)"

lemma map_of_amap_upd [amap_simps, simp]:
  "map_of (amap_upd k f m) = (map_of m)(k \<mapsto> f (map_of m k))"
  by (induction k f m rule: amap_upd.induct) (auto simp: fun_eq_iff)

lemma map_of_amap_put [amap_simps, simp]: "map_of (amap_put k v m) = (map_of m)(k \<mapsto> v)"
  by (simp add: amap_put_def)

lemma map_of_amap_del [amap_simps, simp]: "map_of (amap_del k m) = (map_of m)(k := None)"
  by (induction m) (auto simp: amap_del_def fun_eq_iff)

lemma keys_amap_upd [amap_simps]: "fst ` set (amap_upd k f m) = insert k (fst ` set m)"
  by (induction k f m rule: amap_upd.induct) auto

lemma amap_inv_upd [amap_simps, simp]: "amap_inv m \<Longrightarrow> amap_inv (amap_upd k f m)"
  by (induction k f m rule: amap_upd.induct) (auto simp: keys_amap_upd)

lemma amap_inv_put [amap_simps, simp]: "amap_inv m \<Longrightarrow> amap_inv (amap_put k v m)"
  by (simp add: amap_put_def)

lemma amap_inv_del [amap_simps, simp]: "amap_inv m \<Longrightarrow> amap_inv (amap_del k m)"
  by (simp add: amap_del_def distinct_map_filter)

lemma set_amap_put: "set (amap_put k v m) \<subseteq> insert (k, v) (set m)"
  unfolding amap_put_def
  by (induction k "\<lambda>_ :: 'b option. v" m rule: amap_upd.induct) auto

lemma amap_in_set_iff: "amap_inv m \<Longrightarrow> (k, v) \<in> set m \<longleftrightarrow> map_of m k = Some v"
  by auto

text \<open>Grouping a list by a key: \<open>m[key(x)] = append(m[key(x)], x)\<close> for every element.\<close>

definition group_step :: "('a \<Rightarrow> 'k) \<Rightarrow> 'a \<Rightarrow> ('k \<times> 'a list) list \<Rightarrow> ('k \<times> 'a list) list" where
  "group_step key x m =
     amap_upd (key x) (\<lambda>old. (case old of None \<Rightarrow> [] | Some l \<Rightarrow> l) @ [x]) m"

definition group_by :: "('a \<Rightarrow> 'k) \<Rightarrow> 'a list \<Rightarrow> ('k \<times> 'a list) list" where
  "group_by key xs = fold (group_step key) xs []"

lemma amap_inv_fold_group: "amap_inv m \<Longrightarrow> amap_inv (fold (group_step key) xs m)"
  by (induction xs arbitrary: m) (auto simp: group_step_def)

lemma amap_inv_group_by [simp]: "amap_inv (group_by key xs)"
  by (simp add: group_by_def amap_inv_fold_group)

lemma map_of_fold_group:
  "map_of (fold (group_step key) xs m) k =
     (if k \<in> key ` set xs
      then Some ((case map_of m k of None \<Rightarrow> [] | Some l \<Rightarrow> l) @ filter (\<lambda>x. key x = k) xs)
      else map_of m k)"
proof (induction xs arbitrary: m)
  case Nil
  then show ?case by simp
next
  case (Cons x xs)
  have "k \<notin> key ` set xs \<Longrightarrow> filter (\<lambda>x. key x = k) xs = []"
    by (auto simp: filter_empty_conv)
  with Cons show ?case by (auto simp: group_step_def)
qed

lemma map_of_group_by:
  "map_of (group_by key xs) k =
     (if k \<in> key ` set xs then Some (filter (\<lambda>x. key x = k) xs) else None)"
  by (simp add: group_by_def map_of_fold_group)

lemma in_group_by_iff:
  "(k, g) \<in> set (group_by key xs) \<longleftrightarrow> k \<in> key ` set xs \<and> g = filter (\<lambda>x. key x = k) xs"
  by (subst amap_in_set_iff) (auto simp: map_of_group_by)

text \<open>
  Aggregating a list into a map: the entry of a key is the fold of the updates of exactly
  the elements that pass the guard and carry the key.
\<close>

definition agg_step ::
  "('a \<Rightarrow> bool) \<Rightarrow> ('a \<Rightarrow> 'k) \<Rightarrow> ('a \<Rightarrow> 'v option \<Rightarrow> 'v) \<Rightarrow> 'a \<Rightarrow> ('k \<times> 'v) list \<Rightarrow> ('k \<times> 'v) list" where
  "agg_step P key f x m = (if P x then amap_upd (key x) (f x) m else m)"

lemma amap_inv_fold_agg [simp]: "amap_inv m \<Longrightarrow> amap_inv (fold (agg_step P key f) xs m)"
  by (induction xs arbitrary: m) (auto simp: agg_step_def)

lemma map_of_fold_agg:
  "map_of (fold (agg_step P key f) xs m) k =
     fold (\<lambda>x old. Some (f x old)) (filter (\<lambda>x. P x \<and> key x = k) xs) (map_of m k)"
  by (induction xs arbitrary: m) (auto simp: agg_step_def)

lemma fold_Some_Some: "\<exists>w. fold (\<lambda>x old. Some (f x old)) xs (Some v) = Some w"
  by (induction xs arbitrary: v) auto

lemma fold_Some_None_iff: "fold (\<lambda>x old. Some (f x old)) xs None = None \<longleftrightarrow> xs = []"
proof (cases xs)
  case (Cons x ys)
  then show ?thesis using fold_Some_Some [of f ys "f x None"] by auto
qed simp

lemma fold_agg_key_iff:
  "k \<in> fst ` set (fold (agg_step P key f) xs []) \<longleftrightarrow> (\<exists>x \<in> set xs. P x \<and> key x = k)"
proof -
  have "k \<in> fst ` set (fold (agg_step P key f) xs []) \<longleftrightarrow>
      map_of (fold (agg_step P key f) xs []) k \<noteq> None"
    by (simp add: map_of_eq_None_iff)
  then show ?thesis by (auto simp: map_of_fold_agg fold_Some_None_iff filter_empty_conv)
qed

section \<open>Sorting\<close>

text \<open>
  \<open>sort.Strings\<close> is \<open>sort\<close>, \<open>sort.Slice\<close> with a key is \<open>sort_key\<close>. Go leaves the
  order of equal keys open; \<open>sort_key\<close> keeps their input order, and the theorems that
  could depend on it are stated for every sorted rearrangement.
\<close>

lemma takeWhile_sorted_filter:
  "sorted (map f xs) \<Longrightarrow> takeWhile (\<lambda>x. f x \<le> b) xs = filter (\<lambda>x. f x \<le> b) xs"
  for f :: "'a \<Rightarrow> 'b :: linorder"
proof (induction xs)
  case (Cons x xs)
  show ?case
  proof (cases "f x \<le> b")
    case False
    with Cons.prems have "\<forall>y \<in> set xs. \<not> f y \<le> b" by (auto simp: not_le intro: less_le_trans)
    with False show ?thesis by (simp add: filter_empty_conv)
  qed (use Cons in auto)
qed simp

lemma find_eq_Some_mem: "List.find P xs = Some x \<Longrightarrow> x \<in> set xs \<and> P x"
  by (induction xs) (auto split: if_splits)

lemma sort_key_perm_eq:
  assumes "mset xs = mset ys" "inj_on f (set xs)"
  shows "sort_key f xs = sort_key f ys"
  by (rule sort_key_inj_key_eq) (use assms in simp_all)

end
