(* ===== verification/GoTime.thy ===== *)
theory GoTime
  imports Prelude
begin

text \<open>
  Go's \<open>time\<close> package as far as the program uses it. An instant is the number of
  nanoseconds since the zero \<open>time.Time\<close> (1 January of year 1, UTC), so the zero value is
  \<open>0\<close> and \<open>IsZero\<close>, \<open>Before\<close> and \<open>After\<close> are comparisons of integers. A duration is
  nanoseconds; \<open>Sub\<close> saturates at the ends of the 64-bit range, as in Go. \<open>AddDate\<close>
  with days only is a shift by whole days, which is exact in a zone of fixed offset.
\<close>

type_synonym time = int
type_synonym duration = int

definition second :: duration where "second = 1000000000"
definition minute :: duration where "minute = 60 * second"
definition hour :: duration where "hour = 60 * minute"
definition day :: duration where "day = 24 * hour"

definition is_zero :: "time \<Rightarrow> bool" where
  "is_zero t \<longleftrightarrow> t = 0"

definition time_sub :: "time \<Rightarrow> time \<Rightarrow> duration" where
  "time_sub a b = max (- (2 ^ 63)) (min (2 ^ 63 - 1) (a - b))"

definition add_days :: "time \<Rightarrow> int \<Rightarrow> time" where
  "add_days t n = t + n * day"

definition unix_epoch :: time where
  "unix_epoch = 62135596800 * second"

lemmas time_consts = second_def minute_def hour_def day_def

lemma time_sub_less_iff: "d < 2 ^ 63 \<Longrightarrow> - (2 ^ 63) < d \<Longrightarrow> time_sub a b < d \<longleftrightarrow> a - b < d"
  by (auto simp: time_sub_def)

lemma time_sub_greater_iff:
  "d < 2 ^ 63 - 1 \<Longrightarrow> - (2 ^ 63) \<le> d \<Longrightarrow> d < time_sub a b \<longleftrightarrow> d < a - b"
  by (auto simp: time_sub_def)

text \<open>Arithmetic on 64-bit integers wraps.\<close>

definition wrap64 :: "int \<Rightarrow> int" where
  "wrap64 x = (x + 2 ^ 63) mod 2 ^ 64 - 2 ^ 63"

lemma wrap64_id: "- (2 ^ 63) \<le> x \<Longrightarrow> x < 2 ^ 63 \<Longrightarrow> wrap64 x = x"
  by (simp add: wrap64_def)

lemma wrap64_range: "- (2 ^ 63) \<le> wrap64 x \<and> wrap64 x < 2 ^ 63"
  by (simp add: wrap64_def)

definition unix_seconds :: "time \<Rightarrow> int" where
  "unix_seconds t = (t - unix_epoch) div second"

section \<open>RFC 3339\<close>

text \<open>
  Days since 1 January of year 1 to a civil date, counting years from March so that the
  leap day is the last day of the year.
\<close>

definition civil :: "int \<Rightarrow> int \<times> int \<times> int" where
  "civil days =
     (let z = days + 306;
          era = z div 146097;
          doe = z mod 146097;
          yoe = (doe - doe div 1460 + doe div 36524 - doe div 146096) div 365;
          doy = doe - (365 * yoe + yoe div 4 - yoe div 100);
          mp = (5 * doy + 2) div 153;
          d = doy - (153 * mp + 2) div 5 + 1;
          m = (if mp < 10 then mp + 3 else mp - 9)
      in (yoe + era * 400 + (if m \<le> 2 then 1 else 0), m, d))"

definition pad_int :: "nat \<Rightarrow> int \<Rightarrow> string" where
  "pad_int w i = (let s = nat_str (nat \<bar>i\<bar>)
     in (if i < 0 then ''-'' else []) @ replicate (w - length s) (CHR ''0'') @ s)"

definition rfc3339 :: "time \<Rightarrow> string" where
  "rfc3339 t =
     (let (y, m, d) = civil (t div day);
          s = (t mod day) div second
      in pad_int 4 y @ ''-'' @ pad_int 2 m @ ''-'' @ pad_int 2 d @ ''T'' @
         pad_int 2 (s div 3600) @ '':'' @ pad_int 2 (s mod 3600 div 60) @ '':'' @
         pad_int 2 (s mod 60) @ ''Z'')"

lemma rfc3339_example:
  "rfc3339 (unix_epoch + 1709208000 * second) = ''2024-02-29T12:00:00Z''"
  by code_simp

end
