(* ===== verification/Json.thy ===== *)
theory Json
  imports Prelude Sha256
begin

text \<open>
  Values of Go type \<open>any\<close> as they occur in a finding's evidence, and \<open>json.Marshal\<close> on
  them. \<open>JInt\<close> is every integer kind; \<open>JFloat\<close> is a \<open>float64\<close>, given by the literal it is
  encoded as; \<open>JStrs\<close> is a \<open>[]string\<close>; \<open>JOther\<close> is a
  value of any other Go type, given by what its JSON encoding decodes to (\<open>None\<close> when
  \<open>json.Marshal\<close> refuses it). A map is an association list with distinct keys whose order
  carries no meaning: encoding sorts the keys.
\<close>

datatype jval =
    JNull
  | JBool bool
  | JInt int
  | JFloat string
  | JStr string
  | JStrs "string list"
  | JList "jval list"
  | JMap "(string \<times> jval) list"
  | JOther "jval option"

section \<open>UTF-8 decoding\<close>

definition byte_in :: "char \<Rightarrow> nat \<Rightarrow> nat \<Rightarrow> bool" where
  "byte_in c lo hi = (let n = (of_char c :: nat) in lo \<le> n \<and> n \<le> hi)"

definition rune_error :: nat where "rune_error = 65533"

text \<open>\<open>decode_rune s\<close> is \<open>utf8.DecodeRuneInString(s)\<close>: the code point and its width.\<close>

definition decode_rune :: "string \<Rightarrow> nat \<times> nat" where
  "decode_rune s = (case s of
       [] \<Rightarrow> (rune_error, 0)
     | c0 # r \<Rightarrow>
       let n0 = (of_char c0 :: nat);
           v = (\<lambda>c. (of_char c :: nat) mod 64)
       in if n0 < 128 then (n0, 1)
          else if 194 \<le> n0 \<and> n0 \<le> 223 then
            (case r of
               c1 # _ \<Rightarrow> if byte_in c1 128 191 then (n0 mod 32 * 64 + v c1, 2) else (rune_error, 1)
             | _ \<Rightarrow> (rune_error, 1))
          else if 224 \<le> n0 \<and> n0 \<le> 239 then
            (case r of
               c1 # c2 # _ \<Rightarrow>
                 if byte_in c1 (if n0 = 224 then 160 else 128) (if n0 = 237 then 159 else 191)
                    \<and> byte_in c2 128 191
                 then (n0 mod 16 * 4096 + v c1 * 64 + v c2, 3) else (rune_error, 1)
             | _ \<Rightarrow> (rune_error, 1))
          else if 240 \<le> n0 \<and> n0 \<le> 244 then
            (case r of
               c1 # c2 # c3 # _ \<Rightarrow>
                 if byte_in c1 (if n0 = 240 then 144 else 128) (if n0 = 244 then 143 else 191)
                    \<and> byte_in c2 128 191 \<and> byte_in c3 128 191
                 then (n0 mod 8 * 262144 + v c1 * 4096 + v c2 * 64 + v c3, 4) else (rune_error, 1)
             | _ \<Rightarrow> (rune_error, 1))
          else (rune_error, 1))"

lemma decode_rune_width_pos: "s \<noteq> [] \<Longrightarrow> 0 < snd (decode_rune s)"
  by (cases s) (auto simp: decode_rune_def Let_def split: list.splits)

lemma decode_rune_width_le: "snd (decode_rune s) \<le> length s"
  by (cases s) (auto simp: decode_rune_def Let_def split: list.splits)

section \<open>Encoding\<close>

definition json_ascii :: "char \<Rightarrow> string" where
  "json_ascii c = (let n = (of_char c :: nat) in
     if n = 34 \<or> n = 92 then [CHR 0x5C, c]
     else if n = 8 then [CHR 0x5C, CHR ''b'']
     else if n = 12 then [CHR 0x5C, CHR ''f'']
     else if n = 10 then [CHR 0x5C, CHR ''n'']
     else if n = 13 then [CHR 0x5C, CHR ''r'']
     else if n = 9 then [CHR 0x5C, CHR ''t'']
     else if n < 32 \<or> n = 38 \<or> n = 60 \<or> n = 62
       then CHR 0x5C # ''u00'' @ [hex_digit (n div 16), hex_digit (n mod 16)]
     else [c])"

function json_escape :: "string \<Rightarrow> string" where
  "json_escape s = (case s of
       [] \<Rightarrow> []
     | c # cs \<Rightarrow>
         if (of_char c :: nat) < 128 then json_ascii c @ json_escape cs
         else (let (r, w) = decode_rune (c # cs) in
           (if r = rune_error \<and> w = 1 then CHR 0x5C # ''ufffd''
            else if r = 8232 then CHR 0x5C # ''u2028''
            else if r = 8233 then CHR 0x5C # ''u2029''
            else take w (c # cs)) @ json_escape (drop (snd (decode_rune (c # cs))) (c # cs))))"
  by pat_completeness auto
termination
proof (relation "measure length")
  fix s :: string and x21 x22 x xa y
  assume "s = x21 # x22"
  then have "0 < snd (decode_rune (x21 # x22))" by (intro decode_rune_width_pos) simp
  then show "(drop (snd (decode_rune (x21 # x22))) (x21 # x22), s) \<in> measure length"
    using \<open>s = x21 # x22\<close> by simp
qed auto

declare json_escape.simps [simp del]

definition json_string :: "string \<Rightarrow> string" where
  "json_string s = [CHR 0x22] @ json_escape s @ [CHR 0x22]"

primrec json_marshal :: "jval \<Rightarrow> string option" where
  "json_marshal JNull = Some ''null''"
| "json_marshal (JBool b) = Some (if b then ''true'' else ''false'')"
| "json_marshal (JInt i) = Some (itoa i)"
| "json_marshal (JFloat lit) = Some lit"
| "json_marshal (JStr s) = Some (json_string s)"
| "json_marshal (JStrs ss) = Some (''['' @ join (map json_string ss) '','' @ '']'')"
| "json_marshal (JList xs) =
     map_option (\<lambda>ss. ''['' @ join ss '','' @ '']'') (those (map json_marshal xs))"
| "json_marshal (JMap kvs) =
     map_option
       (\<lambda>fs. CHR 0x7B # join (map (\<lambda>(k, v). json_string k @ '':'' @ v) (sort_key fst fs)) '',''
          @ [CHR 0x7D])
       (those (map (\<lambda>(k, ov). map_option (Pair k) ov) (map (map_prod id json_marshal) kvs)))"
| "json_marshal (JOther ov) = (case map_option json_marshal ov of None \<Rightarrow> None | Some r \<Rightarrow> r)"

end
