(* ===== verification/Finding.thy ===== *)
theory Finding
  imports Prelude Sha256 GoTime Json
begin

text \<open>
  The two contracts of package \<open>core\<close>: the normalised finding with its ingest
  validation and fingerprint (\<open>core/finding.go\<close>), and the static module data and targets
  of a collector (\<open>core/collector.go\<close>). Severity and status are open string types in the
  source, so a value outside the named constants is representable here too.
\<close>

section \<open>Severity and status\<close>

type_synonym severity = string
type_synonym finding_status = string

definition SeverityCritical :: severity where "SeverityCritical = ''critical''"
definition SeverityHigh :: severity where "SeverityHigh = ''high''"
definition SeverityMedium :: severity where "SeverityMedium = ''medium''"
definition SeverityLow :: severity where "SeverityLow = ''low''"
definition SeverityInfo :: severity where "SeverityInfo = ''info''"

lemmas severity_defs = SeverityCritical_def SeverityHigh_def SeverityMedium_def
  SeverityLow_def SeverityInfo_def

definition sev_rank :: "severity \<Rightarrow> int" where
  "sev_rank s =
     (if s = SeverityCritical then 4
      else if s = SeverityHigh then 3
      else if s = SeverityMedium then 2
      else if s = SeverityLow then 1
      else if s = SeverityInfo then 0
      else - 1)"

definition sev_valid :: "severity \<Rightarrow> bool" where
  "sev_valid s \<longleftrightarrow> sev_rank s \<ge> 0"

definition StatusOpen :: finding_status where "StatusOpen = ''open''"
definition StatusResolved :: finding_status where "StatusResolved = ''resolved''"
definition StatusAcknowledged :: finding_status where "StatusAcknowledged = ''acknowledged''"
definition StatusSuppressed :: finding_status where "StatusSuppressed = ''suppressed''"

lemmas status_defs = StatusOpen_def StatusResolved_def StatusAcknowledged_def StatusSuppressed_def

definition MaxEvidenceBytes :: nat where "MaxEvidenceBytes = 64 * 1024"

lemma sev_valid_iff:
  "sev_valid s \<longleftrightarrow> s \<in> {SeverityCritical, SeverityHigh, SeverityMedium, SeverityLow, SeverityInfo}"
  by (auto simp: sev_valid_def sev_rank_def)

lemma status_distinct [simp]:
  "StatusOpen \<noteq> StatusResolved" "StatusResolved \<noteq> StatusOpen"
  "StatusSuppressed \<noteq> StatusOpen" "StatusOpen \<noteq> StatusSuppressed"
  "StatusSuppressed \<noteq> StatusResolved" "StatusResolved \<noteq> StatusSuppressed"
  "StatusAcknowledged \<noteq> StatusOpen" "StatusOpen \<noteq> StatusAcknowledged"
  "StatusAcknowledged \<noteq> StatusResolved" "StatusResolved \<noteq> StatusAcknowledged"
  "StatusAcknowledged \<noteq> StatusSuppressed" "StatusSuppressed \<noteq> StatusAcknowledged"
  by (simp_all add: status_defs)

section \<open>Findings\<close>

text \<open>A nil evidence map is \<open>None\<close>; \<open>*string\<close> and \<open>*time.Time\<close> fields are options.\<close>

type_synonym evidence = "(string \<times> jval) list option"

record finding =
  f_fingerprint :: string
  f_target :: string
  f_check :: string
  f_title :: string
  f_severity :: severity
  f_remediation :: string
  f_evidence :: evidence
  f_id :: string
  f_module :: string
  f_status :: finding_status
  f_group :: "string option"
  f_first_seen :: time
  f_last_seen :: time
  f_resolved_at :: "time option"

text \<open>The composite literal a collector writes: the core-owned fields stay zero.\<close>

definition collected ::
  "string \<Rightarrow> string \<Rightarrow> string \<Rightarrow> string \<Rightarrow> severity \<Rightarrow> string \<Rightarrow> (string \<times> jval) list \<Rightarrow> finding" where
  "collected fp target check title sev rem ev =
     \<lparr>f_fingerprint = fp, f_target = target, f_check = check, f_title = title,
      f_severity = sev, f_remediation = rem, f_evidence = Some ev,
      f_id = [], f_module = [], f_status = [], f_group = None,
      f_first_seen = 0, f_last_seen = 0, f_resolved_at = None\<rparr>"

lemma collected_simps [simp]:
  "f_fingerprint (collected fp t c ti s r e) = fp"
  "f_target (collected fp t c ti s r e) = t"
  "f_check (collected fp t c ti s r e) = c"
  "f_title (collected fp t c ti s r e) = ti"
  "f_severity (collected fp t c ti s r e) = s"
  "f_remediation (collected fp t c ti s r e) = r"
  "f_evidence (collected fp t c ti s r e) = Some e"
  by (simp_all add: collected_def)

datatype ingest_error = IngestError (ie_field: string) (ie_reason: string)

definition ingest_error_text :: "ingest_error \<Rightarrow> string" where
  "ingest_error_text e = ''invalid finding: '' @ ie_field e @ '': '' @ ie_reason e"

definition ValidateForIngest :: "finding \<Rightarrow> ingest_error option" where
  "ValidateForIngest f =
     (if f_fingerprint f = [] then Some (IngestError ''fingerprint'' ''empty'')
      else if f_target f = [] then Some (IngestError ''target'' ''empty'')
      else if f_check f = [] then Some (IngestError ''check'' ''empty'')
      else if f_title f = [] then Some (IngestError ''title'' ''empty'')
      else if f_remediation f = [] then
        Some (IngestError ''remediation'' ''empty (every finding must tell the user what to do)'')
      else if \<not> sev_valid (f_severity f) then
        Some (IngestError ''severity'' (''unknown value: '' @ f_severity f))
      else None)"

lemma ValidateForIngest_None_iff:
  "ValidateForIngest f = None \<longleftrightarrow>
     f_fingerprint f \<noteq> [] \<and> f_target f \<noteq> [] \<and> f_check f \<noteq> [] \<and> f_title f \<noteq> [] \<and>
     f_remediation f \<noteq> [] \<and> sev_valid (f_severity f)"
  by (simp add: ValidateForIngest_def)

definition Fingerprint :: "string \<Rightarrow> string \<Rightarrow> string \<Rightarrow> string \<Rightarrow> string" where
  "Fingerprint module target check discriminator =
     hex_encode (take 16 (sha256 (module @ ''|'' @ target @ ''|'' @ check @ ''|'' @ discriminator)))"

lemma length_Fingerprint [simp]: "length (Fingerprint m t c d) = 32"
  by (simp add: Fingerprint_def)

lemma Fingerprint_nonempty [simp]: "Fingerprint m t c d \<noteq> []"
  using length_Fingerprint [of m t c d] by fastforce

lemma Fingerprint_hex: "list_all is_hex (Fingerprint m t c d)"
  unfolding Fingerprint_def by (rule hex_encode_chars) (auto dest: in_set_takeD sha256_bound)

section \<open>Modules and targets\<close>

record module_info =
  mi_id :: string
  mi_name :: string
  mi_version :: string
  mi_target_kind :: string
  mi_default_interval :: duration
  mi_resolve_after :: int

definition ResolveAfterOrDefault :: "module_info \<Rightarrow> int" where
  "ResolveAfterOrDefault m = (if mi_resolve_after m < 1 then 1 else mi_resolve_after m)"

lemma ResolveAfterOrDefault_pos: "1 \<le> ResolveAfterOrDefault m"
  by (simp add: ResolveAfterOrDefault_def)

record target =
  t_raw :: string
  t_canonical :: string
  t_meta :: "(string \<times> string) list"

end
