(* ===== verification/Tenant_State.thy ===== *)
theory Tenant_State
  imports Finding
begin

text \<open>
  The provider-neutral posture snapshot of \<open>tenant/state.go\<close> and the sign-in event of
  \<open>tenant/signin.go\<close>. \<open>Assessed\<close> is a Go map to booleans read with a default of false,
  so it is a predicate on area names.
\<close>

definition ProviderM365 :: string where "ProviderM365 = ''m365''"
definition ProviderGWS :: string where "ProviderGWS = ''gws''"

definition AreaMFA :: string where "AreaMFA = ''mfa''"
definition AreaLegacyAuth :: string where "AreaLegacyAuth = ''legacy_auth''"
definition AreaOAuth :: string where "AreaOAuth = ''oauth''"
definition AreaAdminRoles :: string where "AreaAdminRoles = ''admin_roles''"
definition AreaSharing :: string where "AreaSharing = ''sharing''"
definition AreaMailForward :: string where "AreaMailForward = ''mail_forward''"
definition AreaEmailAuth :: string where "AreaEmailAuth = ''email_auth''"
definition AreaConditional :: string where "AreaConditional = ''conditional_access''"
definition AreaInactiveUser :: string where "AreaInactiveUser = ''inactive_user''"
definition AreaSignIn :: string where "AreaSignIn = ''signin''"

lemmas area_defs = AreaMFA_def AreaLegacyAuth_def AreaOAuth_def AreaAdminRoles_def
  AreaSharing_def AreaMailForward_def AreaEmailAuth_def AreaConditional_def
  AreaInactiveUser_def AreaSignIn_def

record user =
  u_id :: string
  u_email :: string
  u_display :: string
  u_enabled :: bool
  u_is_admin :: bool
  u_admin_roles :: "string list"
  u_mfa :: bool
  u_last_active :: time
  u_ext_forward :: bool
  u_forward_target :: string

record oauth_grant =
  g_app_id :: string
  g_app_name :: string
  g_scopes :: "string list"
  g_consent :: string
  g_publisher :: string

record domain_auth =
  d_domain :: string
  d_spf :: bool
  d_dkim :: bool
  d_dmarc :: string

record sharing_config =
  sh_anyone :: bool
  sh_external :: bool
  sh_level :: string

record sign_in =
  si_user :: string
  si_at :: time
  si_success :: bool
  si_country :: string
  si_ip :: string
  si_client :: string
  si_legacy :: bool
  si_single_factor :: bool
  si_suspicious :: bool
  si_failure_code :: string

record tenant_state =
  ts_provider :: string
  ts_domain :: string
  ts_taken_at :: time
  ts_users :: "user list"
  ts_grants :: "oauth_grant list"
  ts_domains :: "domain_auth list"
  ts_sharing :: sharing_config
  ts_sign_ins :: "sign_in list"
  ts_legacy_auth :: bool
  ts_conditional :: bool
  ts_assessed :: "string \<Rightarrow> bool"
  ts_notes :: "string list"

definition empty_sharing :: sharing_config where
  "empty_sharing = \<lparr>sh_anyone = False, sh_external = False, sh_level = []\<rparr>"

definition empty_state :: tenant_state where
  "empty_state = \<lparr>ts_provider = [], ts_domain = [], ts_taken_at = 0, ts_users = [], ts_grants = [],
     ts_domains = [], ts_sharing = empty_sharing, ts_sign_ins = [], ts_legacy_auth = False,
     ts_conditional = False, ts_assessed = (\<lambda>_. False), ts_notes = []\<rparr>"

definition riskyOAuthScopes :: "string list" where
  "riskyOAuthScopes =
     [''mail.read'', ''mail.readwrite'', ''mail.send'',
      ''files.read'', ''files.readwrite'',
      ''gmail.'', ''drive'', ''spreadsheets'', ''documents'',
      ''full_access'', ''directory.readwrite'', ''user.readwrite'']"

section \<open>Canonical target keys\<close>

definition Canonical :: "string \<Rightarrow> string \<Rightarrow> string" where
  "Canonical provider domain = to_lower provider @ '':'' @ to_lower domain"

text \<open>\<open>strings.SplitN(s, ":", 2)\<close> has two parts exactly when there is a colon.\<close>

definition SplitCanonical :: "string \<Rightarrow> (string \<times> string) option" where
  "SplitCanonical canonical =
     (case str_index canonical '':'' of
        None \<Rightarrow> None
      | Some i \<Rightarrow>
          let p = take i canonical; d = drop (Suc i) canonical
          in if p = [] \<or> d = [] then None else Some (p, d))"

lemma Canonical_nonempty [simp]: "Canonical p d \<noteq> []"
  by (simp add: Canonical_def)

lemma SplitCanonical_append:
  "CHR '':'' \<notin> set p \<Longrightarrow> p \<noteq> [] \<Longrightarrow> d \<noteq> [] \<Longrightarrow> SplitCanonical (p @ '':'' @ d) = Some (p, d)"
  by (simp add: SplitCanonical_def str_index_char)

lemma colon_in_to_lower [simp]: "CHR '':'' \<in> set (to_lower s) \<longleftrightarrow> CHR '':'' \<in> set s"
proof -
  have "lower_byte c = CHR '':'' \<longleftrightarrow> c = CHR '':''" for c
    by (rule lower_byte_eq_non_letter) simp
  then show ?thesis unfolding to_lower_def list.set_map by (metis image_iff)
qed

lemma SplitCanonical_Some:
  assumes "SplitCanonical s = Some (p, d)"
  shows "s = p @ '':'' @ d \<and> CHR '':'' \<notin> set p \<and> p \<noteq> [] \<and> d \<noteq> []"
proof -
  from assms obtain i where i: "str_index s '':'' = Some i"
    and pd: "p = take i s" "d = drop (Suc i) s" "p \<noteq> []" "d \<noteq> []"
    by (auto simp: SplitCanonical_def Let_def split: option.splits if_splits)
  from str_index_Some_append [OF i] obtain b where s: "s = take i s @ '':'' @ b" and "i < length s"
    by auto
  have len: "length (take i s) = i" using \<open>i < length s\<close> by simp
  have "drop (Suc i) s = b"
    using arg_cong [OF s, of "drop (Suc i)"] len \<open>i < length s\<close> by simp
  moreover have "CHR '':'' \<notin> set (take i s)"
  proof
    assume "CHR '':'' \<in> set (take i s)"
    then obtain x y where "take i s = x @ CHR '':'' # y" "CHR '':'' \<notin> set x"
      by (meson split_list_first)
    then have "s = x @ CHR '':'' # (y @ '':'' @ b)" using s by simp
    then have "str_index s '':'' = Some (length x)"
      using \<open>CHR '':'' \<notin> set x\<close> by (simp add: str_index_char)
    moreover have "length x < i" using \<open>take i s = x @ CHR '':'' # y\<close> len
      by (metis length_append length_Cons less_add_Suc1 add_Suc_right)
    ultimately show False using i by simp
  qed
  ultimately show ?thesis using s pd by simp
qed

end
