(* ===== verification/Tenant_Checks.thy ===== *)
theory Tenant_Checks
  imports Tenant_State
begin

text \<open>
  The configuration checks of \<open>tenant/checks.go\<close>: each is a pure function from a posture
  snapshot to findings. The loops that append to \<open>out\<close> are list comprehensions in the
  order of the loop; \<open>nil\<close> and the empty slice are both \<open>[]\<close>.
\<close>

definition ModuleID :: string where "ModuleID = ''tenantwatch''"
definition InactiveDays :: int where "InactiveDays = 90"
definition AdminSprawlThreshold :: nat where "AdminSprawlThreshold = 5"

abbreviation mod_fp :: "string \<Rightarrow> string \<Rightarrow> string \<Rightarrow> string" where
  "mod_fp target check disc \<equiv> Fingerprint ModuleID target check disc"

abbreviation quote :: string where "quote \<equiv> [CHR 0x22]"

section \<open>Multi-factor authentication\<close>

definition admin_mfa_finding :: "string \<Rightarrow> tenant_state \<Rightarrow> user \<Rightarrow> finding" where
  "admin_mfa_finding target s u =
     collected (mod_fp target ''tenant.admin-mfa'' (to_lower (u_email u))) target ''tenant.admin-mfa''
       (''Admin without MFA: '' @ u_email u @ '' ('' @ join (u_admin_roles u) '', '' @ '')'')
       SeverityHigh
       (''Require MFA for '' @ u_email u @ '' immediately. A privileged account without a second factor is the single highest-value target in the tenant.'')
       [(''user'', JStr (u_email u)), (''roles'', JStrs (u_admin_roles u)),
        (''provider'', JStr (ts_provider s))]"

definition checkAdminMFA :: "string \<Rightarrow> tenant_state \<Rightarrow> finding list" where
  "checkAdminMFA target s =
     (if \<not> ts_assessed s AreaMFA \<or> \<not> ts_assessed s AreaAdminRoles then []
      else [admin_mfa_finding target s u. u \<leftarrow> ts_users s, u_enabled u \<and> u_is_admin u \<and> \<not> u_mfa u])"

definition checkUserMFA :: "string \<Rightarrow> tenant_state \<Rightarrow> finding list" where
  "checkUserMFA target s =
     (if \<not> ts_assessed s AreaMFA then []
      else
        let standard = filter (\<lambda>u. u_enabled u \<and> \<not> u_is_admin u) (ts_users s);
            total = length standard;
            missing = map u_email (filter (\<lambda>u. \<not> u_mfa u) standard)
        in if length missing = 0 \<or> total = 0 then []
           else
             let sorted_missing = sort missing;
                 preview = take 10 sorted_missing
             in [collected (mod_fp target ''tenant.user-mfa'' []) target ''tenant.user-mfa''
                   (nat_str (length missing) @ '' of '' @ nat_str total @ '' standard users have no MFA'')
                   SeverityMedium
                   ''Enforce MFA org-wide via a security-defaults or conditional-access policy. Password-only accounts are the primary entry point for account takeover.''
                   [(''missing_count'', JInt (int (length missing))), (''user_total'', JInt (int total)),
                    (''sample'', JStrs preview), (''provider'', JStr (ts_provider s))]])"

section \<open>Legacy authentication, OAuth grants, admin sprawl\<close>

definition checkLegacyAuth :: "string \<Rightarrow> tenant_state \<Rightarrow> finding list" where
  "checkLegacyAuth target s =
     (if \<not> ts_assessed s AreaLegacyAuth \<or> \<not> ts_legacy_auth s then []
      else [collected (mod_fp target ''tenant.legacy-auth'' []) target ''tenant.legacy-auth''
              ''Legacy authentication is still enabled'' SeverityHigh
              ''Block legacy authentication (IMAP/POP/SMTP basic auth). Legacy protocols bypass MFA entirely and are the vector for most password-spray success.''
              [(''provider'', JStr (ts_provider s))]])"

definition riskyScopes :: "string list \<Rightarrow> string list" where
  "riskyScopes scopes =
     filter (\<lambda>sc. list_ex (contains (to_lower sc)) riskyOAuthScopes) scopes"

definition appLabel :: "oauth_grant \<Rightarrow> string" where
  "appLabel g = (if g_app_name g \<noteq> [] then g_app_name g else g_app_id g)"

definition oauth_finding :: "string \<Rightarrow> tenant_state \<Rightarrow> oauth_grant \<Rightarrow> finding" where
  "oauth_finding target s g =
     (let sev = (if equal_fold (g_consent g) ''AllPrincipals'' then SeverityHigh else SeverityMedium);
          pub = (if g_publisher g = [] then ''unverified publisher'' else g_publisher g)
      in collected (mod_fp target ''tenant.risky-oauth'' (to_lower (g_app_id g))) target ''tenant.risky-oauth''
           (''Third-party app with broad access: '' @ appLabel g @ '' ('' @ pub @ '')'')
           sev
           (''Review and, if not clearly needed, revoke consent for '' @ appLabel g @
            ''. It can read/write mail or files across the accounts that granted it.'')
           [(''app'', JStr (appLabel g)), (''app_id'', JStr (g_app_id g)), (''consent'', JStr (g_consent g)),
            (''risky_scopes'', JStrs (riskyScopes (g_scopes g))), (''publisher'', JStr (g_publisher g)),
            (''provider'', JStr (ts_provider s))])"

definition checkOAuth :: "string \<Rightarrow> tenant_state \<Rightarrow> finding list" where
  "checkOAuth target s =
     (if \<not> ts_assessed s AreaOAuth then []
      else [oauth_finding target s g. g \<leftarrow> ts_grants s, riskyScopes (g_scopes g) \<noteq> []])"

definition checkAdminSprawl :: "string \<Rightarrow> tenant_state \<Rightarrow> finding list" where
  "checkAdminSprawl target s =
     (if \<not> ts_assessed s AreaAdminRoles then []
      else
        let admins = length (filter (\<lambda>u. u_enabled u \<and> u_is_admin u) (ts_users s))
        in if admins \<le> AdminSprawlThreshold then []
           else [collected (mod_fp target ''tenant.admin-sprawl'' []) target ''tenant.admin-sprawl''
                   (nat_str admins @ '' accounts hold administrator roles'') SeverityMedium
                   ''Reduce standing admin access to the minimum, and prefer just-in-time elevation. Every admin account is an equally valuable target; fewer is safer.''
                   [(''admin_count'', JInt (int admins)), (''threshold'', JInt (int AdminSprawlThreshold)),
                    (''provider'', JStr (ts_provider s))]])"

section \<open>Forwarding, sharing, email authentication\<close>

definition mail_forward_finding :: "string \<Rightarrow> tenant_state \<Rightarrow> user \<Rightarrow> finding" where
  "mail_forward_finding target s u =
     collected (mod_fp target ''tenant.mail-forward'' (to_lower (u_email u))) target ''tenant.mail-forward''
       (''Mailbox auto-forwards outside the org: '' @ u_email u @ '' '' @ right_arrow @ '' '' @ u_forward_target u)
       SeverityHigh
       (''Verify this forward with '' @ u_email u @ '' and remove it if unexpected. External auto-forwarding is a hallmark of a compromised mailbox (BEC/exfiltration).'')
       [(''user'', JStr (u_email u)), (''forward_to'', JStr (u_forward_target u)),
        (''provider'', JStr (ts_provider s))]"

definition checkMailForward :: "string \<Rightarrow> tenant_state \<Rightarrow> finding list" where
  "checkMailForward target s =
     (if \<not> ts_assessed s AreaMailForward then []
      else [mail_forward_finding target s u. u \<leftarrow> ts_users s, u_ext_forward u])"

definition checkSharing :: "string \<Rightarrow> tenant_state \<Rightarrow> finding list" where
  "checkSharing target s =
     (if \<not> ts_assessed s AreaSharing then []
      else if \<not> sh_anyone (ts_sharing s) \<and> \<not> sh_external (ts_sharing s) then []
      else
        let sev = SeverityMedium;
            title = (if sh_anyone (ts_sharing s)
              then quote @ ''Anyone with the link'' @ quote @ '' file sharing is enabled''
              else ''External file sharing is enabled'');
            rem = (if sh_anyone (ts_sharing s)
              then ''Disable anonymous '' @ quote @ ''anyone with the link'' @ quote @
                   '' sharing. Such links need no sign-in and are frequently indexed or leaked, exposing whatever they point to.''
              else ''Restrict external sharing to specific, authenticated guests only if the business needs it.'')
        in [collected (mod_fp target ''tenant.external-sharing'' []) target ''tenant.external-sharing''
              title sev rem
              [(''anyone_links'', JBool (sh_anyone (ts_sharing s))),
               (''external'', JBool (sh_external (ts_sharing s))),
               (''level'', JStr (sh_level (ts_sharing s))), (''provider'', JStr (ts_provider s))]])"

text \<open>The problems found on a domain and the severity they set, in the order of the code.\<close>

definition email_problems :: "domain_auth \<Rightarrow> string list \<times> severity" where
  "email_problems d =
     (let (problems, sev) =
            (if d_dmarc d = [] then ([''no DMARC record''], SeverityMedium)
             else if d_dmarc d = ''none''
               then ([''DMARC p=none (monitoring only '' @ em_dash @ '' spoofable)''], SeverityMedium)
             else ([], SeverityLow))
      in if \<not> d_spf d
         then (problems @ [''no SPF record''], if sev = SeverityLow then SeverityMedium else sev)
         else (problems, sev))"

definition email_finding :: "string \<Rightarrow> tenant_state \<Rightarrow> domain_auth \<Rightarrow> finding" where
  "email_finding target s d =
     (let (problems0, sev) = email_problems d;
          problems = (if \<not> d_dkim d then problems0 @ [''DKIM not detected''] else problems0)
      in collected (mod_fp target ''tenant.email-auth'' (to_lower (d_domain d))) target ''tenant.email-auth''
           (''Email spoofing risk on '' @ d_domain d @ '': '' @ join problems '', '')
           sev
           (''Publish SPF and DKIM, then raise DMARC from none '' @ right_arrow @ '' quarantine '' @ right_arrow @
            '' reject once your reports are clean. Until then, anyone can send mail as @'' @ d_domain d @ ''.'')
           [(''domain'', JStr (d_domain d)), (''spf'', JBool (d_spf d)), (''dkim'', JBool (d_dkim d)),
            (''dmarc'', JStr (d_dmarc d)), (''provider'', JStr (ts_provider s))])"

definition checkEmailAuth :: "string \<Rightarrow> tenant_state \<Rightarrow> finding list" where
  "checkEmailAuth target s =
     (if \<not> ts_assessed s AreaEmailAuth then []
      else [email_finding target s d. d \<leftarrow> ts_domains s, fst (email_problems d) \<noteq> []])"

section \<open>Conditional access, inactive users, notes\<close>

definition checkConditionalAccess :: "string \<Rightarrow> tenant_state \<Rightarrow> finding list" where
  "checkConditionalAccess target s =
     (if \<not> ts_assessed s AreaConditional \<or> ts_provider s \<noteq> ProviderM365 \<or> ts_conditional s then []
      else [collected (mod_fp target ''tenant.no-conditional-access'' []) target ''tenant.no-conditional-access''
              ''No enforced conditional-access policy'' SeverityMedium
              ''Add at least a baseline conditional-access policy (require MFA for admins, block legacy auth). Without one, sign-ins are governed only by password + optional MFA.''
              [(''provider'', JStr (ts_provider s))]])"

definition checkInactiveUsers :: "string \<Rightarrow> tenant_state \<Rightarrow> finding list" where
  "checkInactiveUsers target s =
     (if \<not> ts_assessed s AreaInactiveUser then []
      else if is_zero (ts_taken_at s) then []
      else
        let cutoff = add_days (ts_taken_at s) (- InactiveDays);
            stale = map u_email (filter (\<lambda>u. u_enabled u \<and> \<not> is_zero (u_last_active u)
                                             \<and> u_last_active u < cutoff) (ts_users s))
        in if length stale = 0 then []
           else
             let sorted_stale = sort stale;
                 preview = take 10 sorted_stale
             in [collected (mod_fp target ''tenant.inactive-user'' []) target ''tenant.inactive-user''
                   (nat_str (length stale) @ '' enabled account(s) unused for over '' @ itoa InactiveDays @ '' days'')
                   SeverityLow
                   ''Disable or remove accounts that are no longer used. Dormant enabled accounts widen the attack surface with no benefit.''
                   [(''count'', JInt (int (length stale))), (''days'', JInt InactiveDays),
                    (''sample'', JStrs preview), (''provider'', JStr (ts_provider s))]])"

definition note_finding :: "string \<Rightarrow> tenant_state \<Rightarrow> string \<Rightarrow> finding" where
  "note_finding target s n =
     collected (mod_fp target ''tenant.manual-review'' n) target ''tenant.manual-review''
       (''Manual review: '' @ n) SeverityInfo
       (''Review this area manually '' @ em_dash @ '' TenantWatch could not assess it automatically with the permissions granted.'')
       [(''provider'', JStr (ts_provider s))]"

definition notesToFindings :: "string \<Rightarrow> tenant_state \<Rightarrow> finding list" where
  "notesToFindings target s = [note_finding target s n. n \<leftarrow> ts_notes s]"

end
