(* ===== verification/Tenant_SignIn.thy ===== *)
theory Tenant_SignIn
  imports Tenant_Checks
begin

text \<open>
  Sign-in Watch (\<open>tenant/signin.go\<close>): pure detections over one fetched window of sign-in
  events. The aggregation maps are insertion-ordered association lists; Go iterates over
  them in an unspecified order and then sorts the findings by fingerprint.
\<close>

definition SignInWindow :: duration where "SignInWindow = 7 * 24 * hour"
definition TravelWindow :: duration where "TravelWindow = hour"
definition SprayWindow :: duration where "SprayWindow = hour"
definition SprayMinFailures :: nat where "SprayMinFailures = 10"
definition SprayMinAccounts :: nat where "SprayMinAccounts = 5"

section \<open>Helpers\<close>

definition clientLabel :: "string \<Rightarrow> string" where
  "clientLabel app = (if app = [] then ''a legacy client'' else app)"

definition plural :: "int \<Rightarrow> string \<Rightarrow> string" where
  "plural n word = (if n = 1 then ''1 '' @ word else itoa n @ '' '' @ word @ ''s'')"

definition gap_minutes :: "duration \<Rightarrow> int" where
  "gap_minutes d = (if d < 0 then - ((- d) div minute) else d div minute)"

definition humanGap :: "duration \<Rightarrow> string" where
  "humanGap d = (let m = gap_minutes d in if m < 1 then ''under a minute'' else plural m ''minute'')"

definition sortedKeys :: "string list \<Rightarrow> string list" where
  "sortedKeys keys = sort (remdups keys)"

definition sortFindings :: "finding list \<Rightarrow> finding list" where
  "sortFindings fs = sort_key f_fingerprint fs"

section \<open>Legacy authentication that succeeded\<close>

record legacy_entry =
  la_count :: nat
  la_last :: time
  la_from :: "string list"

definition legacy_bump :: "sign_in \<Rightarrow> legacy_entry option \<Rightarrow> legacy_entry" where
  "legacy_bump e old =
     (let a = (case old of None \<Rightarrow> \<lparr>la_count = 0, la_last = 0, la_from = []\<rparr> | Some a \<Rightarrow> a)
      in \<lparr>la_count = Suc (la_count a),
          la_last = (if si_at e > la_last a then si_at e else la_last a),
          la_from = (if si_country e \<noteq> [] then List.insert (si_country e) (la_from a) else la_from a)\<rparr>)"

definition legacy_step ::
  "sign_in \<Rightarrow> ((string \<times> string) \<times> legacy_entry) list \<Rightarrow> ((string \<times> string) \<times> legacy_entry) list" where
  "legacy_step e agg =
     (if \<not> si_success e \<or> \<not> si_legacy e then agg
      else amap_upd (to_lower (si_user e), si_client e) (legacy_bump e) agg)"

definition legacy_agg :: "sign_in list \<Rightarrow> ((string \<times> string) \<times> legacy_entry) list" where
  "legacy_agg es = fold legacy_step es []"

fun legacy_finding :: "string \<Rightarrow> tenant_state \<Rightarrow> (string \<times> string) \<times> legacy_entry \<Rightarrow> finding" where
  "legacy_finding target s ((usr, app), a) =
     (let whence = (if la_from a \<noteq> [] then '' from '' @ join (sortedKeys (la_from a)) '', '' else [])
      in collected (mod_fp target ''tenant.signin-legacy-auth'' (usr @ ''|'' @ app)) target
           ''tenant.signin-legacy-auth''
           (''Legacy authentication succeeded: '' @ usr @ '' via '' @ clientLabel app @ whence @ '' ('' @
            plural (int (la_count a)) ''sign-in'' @ '' in the last 7 days)'')
           SeverityCritical
           (''Block legacy authentication for '' @ usr @ '' and move this client to modern authentication. '' @
            ''Legacy protocols cannot carry MFA, so this account is effectively password-only today.'')
           [(''user'', JStr usr), (''client'', JStr app), (''sign_ins'', JInt (int (la_count a))),
            (''last_seen'', JStr (rfc3339 (la_last a))), (''countries'', JStrs (sortedKeys (la_from a))),
            (''provider'', JStr (ts_provider s))])"

definition checkLegacyAuthSuccess :: "string \<Rightarrow> tenant_state \<Rightarrow> finding list" where
  "checkLegacyAuthSuccess target s =
     sortFindings (map (legacy_finding target s) (legacy_agg (ts_sign_ins s)))"

section \<open>Administrators signing in with one factor\<close>

definition admin_map :: "user list \<Rightarrow> (string \<times> string list) list" where
  "admin_map us = fold (\<lambda>u m. if u_is_admin u then amap_put (to_lower (u_email u)) (u_admin_roles u) m else m) us []"

definition one_factor_bump :: "sign_in \<Rightarrow> (nat \<times> time) option \<Rightarrow> nat \<times> time" where
  "one_factor_bump e old =
     (let (n, l) = (case old of None \<Rightarrow> (0, 0) | Some a \<Rightarrow> a)
      in (Suc n, if si_at e > l then si_at e else l))"

definition one_factor_step ::
  "(string \<times> string list) list \<Rightarrow> sign_in \<Rightarrow> (string \<times> (nat \<times> time)) list \<Rightarrow> (string \<times> (nat \<times> time)) list" where
  "one_factor_step admins e seen =
     (if \<not> si_success e \<or> \<not> si_single_factor e then seen
      else if map_of admins (to_lower (si_user e)) = None then seen
      else amap_upd (to_lower (si_user e)) (one_factor_bump e) seen)"

fun one_factor_finding ::
  "string \<Rightarrow> tenant_state \<Rightarrow> (string \<times> string list) list \<Rightarrow> string \<times> (nat \<times> time) \<Rightarrow> finding" where
  "one_factor_finding target s admins (usr, (n, l)) =
     (let rs = (case map_of admins usr of None \<Rightarrow> [] | Some rs \<Rightarrow> rs);
          roles = join rs '', ''
      in collected (mod_fp target ''tenant.signin-admin-1fa'' usr) target ''tenant.signin-admin-1fa''
           (''Admin signed in without MFA: '' @ usr @ '' ('' @ roles @ '') '' @ em_dash @ '' '' @
            plural (int n) ''sign-in'' @ '' in the last 7 days'')
           SeverityCritical
           (''Require MFA for '' @ usr @ '' now. This is not a policy gap on paper '' @ em_dash @
            '' the account completed a real sign-in with a password alone.'')
           [(''user'', JStr usr), (''roles'', JStrs rs), (''sign_ins'', JInt (int n)),
            (''last_seen'', JStr (rfc3339 l)), (''provider'', JStr (ts_provider s))])"

definition checkAdminSingleFactor :: "string \<Rightarrow> tenant_state \<Rightarrow> finding list" where
  "checkAdminSingleFactor target s =
     (if \<not> ts_assessed s AreaAdminRoles then []
      else
        let admins = admin_map (ts_users s);
            seen = fold (one_factor_step admins) (ts_sign_ins s) []
        in sortFindings (map (one_factor_finding target s admins) seen))"

section \<open>Two countries in one travel window, and the provider's own verdict\<close>

text \<open>
  Path A over one user's events in time order: \<open>prev\<close> is the last event that carried a
  country. The first pair that hops ends the scan.
\<close>

fun hop_scan :: "sign_in option \<Rightarrow> sign_in list \<Rightarrow> (sign_in \<times> sign_in \<times> duration) option" where
  "hop_scan prev [] = None"
| "hop_scan prev (e # es) =
     (if si_country e = [] then hop_scan prev es
      else (case prev of
          None \<Rightarrow> hop_scan (Some e) es
        | Some l \<Rightarrow>
            if \<not> equal_fold (si_country l) (si_country e) \<and> time_sub (si_at e) (si_at l) < TravelWindow
            then Some (l, e, time_sub (si_at e) (si_at l))
            else hop_scan (Some e) es))"

definition countryHopFinding ::
  "string \<Rightarrow> tenant_state \<Rightarrow> string \<Rightarrow> sign_in \<Rightarrow> sign_in \<Rightarrow> duration \<Rightarrow> finding" where
  "countryHopFinding target s usr a b gap =
     collected (mod_fp target ''tenant.signin-country-hop'' usr) target ''tenant.signin-country-hop''
       (''Sign-ins from '' @ si_country a @ '' and '' @ si_country b @ '' within '' @ humanGap gap @ '': '' @ usr)
       SeverityHigh
       (''Confirm with '' @ usr @ '' that both sign-ins were theirs. If not, reset the password and revoke '' @
        ''active sessions. A VPN or a corporate egress in another country can explain this '' @ em_dash @
        '' both sign-ins are shown below so you can judge rather than guess.'')
       [(''user'', JStr usr),
        (''first'', JMap [(''country'', JStr (si_country a)), (''ip'', JStr (si_ip a)), (''at'', JStr (rfc3339 (si_at a)))]),
        (''second'', JMap [(''country'', JStr (si_country b)), (''ip'', JStr (si_ip b)), (''at'', JStr (rfc3339 (si_at b)))]),
        (''gap_minutes'', JInt (gap_minutes gap)), (''provider'', JStr (ts_provider s))]"

definition suspicious_finding :: "string \<Rightarrow> tenant_state \<Rightarrow> string \<Rightarrow> sign_in \<Rightarrow> finding" where
  "suspicious_finding target s usr e =
     collected (mod_fp target ''tenant.signin-suspicious'' usr) target ''tenant.signin-suspicious''
       (''Google flagged a successful sign-in as suspicious: '' @ usr)
       SeverityHigh
       (''Review this sign-in with '' @ usr @ '' directly. If they do not recognise it, reset the password '' @
        ''and revoke active sessions. Google raised this flag itself '' @ em_dash @
        '' TenantWatch is surfacing it, not second-guessing it.'')
       [(''user'', JStr usr), (''at'', JStr (rfc3339 (si_at e))), (''ip'', JStr (si_ip e)),
        (''source'', JStr ''google is_suspicious''), (''provider'', JStr (ts_provider s))]"

fun hop_user :: "string \<Rightarrow> tenant_state \<Rightarrow> string \<times> sign_in list \<Rightarrow> finding list" where
  "hop_user target s (usr, evs) =
     (let events = sort_key si_at evs
      in (case hop_scan None events of
            None \<Rightarrow> []
          | Some (a, b, gap) \<Rightarrow> [countryHopFinding target s usr a b gap]) @
         (case List.find (\<lambda>e. si_country e = [] \<and> si_suspicious e) events of
            None \<Rightarrow> []
          | Some e \<Rightarrow> [suspicious_finding target s usr e]))"

definition by_user :: "sign_in list \<Rightarrow> (string \<times> sign_in list) list" where
  "by_user es = group_by (\<lambda>e. to_lower (si_user e)) (filter si_success es)"

definition checkCountryHop :: "string \<Rightarrow> tenant_state \<Rightarrow> finding list" where
  "checkCountryHop target s = sortFindings (concat (map (hop_user target s) (by_user (ts_sign_ins s))))"

section \<open>A password spray that landed\<close>

definition spray_burst :: "sign_in \<Rightarrow> sign_in list \<Rightarrow> sign_in list" where
  "spray_burst e rest =
     filter (\<lambda>x. \<not> si_success x) (takeWhile (\<lambda>x. \<not> si_at x > si_at e + SprayWindow) (e # rest))"

definition spray_accounts :: "sign_in list \<Rightarrow> string list" where
  "spray_accounts burst = remdups (map (\<lambda>x. to_lower (si_user x)) burst)"

text \<open>
  \<open>spray_scan all es\<close> is the outer loop from the first event of \<open>es\<close> on; \<open>all\<close> is the
  whole list of events from the address, which the search for a success ranges over.
\<close>

fun spray_scan :: "sign_in list \<Rightarrow> sign_in list \<Rightarrow> (nat \<times> nat \<times> sign_in) option" where
  "spray_scan all [] = None"
| "spray_scan all (e # es) =
     (if si_success e then spray_scan all es
      else
        let burst = spray_burst e es;
            failures = length burst;
            accounts = length (spray_accounts burst)
        in if failures < SprayMinFailures \<or> accounts < SprayMinAccounts then spray_scan all es
           else (case List.find (\<lambda>x. si_success x \<and> \<not> si_at x < si_at e) all of
                   None \<Rightarrow> None
                 | Some landed \<Rightarrow> Some (failures, accounts, landed)))"

definition spray_finding ::
  "string \<Rightarrow> tenant_state \<Rightarrow> string \<Rightarrow> nat \<Rightarrow> nat \<Rightarrow> sign_in \<Rightarrow> finding" where
  "spray_finding target s ip failures accounts landed =
     collected (mod_fp target ''tenant.signin-spray'' ip) target ''tenant.signin-spray''
       (''Password spray succeeded from '' @ ip @ '': '' @ nat_str failures @ '' failures across '' @
        nat_str accounts @ '' accounts, then '' @ si_user landed @ '' signed in'')
       SeverityCritical
       (''Treat '' @ si_user landed @ '' as compromised: reset the password, revoke active sessions, '' @
        ''and check the mailbox for forwarding rules. Then block '' @ ip @ '' and require MFA tenant-wide.'')
       [(''ip'', JStr ip), (''failures'', JInt (int failures)), (''accounts_targeted'', JInt (int accounts)),
        (''compromised_user'', JStr (to_lower (si_user landed))),
        (''succeeded_at'', JStr (rfc3339 (si_at landed))), (''provider'', JStr (ts_provider s))]"

fun spray_ip :: "string \<Rightarrow> tenant_state \<Rightarrow> string \<times> sign_in list \<Rightarrow> finding list" where
  "spray_ip target s (ip, evs) =
     (let events = sort_key si_at evs
      in (case spray_scan events events of
            None \<Rightarrow> []
          | Some (failures, accounts, landed) \<Rightarrow> [spray_finding target s ip failures accounts landed]))"

definition by_ip :: "sign_in list \<Rightarrow> (string \<times> sign_in list) list" where
  "by_ip es = group_by si_ip (filter (\<lambda>e. si_ip e \<noteq> []) es)"

definition checkSprayLanded :: "string \<Rightarrow> tenant_state \<Rightarrow> finding list" where
  "checkSprayLanded target s = sortFindings (concat (map (spray_ip target s) (by_ip (ts_sign_ins s))))"

section \<open>All sign-in checks\<close>

definition checkSignIns :: "string \<Rightarrow> tenant_state \<Rightarrow> finding list" where
  "checkSignIns target s =
     (if \<not> ts_assessed s AreaSignIn then []
      else checkLegacyAuthSuccess target s @ checkAdminSingleFactor target s @
           checkCountryHop target s @ checkSprayLanded target s)"

end
