(* ===== verification/Tenant_Engine.thy ===== *)
theory Tenant_Engine
  imports Tenant_SignIn
begin

text \<open>
  The judgement as a whole (\<open>Evaluate\<close> in \<open>tenant/checks.go\<close>) and the collector around it
  (\<open>tenant/collector.go\<close>). The posture source is an interface, so it is an argument: a
  function from provider and domain to an error or a snapshot.
\<close>

definition Evaluate :: "tenant_state \<Rightarrow> finding list" where
  "Evaluate s =
     (let target = Canonical (ts_provider s) (ts_domain s)
      in checkAdminMFA target s @ checkUserMFA target s @ checkLegacyAuth target s @
         checkOAuth target s @ checkAdminSprawl target s @ checkMailForward target s @
         checkSharing target s @ checkEmailAuth target s @ checkConditionalAccess target s @
         checkInactiveUsers target s @ checkSignIns target s @ notesToFindings target s)"

section \<open>What every emitted finding looks like\<close>

text \<open>The areas a check needs to have been read, by its rule id.\<close>

definition check_areas :: "string \<Rightarrow> string list" where
  "check_areas c =
     (case map_of
        [(''tenant.admin-mfa'', [AreaMFA, AreaAdminRoles]),
         (''tenant.user-mfa'', [AreaMFA]),
         (''tenant.legacy-auth'', [AreaLegacyAuth]),
         (''tenant.risky-oauth'', [AreaOAuth]),
         (''tenant.admin-sprawl'', [AreaAdminRoles]),
         (''tenant.mail-forward'', [AreaMailForward]),
         (''tenant.external-sharing'', [AreaSharing]),
         (''tenant.email-auth'', [AreaEmailAuth]),
         (''tenant.no-conditional-access'', [AreaConditional]),
         (''tenant.inactive-user'', [AreaInactiveUser]),
         (''tenant.signin-legacy-auth'', [AreaSignIn]),
         (''tenant.signin-admin-1fa'', [AreaSignIn, AreaAdminRoles]),
         (''tenant.signin-country-hop'', [AreaSignIn]),
         (''tenant.signin-suspicious'', [AreaSignIn]),
         (''tenant.signin-spray'', [AreaSignIn])] c of
        None \<Rightarrow> [] | Some areas \<Rightarrow> areas)"

text \<open>The severities a check may use, by its rule id.\<close>

definition check_severities :: "string \<Rightarrow> severity list" where
  "check_severities c =
     (case map_of
        [(''tenant.admin-mfa'', [SeverityHigh]),
         (''tenant.user-mfa'', [SeverityMedium]),
         (''tenant.legacy-auth'', [SeverityHigh]),
         (''tenant.risky-oauth'', [SeverityHigh, SeverityMedium]),
         (''tenant.admin-sprawl'', [SeverityMedium]),
         (''tenant.mail-forward'', [SeverityHigh]),
         (''tenant.external-sharing'', [SeverityMedium]),
         (''tenant.email-auth'', [SeverityMedium]),
         (''tenant.no-conditional-access'', [SeverityMedium]),
         (''tenant.inactive-user'', [SeverityLow]),
         (''tenant.signin-legacy-auth'', [SeverityCritical]),
         (''tenant.signin-admin-1fa'', [SeverityCritical]),
         (''tenant.signin-country-hop'', [SeverityHigh]),
         (''tenant.signin-suspicious'', [SeverityHigh]),
         (''tenant.signin-spray'', [SeverityCritical]),
         (''tenant.manual-review'', [SeverityInfo])] c of
        None \<Rightarrow> [] | Some sevs \<Rightarrow> sevs)"

definition emitted :: "string \<Rightarrow> tenant_state \<Rightarrow> finding \<Rightarrow> bool" where
  "emitted target s f \<longleftrightarrow>
     f_target f = target \<and> (\<exists>d. f_fingerprint f = mod_fp target (f_check f) d) \<and>
     f_title f \<noteq> [] \<and> f_remediation f \<noteq> [] \<and>
     f_severity f \<in> set (check_severities (f_check f)) \<and>
     list_all (ts_assessed s) (check_areas (f_check f))"

lemma emitted_collected:
  assumes "fp = mod_fp target c d" "ti \<noteq> []" "r \<noteq> []"
    "sev \<in> set (check_severities c)" "list_all (ts_assessed s) (check_areas c)"
  shows "emitted target s (collected fp target c ti sev r ev)"
  using assms by (auto simp: emitted_def)

lemma sortFindings_set [simp]: "set (sortFindings fs) = set fs"
  by (simp add: sortFindings_def)

lemmas config_defs = checkAdminMFA_def checkUserMFA_def checkLegacyAuth_def checkOAuth_def
  checkAdminSprawl_def checkMailForward_def checkSharing_def checkEmailAuth_def
  checkConditionalAccess_def checkInactiveUsers_def notesToFindings_def

lemmas finding_defs = admin_mfa_finding_def oauth_finding_def mail_forward_finding_def
  email_finding_def note_finding_def countryHopFinding_def suspicious_finding_def spray_finding_def

lemmas emitted_simps = check_areas_def check_severities_def

lemma checkAdminMFA_emitted: "f \<in> set (checkAdminMFA t s) \<Longrightarrow> emitted t s f"
  by (auto simp: checkAdminMFA_def admin_mfa_finding_def emitted_simps
      intro!: emitted_collected split: if_splits)

lemma checkUserMFA_emitted: "f \<in> set (checkUserMFA t s) \<Longrightarrow> emitted t s f"
  by (auto simp: checkUserMFA_def Let_def emitted_simps intro!: emitted_collected split: if_splits)

lemma checkLegacyAuth_emitted: "f \<in> set (checkLegacyAuth t s) \<Longrightarrow> emitted t s f"
  by (auto simp: checkLegacyAuth_def emitted_simps intro!: emitted_collected split: if_splits)

lemma oauth_finding_emitted: "ts_assessed s AreaOAuth \<Longrightarrow> emitted t s (oauth_finding t s g)"
  unfolding oauth_finding_def Let_def
  by (rule emitted_collected [OF refl]) (simp_all add: emitted_simps)

lemma checkOAuth_emitted: "f \<in> set (checkOAuth t s) \<Longrightarrow> emitted t s f"
  by (auto simp: checkOAuth_def intro!: oauth_finding_emitted split: if_splits)

lemma checkAdminSprawl_emitted: "f \<in> set (checkAdminSprawl t s) \<Longrightarrow> emitted t s f"
  by (auto simp: checkAdminSprawl_def Let_def emitted_simps intro!: emitted_collected split: if_splits)

lemma checkMailForward_emitted: "f \<in> set (checkMailForward t s) \<Longrightarrow> emitted t s f"
  by (auto simp: checkMailForward_def mail_forward_finding_def emitted_simps
      intro!: emitted_collected split: if_splits)

lemma checkSharing_emitted: "f \<in> set (checkSharing t s) \<Longrightarrow> emitted t s f"
  by (auto simp: checkSharing_def Let_def emitted_simps intro!: emitted_collected split: if_splits)

text \<open>A domain with a problem is always at least Medium: the Low start value never survives.\<close>

lemma email_problems_severity:
  "fst (email_problems d) \<noteq> [] \<Longrightarrow> snd (email_problems d) = SeverityMedium"
  by (auto simp: email_problems_def Let_def split: if_splits)

lemma checkEmailAuth_emitted: "f \<in> set (checkEmailAuth t s) \<Longrightarrow> emitted t s f"
  using email_problems_severity
  by (force simp: checkEmailAuth_def email_finding_def Let_def emitted_simps split_beta
      intro!: emitted_collected split: if_splits)

lemma checkConditionalAccess_emitted: "f \<in> set (checkConditionalAccess t s) \<Longrightarrow> emitted t s f"
  by (auto simp: checkConditionalAccess_def emitted_simps intro!: emitted_collected split: if_splits)

lemma checkInactiveUsers_emitted: "f \<in> set (checkInactiveUsers t s) \<Longrightarrow> emitted t s f"
  by (auto simp: checkInactiveUsers_def Let_def emitted_simps intro!: emitted_collected split: if_splits)

lemma notesToFindings_emitted: "f \<in> set (notesToFindings t s) \<Longrightarrow> emitted t s f"
  by (auto simp: notesToFindings_def note_finding_def emitted_simps intro!: emitted_collected)

lemma legacy_finding_emitted: "ts_assessed s AreaSignIn \<Longrightarrow> emitted t s (legacy_finding t s x)"
  by (cases x, cases "fst x")
    (auto simp: Let_def emitted_simps intro!: emitted_collected)

lemma one_factor_finding_emitted:
  "ts_assessed s AreaSignIn \<Longrightarrow> ts_assessed s AreaAdminRoles \<Longrightarrow> emitted t s (one_factor_finding t s admins x)"
  by (cases x, cases "snd x")
    (auto simp: Let_def emitted_simps intro!: emitted_collected)

lemma hop_user_emitted:
  "ts_assessed s AreaSignIn \<Longrightarrow> f \<in> set (hop_user t s x) \<Longrightarrow> emitted t s f"
  by (cases x) (auto simp: Let_def emitted_simps countryHopFinding_def suspicious_finding_def
      intro!: emitted_collected split: option.splits)

lemma spray_ip_emitted:
  "ts_assessed s AreaSignIn \<Longrightarrow> f \<in> set (spray_ip t s x) \<Longrightarrow> emitted t s f"
  by (cases x) (auto simp: Let_def emitted_simps spray_finding_def
      intro!: emitted_collected split: option.splits)

lemma checkSignIns_emitted: "f \<in> set (checkSignIns t s) \<Longrightarrow> emitted t s f"
  by (auto simp: checkSignIns_def checkLegacyAuthSuccess_def checkAdminSingleFactor_def
      checkCountryHop_def checkSprayLanded_def Let_def
      intro: legacy_finding_emitted one_factor_finding_emitted hop_user_emitted spray_ip_emitted
      split: if_splits)

lemmas check_emitted = checkAdminMFA_emitted checkUserMFA_emitted checkLegacyAuth_emitted
  checkOAuth_emitted checkAdminSprawl_emitted checkMailForward_emitted checkSharing_emitted
  checkEmailAuth_emitted checkConditionalAccess_emitted checkInactiveUsers_emitted
  checkSignIns_emitted notesToFindings_emitted

lemma Evaluate_emitted:
  "f \<in> set (Evaluate s) \<Longrightarrow> emitted (Canonical (ts_provider s) (ts_domain s)) s f"
  unfolding Evaluate_def Let_def set_append Un_iff by (elim disjE) (erule check_emitted)+

lemma check_severities_valid: "sev \<in> set (check_severities c) \<Longrightarrow> c \<noteq> [] \<and> sev_valid sev"
  by (auto simp: check_severities_def sev_valid_iff split: option.splits if_splits)

lemma emitted_ingest: "emitted t s f \<Longrightarrow> t \<noteq> [] \<Longrightarrow> ValidateForIngest f = None"
  by (elim exE conjE emitted_def [THEN iffD1, elim_format])
    (simp add: ValidateForIngest_None_iff check_severities_valid)

end
