(* ===== verification/SignIn_Spec.thy ===== *)
theory SignIn_Spec
  imports Tenant_Engine
begin

text \<open>
  What the sign-in detections decide, stated on the raw log: the loops over sorted, grouped
  and aggregated events raise a finding exactly when a declarative condition on the log
  holds. Since the condition does not mention the order of the log, neither the iteration
  order of Go's maps nor the order \<open>sort.Slice\<close> gives to simultaneous events matters.
\<close>

definition ev_get :: "finding \<Rightarrow> string \<Rightarrow> jval option" where
  "ev_get f k = (case f_evidence f of None \<Rightarrow> None | Some m \<Rightarrow> map_of m k)"

lemma ev_get_collected [simp]: "ev_get (collected fp t c ti s r m) k = map_of m k"
  by (simp add: ev_get_def)

lemma config_finding_views [simp]:
  "f_check (admin_mfa_finding t s u) = ''tenant.admin-mfa''"
  "f_check (oauth_finding t s g) = ''tenant.risky-oauth''"
  "f_check (mail_forward_finding t s u) = ''tenant.mail-forward''"
  "f_check (email_finding t s d) = ''tenant.email-auth''"
  "f_check (note_finding t s n) = ''tenant.manual-review''"
  by (simp_all add: finding_defs Let_def split_beta)

lemma sign_in_finding_views [simp]:
  "f_check (countryHopFinding t s usr a b gap) = ''tenant.signin-country-hop''"
  "ev_get (countryHopFinding t s usr a b gap) ''user'' = Some (JStr usr)"
  "f_check (suspicious_finding t s usr e) = ''tenant.signin-suspicious''"
  "ev_get (suspicious_finding t s usr e) ''user'' = Some (JStr usr)"
  "f_check (spray_finding t s ip n k e) = ''tenant.signin-spray''"
  "ev_get (spray_finding t s ip n k e) ''ip'' = Some (JStr ip)"
  by (simp_all add: finding_defs)

section \<open>Two countries\<close>

definition hop_pair :: "sign_in list \<Rightarrow> bool" where
  "hop_pair es \<longleftrightarrow> (\<exists>a \<in> set es. \<exists>b \<in> set es.
     si_country a \<noteq> [] \<and> si_country b \<noteq> [] \<and> \<not> equal_fold (si_country a) (si_country b) \<and>
     si_at a \<le> si_at b \<and> si_at b - si_at a < TravelWindow)"

lemma travel_window_gap: "time_sub a b < TravelWindow \<longleftrightarrow> a - b < TravelWindow"
  by (rule time_sub_less_iff) (simp_all add: TravelWindow_def time_consts)

lemma hop_scan_sound:
  "hop_scan prev es = Some (a, b, gap) \<Longrightarrow> (\<forall>l. prev = Some l \<longrightarrow> si_country l \<noteq> []) \<Longrightarrow>
     sorted (map si_at (case prev of None \<Rightarrow> es | Some l \<Rightarrow> l # es)) \<Longrightarrow>
     a \<in> set es \<union> set_option prev \<and> b \<in> set es \<and> si_country a \<noteq> [] \<and> si_country b \<noteq> [] \<and>
     \<not> equal_fold (si_country a) (si_country b) \<and> si_at a \<le> si_at b \<and>
     si_at b - si_at a < TravelWindow"
  by (induction prev es rule: hop_scan.induct)
    (auto simp: travel_window_gap split: if_splits option.splits)

text \<open>Looking only at neighbours loses nothing: any hopping pair contains a neighbouring one.\<close>

lemma hop_scan_complete:
  "hop_scan (Some l) es = None \<Longrightarrow> si_country l \<noteq> [] \<Longrightarrow> sorted (map si_at (l # es)) \<Longrightarrow>
     \<not> hop_pair (l # es)"
proof (induction es arbitrary: l)
  case Nil
  then show ?case by (auto simp: hop_pair_def TravelWindow_def)
next
  case (Cons e es)
  show ?case
  proof (cases "si_country e = []")
    case True
    with Cons.prems have "\<not> hop_pair (l # es)" by (intro Cons.IH) auto
    with True show ?thesis by (auto simp: hop_pair_def)
  next
    case False
    with Cons.prems(1) have near: "equal_fold (si_country l) (si_country e) \<or>
        \<not> si_at e - si_at l < TravelWindow" and rest: "hop_scan (Some e) es = None"
      by (auto simp: travel_window_gap split: if_splits)
    from rest False Cons.prems(3) have none: "\<not> hop_pair (e # es)" by (intro Cons.IH) auto
    have far: "\<not> (\<not> equal_fold (si_country l) (si_country b) \<and> si_at b - si_at l < TravelWindow)"
      if b: "b \<in> set (e # es)" "si_country b \<noteq> []" for b
    proof
      assume hop: "\<not> equal_fold (si_country l) (si_country b) \<and> si_at b - si_at l < TravelWindow"
      from Cons.prems(3) b have "si_at l \<le> si_at e" "si_at e \<le> si_at b" by auto
      with hop near have "equal_fold (si_country l) (si_country e)" by auto
      with hop have "\<not> equal_fold (si_country e) (si_country b)" by (blast intro: equal_fold_trans)
      with none b False hop \<open>si_at l \<le> si_at e\<close> \<open>si_at e \<le> si_at b\<close> show False
        by (force simp: hop_pair_def)
    qed
    show ?thesis
    proof
      assume "hop_pair (l # e # es)"
      then obtain a b where ab: "a \<in> set (l # e # es)" "b \<in> set (l # e # es)"
        "si_country a \<noteq> []" "si_country b \<noteq> []" "\<not> equal_fold (si_country a) (si_country b)"
        "si_at a \<le> si_at b" "si_at b - si_at a < TravelWindow"
        by (auto simp only: hop_pair_def)
      have le: "si_at l \<le> si_at x" if "x \<in> set (e # es)" for x
        using Cons.prems(3) that by auto
      consider "a = l" "b = l" | "a = l" "b \<in> set (e # es)" | "b = l" "a \<in> set (e # es)"
        | "a \<in> set (e # es)" "b \<in> set (e # es)" using ab(1,2) by auto
      then show False
      proof cases
        case 1 with ab show False by simp
      next
        case 2 with ab far show False by blast
      next
        case 3
        then have "si_at a = si_at l" using ab le by force
        with 3 ab far [of a] show False by (auto dest: equal_fold_sym)
      next
        case 4 with ab none show False by (auto simp only: hop_pair_def)
      qed
    qed
  qed
qed

lemma hop_scan_None_complete:
  "hop_scan None es = None \<Longrightarrow> sorted (map si_at es) \<Longrightarrow> \<not> hop_pair es"
proof (induction es)
  case Nil
  then show ?case by (simp add: hop_pair_def)
next
  case (Cons e es)
  show ?case
  proof (cases "si_country e = []")
    case True
    with Cons show ?thesis by (auto simp: hop_pair_def)
  next
    case False
    with Cons.prems show ?thesis by (intro hop_scan_complete) auto
  qed
qed

lemma hop_scan_iff:
  assumes "sorted (map si_at es)"
  shows "hop_scan None es \<noteq> None \<longleftrightarrow> hop_pair es"
proof
  assume "hop_scan None es \<noteq> None"
  then obtain a b gap where "hop_scan None es = Some (a, b, gap)" by auto
  from hop_scan_sound [OF this] assms show "hop_pair es" by (auto simp: hop_pair_def)
qed (use hop_scan_None_complete assms in blast)

lemma hop_pair_cong: "set es = set es' \<Longrightarrow> hop_pair es = hop_pair es'"
  by (simp add: hop_pair_def)

section \<open>A spray that landed\<close>

text \<open>The burst that starts at an event, counted over all events of the address.\<close>

definition burst_of :: "sign_in list \<Rightarrow> time \<Rightarrow> sign_in list" where
  "burst_of es t = filter (\<lambda>x. \<not> si_success x \<and> t \<le> si_at x \<and> si_at x \<le> t + SprayWindow) es"

definition spray_landed :: "sign_in list \<Rightarrow> bool" where
  "spray_landed es \<longleftrightarrow> (\<exists>e \<in> set es. \<not> si_success e \<and>
     SprayMinFailures \<le> length (burst_of es (si_at e)) \<and>
     SprayMinAccounts \<le> card ((\<lambda>x. to_lower (si_user x)) ` set (burst_of es (si_at e))) \<and>
     (\<exists>x \<in> set es. si_success x \<and> si_at e \<le> si_at x))"

definition burst_counts :: "sign_in list \<Rightarrow> bool" where
  "burst_counts burst \<longleftrightarrow>
     \<not> (length burst < SprayMinFailures \<or> length (spray_accounts burst) < SprayMinAccounts)"

lemma length_spray_accounts: "length (spray_accounts b) = card ((\<lambda>x. to_lower (si_user x)) ` set b)"
  by (simp add: spray_accounts_def length_remdups_card_conv)

lemma burst_counts_mono:
  "set b \<subseteq> set b' \<Longrightarrow> length b \<le> length b' \<Longrightarrow> burst_counts b \<Longrightarrow> burst_counts b'"
  using card_mono [of "(\<lambda>x. to_lower (si_user x)) ` set b'" "(\<lambda>x. to_lower (si_user x)) ` set b"]
  by (force simp: burst_counts_def length_spray_accounts)

definition landed_after :: "sign_in list \<Rightarrow> time \<Rightarrow> bool" where
  "landed_after es t \<longleftrightarrow> (\<exists>x \<in> set es. si_success x \<and> t \<le> si_at x)"

lemma find_landed_iff:
  "List.find (\<lambda>x. si_success x \<and> \<not> si_at x < t) es \<noteq> None \<longleftrightarrow> landed_after es t"
  by (auto simp: find_None_iff landed_after_def not_less)

text \<open>
  The outer loop stops at the first burst whether or not it landed; in time order a burst
  that did not land means no later one can.
\<close>

lemma spray_scan_iff:
  "sorted (map si_at es) \<Longrightarrow>
     spray_scan all es \<noteq> None \<longleftrightarrow>
       (\<exists>p e q. es = p @ e # q \<and> \<not> si_success e \<and> burst_counts (spray_burst e q) \<and>
          landed_after all (si_at e))"
proof (induction es)
  case Nil
  then show ?case by simp
next
  case (Cons e es)
  let ?Q = "\<lambda>es. \<exists>p e q. es = p @ e # q \<and> \<not> si_success e \<and> burst_counts (spray_burst e q) \<and>
          landed_after all (si_at e)"
  have split: "?Q (e # es) \<longleftrightarrow>
      (\<not> si_success e \<and> burst_counts (spray_burst e es) \<and> landed_after all (si_at e)) \<or> ?Q es"
    by (auto simp: Cons_eq_append_conv)
  show ?case
  proof (cases "si_success e \<or> \<not> burst_counts (spray_burst e es)")
    case True
    then have "spray_scan all (e # es) = spray_scan all es" by (auto simp: burst_counts_def Let_def)
    with True Cons split show ?thesis by auto
  next
    case False
    then have "spray_scan all (e # es) \<noteq> None \<longleftrightarrow> landed_after all (si_at e)"
      using find_landed_iff [of "si_at e" all]
      by (auto simp: burst_counts_def Let_def split: option.splits)
    moreover have "landed_after all (si_at e)" if "?Q es"
    proof -
      from that obtain p x q where "es = p @ x # q" "landed_after all (si_at x)" by blast
      moreover from this have "x \<in> set es" by simp
      moreover from this Cons.prems have "si_at e \<le> si_at x" by auto
      ultimately show ?thesis by (force simp: landed_after_def)
    qed
    ultimately show ?thesis using False split by blast
  qed
qed

lemma spray_burst_filter:
  assumes "sorted (map si_at (e # q))"
  shows "spray_burst e q = burst_of (e # q) (si_at e)"
proof -
  have "takeWhile (\<lambda>x. si_at x \<le> si_at e + SprayWindow) (e # q) =
      filter (\<lambda>x. si_at x \<le> si_at e + SprayWindow) (e # q)"
    using assms by (rule takeWhile_sorted_filter)
  moreover have "\<forall>x \<in> set (e # q). si_at e \<le> si_at x" using assms by auto
  ultimately show ?thesis
    unfolding spray_burst_def burst_of_def not_less filter_filter
    by (auto simp only: filter_filter intro!: filter_cong)
qed

lemma spray_landed_iff:
  "spray_landed es \<longleftrightarrow> (\<exists>e \<in> set es. \<not> si_success e \<and> burst_counts (burst_of es (si_at e)) \<and>
     landed_after es (si_at e))"
  by (auto simp: spray_landed_def burst_counts_def length_spray_accounts landed_after_def not_less)

lemma spray_scan_landed:
  assumes sorted: "sorted (map si_at es)"
  shows "spray_scan es es \<noteq> None \<longleftrightarrow> spray_landed es"
proof
  assume "spray_scan es es \<noteq> None"
  with spray_scan_iff [OF sorted] obtain p e q where es: "es = p @ e # q" and e: "\<not> si_success e"
    and b: "burst_counts (spray_burst e q)" and l: "landed_after es (si_at e)" by blast
  have "sorted (map si_at (e # q))" using sorted by (simp add: es sorted_append)
  then have "spray_burst e q = burst_of (e # q) (si_at e)" by (rule spray_burst_filter)
  moreover have "burst_of es t = burst_of p t @ burst_of (e # q) t" for t
    by (simp add: es burst_of_def)
  ultimately have "burst_counts (burst_of es (si_at e))"
    using b by (auto intro: burst_counts_mono)
  with e l show "spray_landed es" by (auto simp: spray_landed_iff es)
next
  assume "spray_landed es"
  then obtain e where e: "e \<in> set es" "\<not> si_success e" and b: "burst_counts (burst_of es (si_at e))"
    and l: "landed_after es (si_at e)" by (auto simp: spray_landed_iff)
  obtain p f q where es: "es = p @ f # q" and f: "\<not> si_success f" "si_at f = si_at e"
    and first: "\<forall>x \<in> set p. \<not> (\<not> si_success x \<and> si_at x = si_at e)"
    using split_list_first_prop [of es "\<lambda>x. \<not> si_success x \<and> si_at x = si_at e"] e by metis
  have sfq: "sorted (map si_at (f # q))" and le: "\<forall>x \<in> set p. si_at x \<le> si_at f"
    using sorted by (auto simp: es sorted_append)
  have "\<forall>x \<in> set p. \<not> si_success x \<longrightarrow> si_at x < si_at e" using first le f by force
  then have "burst_of p (si_at e) = []" by (force simp: burst_of_def filter_empty_conv)
  then have "burst_of es (si_at e) = burst_of (f # q) (si_at f)"
    by (simp add: es burst_of_def f)
  with b spray_burst_filter [OF sfq] have "burst_counts (spray_burst f q)" by simp
  with es f l have "\<exists>p e q. es = p @ e # q \<and> \<not> si_success e \<and> burst_counts (spray_burst e q) \<and>
      landed_after es (si_at e)" by metis
  then show "spray_scan es es \<noteq> None" using spray_scan_iff [OF sorted] by blast
qed

lemma burst_of_mset: "mset es = mset es' \<Longrightarrow> mset (burst_of es t) = mset (burst_of es' t)"
  by (simp add: burst_of_def)

lemma spray_landed_perm:
  assumes "mset es = mset es'"
  shows "spray_landed es = spray_landed es'"
proof -
  have "set es = set es'" using assms by (rule mset_eq_setD)
  moreover have "length (burst_of es t) = length (burst_of es' t)"
    "set (burst_of es t) = set (burst_of es' t)" for t
    using burst_of_mset [OF assms, of t] by (auto dest: mset_eq_length mset_eq_setD)
  ultimately show ?thesis by (simp add: spray_landed_def)
qed

section \<open>Aggregated detections\<close>

lemma legacy_step_agg:
  "legacy_step = agg_step (\<lambda>e. si_success e \<and> si_legacy e) (\<lambda>e. (to_lower (si_user e), si_client e)) legacy_bump"
  by (auto simp: legacy_step_def agg_step_def fun_eq_iff)

lemma amap_inv_legacy_agg [simp]: "amap_inv (legacy_agg es)"
  by (simp add: legacy_agg_def legacy_step_agg)

definition legacy_events :: "sign_in list \<Rightarrow> string \<Rightarrow> string \<Rightarrow> sign_in list" where
  "legacy_events es usr app = filter (\<lambda>e. (si_success e \<and> si_legacy e) \<and>
     (to_lower (si_user e), si_client e) = (usr, app)) es"

lemma fold_legacy_bump:
  "\<exists>a'. fold (\<lambda>x old. Some (legacy_bump x old)) es (Some a) = Some a' \<and>
     la_count a' = la_count a + length es \<and> la_last a' = Max (insert (la_last a) (si_at ` set es)) \<and>
     set (la_from a') = set (la_from a) \<union> (si_country ` set es - {[]})"
proof (induction es arbitrary: a)
  case Nil
  then show ?case by simp
next
  case (Cons e es)
  let ?b = "legacy_bump e (Some a)"
  have b: "la_count ?b = Suc (la_count a)" "la_last ?b = max (la_last a) (si_at e)"
    "set (la_from ?b) = set (la_from a) \<union> ({si_country e} - {[]})"
    by (auto simp: legacy_bump_def Let_def)
  from Cons.IH [of ?b] obtain a' where "fold (\<lambda>x old. Some (legacy_bump x old)) es (Some ?b) = Some a'"
    "la_count a' = la_count ?b + length es" "la_last a' = Max (insert (la_last ?b) (si_at ` set es))"
    "set (la_from a') = set (la_from ?b) \<union> (si_country ` set es - {[]})" by blast
  moreover have "Max (insert (max (la_last a) (si_at e)) (si_at ` set es)) =
      Max (insert (la_last a) (si_at ` set (e # es)))"
    by (cases "es = []") (simp_all add: Max_insert max.assoc)
  ultimately show ?case using b by auto
qed

lemma legacy_agg_None_iff:
  "map_of (legacy_agg es) (usr, app) = None \<longleftrightarrow> legacy_events es usr app = []"
  by (simp add: legacy_agg_def legacy_step_agg map_of_fold_agg legacy_events_def fold_Some_None_iff)

lemma legacy_agg_entry:
  assumes "map_of (legacy_agg es) (usr, app) = Some a"
  shows "la_count a = length (legacy_events es usr app) \<and>
    la_last a = Max (insert 0 (si_at ` set (legacy_events es usr app)))"
proof -
  let ?evs = "legacy_events es usr app"
  have f: "fold (\<lambda>x old. Some (legacy_bump x old)) ?evs None = Some a"
    using assms by (simp add: legacy_agg_def legacy_step_agg map_of_fold_agg legacy_events_def)
  then obtain e rest where evs: "?evs = e # rest" by (cases ?evs) auto
  let ?z = "\<lparr>la_count = 0, la_last = 0, la_from = []\<rparr>"
  have "legacy_bump e None = legacy_bump e (Some ?z)" by (simp add: legacy_bump_def)
  then have "fold (\<lambda>x old. Some (legacy_bump x old)) ?evs (Some ?z) = Some a"
    using f by (simp add: evs)
  with fold_legacy_bump [of ?evs ?z] show ?thesis by auto
qed

lemma one_factor_step_agg:
  "one_factor_step admins = agg_step
     (\<lambda>e. si_success e \<and> si_single_factor e \<and> map_of admins (to_lower (si_user e)) \<noteq> None)
     (\<lambda>e. to_lower (si_user e)) one_factor_bump"
  by (auto simp: one_factor_step_def agg_step_def fun_eq_iff)

lemma fold_one_factor_bump:
  "\<exists>l'. fold (\<lambda>x old. Some (one_factor_bump x old)) es (Some (n, l)) = Some (n + length es, l')"
proof (induction es arbitrary: n l)
  case (Cons e es)
  define m where "m = (if si_at e > l then si_at e else l)"
  have "one_factor_bump e (Some (n, l)) = (Suc n, m)"
    by (simp add: one_factor_bump_def m_def)
  with Cons.IH [of "Suc n" m] show ?case by simp
qed simp

definition is_admin_email :: "user list \<Rightarrow> string \<Rightarrow> bool" where
  "is_admin_email us usr \<longleftrightarrow> (\<exists>u \<in> set us. u_is_admin u \<and> to_lower (u_email u) = usr)"

lemma admin_map_lookup: "map_of (admin_map us) usr \<noteq> None \<longleftrightarrow> is_admin_email us usr"
proof -
  have "map_of (fold (\<lambda>u m. if u_is_admin u then amap_put (to_lower (u_email u)) (u_admin_roles u) m else m) us m) usr \<noteq> None
      \<longleftrightarrow> is_admin_email us usr \<or> map_of m usr \<noteq> None" for m
    by (induction us arbitrary: m) (auto simp: is_admin_email_def)
  from this [of "[]"] show ?thesis by (simp add: admin_map_def)
qed

definition one_factor_events :: "tenant_state \<Rightarrow> string \<Rightarrow> sign_in list" where
  "one_factor_events s usr = filter (\<lambda>e. si_success e \<and> si_single_factor e \<and>
     to_lower (si_user e) = usr \<and> is_admin_email (ts_users s) usr) (ts_sign_ins s)"

section \<open>Counting findings\<close>

definition raised :: "tenant_state \<Rightarrow> (finding \<Rightarrow> bool) \<Rightarrow> nat" where
  "raised s P = length (filter P (Evaluate s))"

definition about :: "string \<Rightarrow> (string \<times> jval) list \<Rightarrow> finding \<Rightarrow> bool" where
  "about check kvs f \<longleftrightarrow> f_check f = check \<and> list_all (\<lambda>(k, v). ev_get f k = Some v) kvs"

lemma filter_empty_by_check:
  "(\<And>f. f \<in> set fs \<Longrightarrow> f_check f = c') \<Longrightarrow> c \<noteq> c' \<Longrightarrow> filter (about c kvs) fs = []"
  by (auto simp: filter_empty_conv about_def)

lemma AdminMFA_id: "f \<in> set (checkAdminMFA t s) \<Longrightarrow> f_check f = ''tenant.admin-mfa''"
  by (auto simp: checkAdminMFA_def split: if_splits)

lemma UserMFA_id: "f \<in> set (checkUserMFA t s) \<Longrightarrow> f_check f = ''tenant.user-mfa''"
  by (auto simp: checkUserMFA_def  Let_def split: if_splits)

lemma LegacyAuth_id: "f \<in> set (checkLegacyAuth t s) \<Longrightarrow> f_check f = ''tenant.legacy-auth''"
  by (auto simp: checkLegacyAuth_def  Let_def split: if_splits)

lemma OAuth_id: "f \<in> set (checkOAuth t s) \<Longrightarrow> f_check f = ''tenant.risky-oauth''"
  by (auto simp: checkOAuth_def split: if_splits)

lemma AdminSprawl_id: "f \<in> set (checkAdminSprawl t s) \<Longrightarrow> f_check f = ''tenant.admin-sprawl''"
  by (auto simp: checkAdminSprawl_def  Let_def split: if_splits)

lemma MailForward_id: "f \<in> set (checkMailForward t s) \<Longrightarrow> f_check f = ''tenant.mail-forward''"
  by (auto simp: checkMailForward_def split: if_splits)

lemma Sharing_id: "f \<in> set (checkSharing t s) \<Longrightarrow> f_check f = ''tenant.external-sharing''"
  by (auto simp: checkSharing_def  Let_def split: if_splits)

lemma EmailAuth_id: "f \<in> set (checkEmailAuth t s) \<Longrightarrow> f_check f = ''tenant.email-auth''"
  by (auto simp: checkEmailAuth_def split: if_splits)

lemma ConditionalAccess_id: "f \<in> set (checkConditionalAccess t s) \<Longrightarrow> f_check f = ''tenant.no-conditional-access''"
  by (auto simp: checkConditionalAccess_def  Let_def split: if_splits)

lemma InactiveUsers_id: "f \<in> set (checkInactiveUsers t s) \<Longrightarrow> f_check f = ''tenant.inactive-user''"
  by (auto simp: checkInactiveUsers_def  Let_def split: if_splits)

lemma Notes_id: "f \<in> set (notesToFindings t s) \<Longrightarrow> f_check f = ''tenant.manual-review''"
  by (auto simp: notesToFindings_def)

lemmas config_check_ids = AdminMFA_id UserMFA_id LegacyAuth_id OAuth_id AdminSprawl_id MailForward_id Sharing_id EmailAuth_id ConditionalAccess_id InactiveUsers_id Notes_id

lemma LegacyAuthSuccess_id:
  "f \<in> set (checkLegacyAuthSuccess t s) \<Longrightarrow> f_check f = ''tenant.signin-legacy-auth''"
  by (auto simp: checkLegacyAuthSuccess_def Let_def)

lemma AdminSingleFactor_id:
  "f \<in> set (checkAdminSingleFactor t s) \<Longrightarrow> f_check f = ''tenant.signin-admin-1fa''"
  by (auto simp: checkAdminSingleFactor_def Let_def split: if_splits)

lemma CountryHop_id:
  "f \<in> set (checkCountryHop t s) \<Longrightarrow>
     f_check f = ''tenant.signin-country-hop'' \<or> f_check f = ''tenant.signin-suspicious''"
  by (auto simp: checkCountryHop_def Let_def
      split: option.splits)

lemma SprayLanded_id: "f \<in> set (checkSprayLanded t s) \<Longrightarrow> f_check f = ''tenant.signin-spray''"
  by (auto simp: checkSprayLanded_def Let_def split: option.splits)

lemma filter_Evaluate_sign_in:
  assumes "has_prefix c ''tenant.signin-''"
  shows "filter (about c kvs) (Evaluate s) =
    filter (about c kvs) (checkSignIns (Canonical (ts_provider s) (ts_domain s)) s)"
proof -
  let ?t = "Canonical (ts_provider s) (ts_domain s)"
  have none: "filter (about c kvs) fs = []"
    if "\<And>f. f \<in> set fs \<Longrightarrow> f_check f = c'" "\<not> has_prefix c' ''tenant.signin-''" for fs c'
    using that assms by (intro filter_empty_by_check [of _ c']) auto
  show ?thesis
    by (simp add: Evaluate_def Let_def
        none [OF config_check_ids(1)] none [OF config_check_ids(2)] none [OF config_check_ids(3)]
        none [OF config_check_ids(4)] none [OF config_check_ids(5)] none [OF config_check_ids(6)]
        none [OF config_check_ids(7)] none [OF config_check_ids(8)] none [OF config_check_ids(9)]
        none [OF config_check_ids(10)] none [OF config_check_ids(11)])
qed

lemma length_filter_sortFindings:
  "length (filter P (sortFindings fs)) = length (filter P fs)"
  by (simp add: sortFindings_def filter_sort)

lemma filter_concat_amap:
  assumes "amap_inv m" "\<And>k' v f. f \<in> set (g (k', v)) \<Longrightarrow> P f \<Longrightarrow> k' = k"
  shows "filter P (concat (map g m)) = (case map_of m k of None \<Rightarrow> [] | Some v \<Rightarrow> filter P (g (k, v)))"
  using assms(1)
proof (induction m)
  case (Cons kv m)
  obtain k' v where kv: "kv = (k', v)" by (cases kv)
  show ?case
  proof (cases "k' = k")
    case True
    with Cons.prems have "map_of m k = None" by (simp add: kv map_of_eq_None_iff)
    with True Cons show ?thesis by (simp add: kv)
  next
    case False
    with assms(2) have "filter P (g kv) = []" by (auto simp: kv filter_empty_conv)
    with False Cons show ?thesis by (simp add: kv)
  qed
qed simp

lemma filter_map_amap:
  assumes "amap_inv m" "\<And>k' v. P (g (k', v)) \<Longrightarrow> k' = k"
  shows "filter P (map g m) = (case map_of m k of None \<Rightarrow> [] | Some v \<Rightarrow> filter P [g (k, v)])"
  using filter_concat_amap [of m "\<lambda>x. [g x]" P k] assms by (simp add: concat_map_singleton)

lemma other_sign_in_checks:
  "c \<noteq> ''tenant.signin-legacy-auth'' \<Longrightarrow> filter (about c kvs) (checkLegacyAuthSuccess t s) = []"
  "c \<noteq> ''tenant.signin-admin-1fa'' \<Longrightarrow> filter (about c kvs) (checkAdminSingleFactor t s) = []"
  "c \<noteq> ''tenant.signin-country-hop'' \<Longrightarrow> c \<noteq> ''tenant.signin-suspicious'' \<Longrightarrow>
     filter (about c kvs) (checkCountryHop t s) = []"
  "c \<noteq> ''tenant.signin-spray'' \<Longrightarrow> filter (about c kvs) (checkSprayLanded t s) = []"
  by (auto simp: filter_empty_conv about_def
      dest: LegacyAuthSuccess_id AdminSingleFactor_id CountryHop_id SprayLanded_id)

lemma raised_sign_in:
  "raised s (about ''tenant.signin-legacy-auth'' kvs) =
     (if ts_assessed s AreaSignIn
      then length (filter (about ''tenant.signin-legacy-auth'' kvs)
             (map (legacy_finding (Canonical (ts_provider s) (ts_domain s)) s) (legacy_agg (ts_sign_ins s))))
      else 0)"
  "raised s (about ''tenant.signin-admin-1fa'' kvs) =
     (if ts_assessed s AreaSignIn \<and> ts_assessed s AreaAdminRoles
      then length (filter (about ''tenant.signin-admin-1fa'' kvs)
             (map (one_factor_finding (Canonical (ts_provider s) (ts_domain s)) s (admin_map (ts_users s)))
                (fold (one_factor_step (admin_map (ts_users s))) (ts_sign_ins s) [])))
      else 0)"
  "c \<in> {''tenant.signin-country-hop'', ''tenant.signin-suspicious''} \<Longrightarrow>
     raised s (about c kvs) =
     (if ts_assessed s AreaSignIn
      then length (filter (about c kvs)
             (concat (map (hop_user (Canonical (ts_provider s) (ts_domain s)) s) (by_user (ts_sign_ins s)))))
      else 0)"
  "raised s (about ''tenant.signin-spray'' kvs) =
     (if ts_assessed s AreaSignIn
      then length (filter (about ''tenant.signin-spray'' kvs)
             (concat (map (spray_ip (Canonical (ts_provider s) (ts_domain s)) s) (by_ip (ts_sign_ins s)))))
      else 0)"
  by (auto simp: raised_def filter_Evaluate_sign_in checkSignIns_def other_sign_in_checks
      checkLegacyAuthSuccess_def [symmetric])
    (auto simp: checkLegacyAuthSuccess_def checkAdminSingleFactor_def checkCountryHop_def
      checkSprayLanded_def Let_def length_filter_sortFindings)

end
