(* ===== verification/SignIn_Props.thy ===== *)
theory SignIn_Props
  imports SignIn_Spec
begin

text \<open>
  The properties of Sign-in Watch: for every account, client or address, the number of
  findings \<open>Evaluate\<close> raises, stated on the raw sign-in log of the snapshot.
\<close>

lemma of_bool_case_option:
  "length (case m of None \<Rightarrow> [] | Some v \<Rightarrow> filter P [g v]) =
     (if \<exists>v. m = Some v \<and> P (g v) then 1 else 0)"
  by (auto split: option.splits)

lemma amap_inv_by_user [simp]: "amap_inv (by_user es)"
  by (simp add: by_user_def)

lemma amap_inv_by_ip [simp]: "amap_inv (by_ip es)"
  by (simp add: by_ip_def)

definition user_successes :: "sign_in list \<Rightarrow> string \<Rightarrow> sign_in list" where
  "user_successes es usr = filter (\<lambda>e. si_success e \<and> to_lower (si_user e) = usr) es"

definition ip_events :: "sign_in list \<Rightarrow> string \<Rightarrow> sign_in list" where
  "ip_events es ip = filter (\<lambda>e. si_ip e \<noteq> [] \<and> si_ip e = ip) es"

lemma map_of_by_user:
  "map_of (by_user es) usr =
     (if user_successes es usr = [] then None else Some (user_successes es usr))"
  by (auto simp: by_user_def map_of_group_by user_successes_def filter_empty_conv conj_commute)

lemma map_of_by_ip:
  "map_of (by_ip es) ip = (if ip_events es ip = [] then None else Some (ip_events es ip))"
  by (auto simp: by_ip_def map_of_group_by ip_events_def filter_empty_conv conj_commute)

text \<open>Legacy authentication that succeeded is reported exactly once per account and client,
  with the number of such sign-ins and the time of the latest; and not at all when there was none
  or the log was not read.\<close>

theorem legacy_sign_in_reported:
  "let evs = legacy_events (ts_sign_ins s) usr app;
       seen = (if ts_assessed s AreaSignIn \<and> evs \<noteq> [] then 1 else 0)
   in raised s (about ''tenant.signin-legacy-auth'' [(''user'', JStr usr), (''client'', JStr app)]) = seen \<and>
      raised s (about ''tenant.signin-legacy-auth'' [(''user'', JStr usr), (''client'', JStr app),
        (''sign_ins'', JInt (int (length evs))),
        (''last_seen'', JStr (rfc3339 (Max (insert 0 (si_at ` set evs)))))]) = seen"
proof -
  let ?g = "legacy_finding (Canonical (ts_provider s) (ts_domain s)) s"
  let ?m = "legacy_agg (ts_sign_ins s)"
  have one: "filter (about ''tenant.signin-legacy-auth'' ((''user'', JStr usr) # (''client'', JStr app) # kvs)) (map ?g ?m) =
      (case map_of ?m (usr, app) of None \<Rightarrow> []
       | Some v \<Rightarrow> filter (about ''tenant.signin-legacy-auth'' ((''user'', JStr usr) # (''client'', JStr app) # kvs))
           [?g ((usr, app), v)])" for kvs
    by (rule filter_map_amap) (auto simp: about_def Let_def)
  show ?thesis
  proof (cases "map_of ?m (usr, app)")
    case None
    then have "legacy_events (ts_sign_ins s) usr app = []" by (simp only: legacy_agg_None_iff)
    then show ?thesis unfolding Let_def raised_sign_in one None by simp
  next
    case (Some a)
    then have "legacy_events (ts_sign_ins s) usr app \<noteq> []"
      using legacy_agg_None_iff [of "ts_sign_ins s" usr app] by auto
    with legacy_agg_entry [OF Some] Some show ?thesis
      by (simp add: Let_def raised_sign_in one about_def)
  qed
qed

text \<open>C6. An administrator's single-factor sign-ins are reported exactly once per account, with
  their number, provided both the sign-in log and the administrator roles were read.\<close>

theorem admin_single_factor_reported:
  "let evs = one_factor_events s usr;
       seen = (if ts_assessed s AreaSignIn \<and> ts_assessed s AreaAdminRoles \<and> evs \<noteq> [] then 1 else 0)
   in raised s (about ''tenant.signin-admin-1fa'' [(''user'', JStr usr)]) = seen \<and>
      raised s (about ''tenant.signin-admin-1fa'' [(''user'', JStr usr),
        (''sign_ins'', JInt (int (length evs)))]) = seen"
proof -
  let ?adm = "admin_map (ts_users s)"
  let ?m = "fold (one_factor_step ?adm) (ts_sign_ins s) []"
  let ?evs = "one_factor_events s usr"
  have evs: "filter (\<lambda>e. (si_success e \<and> si_single_factor e \<and> map_of ?adm (to_lower (si_user e)) \<noteq> None) \<and>
      to_lower (si_user e) = usr) (ts_sign_ins s) = ?evs"
    unfolding one_factor_events_def using admin_map_lookup by (intro filter_cong) blast+
  have inv: "amap_inv ?m" unfolding one_factor_step_agg by simp
  have m: "map_of ?m usr = fold (\<lambda>x old. Some (one_factor_bump x old)) ?evs None"
    unfolding one_factor_step_agg map_of_fold_agg evs by simp
  have none: "map_of ?m usr = None \<longleftrightarrow> ?evs = []" unfolding m by (rule fold_Some_None_iff)
  have some: "\<exists>l. map_of ?m usr = Some (length ?evs, l)" if "?evs \<noteq> []"
  proof -
    from that obtain e es where e: "?evs = e # es" by (cases ?evs) auto
    obtain l where "one_factor_bump e None = (1, l)" by (auto simp: one_factor_bump_def)
    then show ?thesis using fold_one_factor_bump [of es 1 l] unfolding m e by simp
  qed
  let ?g = "one_factor_finding (Canonical (ts_provider s) (ts_domain s)) s ?adm"
  have one: "filter (about ''tenant.signin-admin-1fa'' ((''user'', JStr usr) # kvs)) (map ?g ?m) =
      (case map_of ?m usr of None \<Rightarrow> []
       | Some v \<Rightarrow> filter (about ''tenant.signin-admin-1fa'' ((''user'', JStr usr) # kvs)) [?g (usr, v)])" for kvs
    by (rule filter_map_amap [OF inv]) (auto simp: about_def Let_def)
  show ?thesis
    unfolding Let_def raised_sign_in one
    using none some by (cases "?evs = []") (auto simp: about_def Let_def)
qed

lemma country_hop_count:
  "raised s (about ''tenant.signin-country-hop'' [(''user'', JStr usr)]) =
     (if ts_assessed s AreaSignIn \<and> hop_pair (user_successes (ts_sign_ins s) usr) then 1 else 0)"
proof -
  let ?us = "user_successes (ts_sign_ins s) usr"
  have "hop_pair ?us \<longleftrightarrow> hop_scan None (sort_key si_at ?us) \<noteq> None"
    by (subst hop_scan_iff) (auto intro!: hop_pair_cong)
  moreover have "\<not> hop_pair []" by (simp add: hop_pair_def)
  ultimately show ?thesis
    apply (subst raised_sign_in)
     apply simp
    apply (subst filter_concat_amap [where k = usr])
    by (auto simp: map_of_by_user about_def Let_def
        split: option.splits)
qed

text \<open>C4. Two countries: an account gets exactly one country-hop finding when its successful
  sign-ins contain two from different countries less than an hour apart, and none otherwise. The
  code compares only neighbours in time order; no pair is missed.\<close>

theorem country_hop_reported:
  "raised s (about ''tenant.signin-country-hop'' [(''user'', JStr usr)]) =
     (if ts_assessed s AreaSignIn \<and> hop_pair (user_successes (ts_sign_ins s) usr) then 1 else 0)"
  by (rule country_hop_count)

text \<open>The provider's own verdict: an account gets exactly one suspicious-sign-in finding when one
  of its successful sign-ins without a country was flagged, and none otherwise.\<close>

theorem suspicious_reported:
  "raised s (about ''tenant.signin-suspicious'' [(''user'', JStr usr)]) =
     (if ts_assessed s AreaSignIn \<and>
         (\<exists>e \<in> set (user_successes (ts_sign_ins s) usr). si_country e = [] \<and> si_suspicious e) then 1 else 0)"
proof -
  let ?us = "user_successes (ts_sign_ins s) usr"
  let ?P = "\<lambda>e. si_country e = [] \<and> si_suspicious e"
  have "(\<exists>e \<in> set ?us. ?P e) \<longleftrightarrow> List.find ?P (sort_key si_at ?us) \<noteq> None"
    by (auto simp: find_None_iff)
  then show ?thesis
    apply (subst raised_sign_in)
     apply simp
    apply (subst filter_concat_amap [where k = usr])
    by (auto simp: map_of_by_user about_def Let_def
        split: option.splits)
qed

lemma spray_count:
  "raised s (about ''tenant.signin-spray'' [(''ip'', JStr ip)]) =
     (if ts_assessed s AreaSignIn \<and> spray_landed (ip_events (ts_sign_ins s) ip) then 1 else 0)"
proof -
  let ?es = "ip_events (ts_sign_ins s) ip"
  have "spray_landed ?es \<longleftrightarrow> (spray_scan (sort_key si_at ?es) (sort_key si_at ?es) \<noteq> None)"
    by (subst spray_scan_landed) (auto intro!: spray_landed_perm)
  moreover have "\<not> spray_landed []" by (simp add: spray_landed_def)
  ultimately show ?thesis
    apply (subst raised_sign_in(4))
    apply (subst filter_concat_amap [where k = ip])
    by (auto simp: map_of_by_ip about_def Let_def split: option.splits)
qed

text \<open>C5. Password spray: an address gets exactly one finding when some failure starts an hour with
  at least ten failures over at least five accounts and a sign-in from the address succeeded at or
  after it; an address whose bursts never landed gets none. Stopping at the first burst loses
  nothing.\<close>

theorem spray_reported:
  "raised s (about ''tenant.signin-spray'' [(''ip'', JStr ip)]) =
     (if ts_assessed s AreaSignIn \<and> spray_landed (ip_events (ts_sign_ins s) ip) then 1 else 0)"
  by (rule spray_count)

end
