(* ===== verification/Engine_Props.thy ===== *)
theory Engine_Props
  imports SignIn_Props
begin

text \<open>
  The properties of the check engine as a whole and of the configuration checks: what every
  finding satisfies, and for each check how many findings a snapshot raises.
\<close>

text \<open>C7. No finding of the engine is ever rejected at ingest, and each carries the canonical target
  of the snapshot and the fingerprint of its own check.\<close>

theorem Evaluate_wellformed:
  "list_all (\<lambda>f. ValidateForIngest f = None \<and>
      f_target f = Canonical (ts_provider s) (ts_domain s) \<and>
      (\<exists>d. f_fingerprint f = Fingerprint ModuleID (f_target f) (f_check f) d)) (Evaluate s)"
proof (unfold list_all_iff, intro ballI)
  fix f assume "f \<in> set (Evaluate s)"
  then have e: "emitted (Canonical (ts_provider s) (ts_domain s)) s f" by (rule Evaluate_emitted)
  then have "ValidateForIngest f = None" by (rule emitted_ingest) simp
  with e show "ValidateForIngest f = None \<and> f_target f = Canonical (ts_provider s) (ts_domain s) \<and>
      (\<exists>d. f_fingerprint f = Fingerprint ModuleID (f_target f) (f_check f) d)"
    by (auto simp: emitted_def)
qed

text \<open>C8. An area the provider did not read never produces a finding: every finding's check had all the
  areas it needs assessed, and its severity is one of those documented for the check.\<close>

theorem Evaluate_silent_unless_assessed:
  "list_all (\<lambda>f. list_all (ts_assessed s) (check_areas (f_check f)) \<and>
      f_severity f \<in> set (check_severities (f_check f))) (Evaluate s)"
  by (auto simp: list_all_iff [where xs = "Evaluate s"] emitted_def dest: Evaluate_emitted)

section \<open>Counting the findings of one check\<close>

lemma other_config_checks:
  "c \<noteq> ''tenant.admin-mfa'' \<Longrightarrow> filter (about c kvs) (checkAdminMFA t s) = []"
  "c \<noteq> ''tenant.user-mfa'' \<Longrightarrow> filter (about c kvs) (checkUserMFA t s) = []"
  "c \<noteq> ''tenant.legacy-auth'' \<Longrightarrow> filter (about c kvs) (checkLegacyAuth t s) = []"
  "c \<noteq> ''tenant.risky-oauth'' \<Longrightarrow> filter (about c kvs) (checkOAuth t s) = []"
  "c \<noteq> ''tenant.admin-sprawl'' \<Longrightarrow> filter (about c kvs) (checkAdminSprawl t s) = []"
  "c \<noteq> ''tenant.mail-forward'' \<Longrightarrow> filter (about c kvs) (checkMailForward t s) = []"
  "c \<noteq> ''tenant.external-sharing'' \<Longrightarrow> filter (about c kvs) (checkSharing t s) = []"
  "c \<noteq> ''tenant.email-auth'' \<Longrightarrow> filter (about c kvs) (checkEmailAuth t s) = []"
  "c \<noteq> ''tenant.no-conditional-access'' \<Longrightarrow> filter (about c kvs) (checkConditionalAccess t s) = []"
  "c \<noteq> ''tenant.inactive-user'' \<Longrightarrow> filter (about c kvs) (checkInactiveUsers t s) = []"
  "c \<noteq> ''tenant.manual-review'' \<Longrightarrow> filter (about c kvs) (notesToFindings t s) = []"
  by (blast intro: filter_empty_by_check config_check_ids)+

lemma config_not_sign_in:
  "\<not> has_prefix c ''tenant.signin-'' \<Longrightarrow> filter (about c kvs) (checkSignIns t s) = []"
  by (simp add: checkSignIns_def) (intro impI conjI other_sign_in_checks; force)

lemmas raised_simps = raised_def Evaluate_def Let_def other_config_checks config_not_sign_in

lemma raised_config:
  "raised s (about ''tenant.admin-mfa'' kvs) =
     length (filter (about ''tenant.admin-mfa'' kvs) (checkAdminMFA (Canonical (ts_provider s) (ts_domain s)) s))"
  "raised s (about ''tenant.user-mfa'' kvs) =
     length (filter (about ''tenant.user-mfa'' kvs) (checkUserMFA (Canonical (ts_provider s) (ts_domain s)) s))"
  "raised s (about ''tenant.risky-oauth'' kvs) =
     length (filter (about ''tenant.risky-oauth'' kvs) (checkOAuth (Canonical (ts_provider s) (ts_domain s)) s))"
  "raised s (about ''tenant.admin-sprawl'' kvs) =
     length (filter (about ''tenant.admin-sprawl'' kvs) (checkAdminSprawl (Canonical (ts_provider s) (ts_domain s)) s))"
  "raised s (about ''tenant.email-auth'' kvs) =
     length (filter (about ''tenant.email-auth'' kvs) (checkEmailAuth (Canonical (ts_provider s) (ts_domain s)) s))"
  "raised s (about ''tenant.inactive-user'' kvs) =
     length (filter (about ''tenant.inactive-user'' kvs) (checkInactiveUsers (Canonical (ts_provider s) (ts_domain s)) s))"
  by (simp_all add: raised_simps)

lemma length_filter_map: "length (filter P (map f xs)) = length (filter (\<lambda>x. P (f x)) xs)"
  by (induction xs) auto

lemma list_comp_filter: "[f x. x \<leftarrow> xs, P x] = map f (filter P xs)"
  by (induction xs) auto

lemma admin_mfa_about:
  "about ''tenant.admin-mfa'' [(''user'', JStr e)] (admin_mfa_finding t s u) \<longleftrightarrow> u_email u = e"
  by (simp add: about_def admin_mfa_finding_def)

lemma email_about:
  "about ''tenant.email-auth'' [(''domain'', JStr d)] (email_finding t s a) \<longleftrightarrow> d_domain a = d"
  by (simp add: about_def email_finding_def Let_def split_beta)

lemma oauth_about:
  "about ''tenant.risky-oauth'' [(''app_id'', JStr i), (''consent'', JStr c)] (oauth_finding t s g) \<longleftrightarrow>
     g_app_id g = i \<and> g_consent g = c"
  by (simp add: about_def oauth_finding_def Let_def)

text \<open>Administrators without MFA: one finding for each enabled privileged account without a second
  factor and no other, so that fixing one account removes exactly its finding.\<close>

theorem admin_mfa_reported:
  "raised s (about ''tenant.admin-mfa'' [(''user'', JStr e)]) =
     (if ts_assessed s AreaMFA \<and> ts_assessed s AreaAdminRoles
      then length (filter (\<lambda>u. u_enabled u \<and> u_is_admin u \<and> \<not> u_mfa u \<and> u_email u = e) (ts_users s))
      else 0)"
  by (simp add: raised_config checkAdminMFA_def list_comp_filter length_filter_map admin_mfa_about
      conj_assoc)

text \<open>The MFA coverage gap of standard accounts is one finding that carries the number of enabled
  standard accounts without MFA and the number of all of them; it is absent exactly when no such account
  lacks MFA.\<close>

theorem user_mfa_reported:
  "let standard = filter (\<lambda>u. u_enabled u \<and> \<not> u_is_admin u) (ts_users s);
       missing = filter (\<lambda>u. \<not> u_mfa u) standard;
       gap = (if ts_assessed s AreaMFA \<and> missing \<noteq> [] then 1 else 0)
   in raised s (about ''tenant.user-mfa'' []) = gap \<and>
      raised s (about ''tenant.user-mfa'' [(''missing_count'', JInt (int (length missing))),
        (''user_total'', JInt (int (length standard))),
        (''sample'', JStrs (take 10 (sort (map u_email missing))))]) = gap"
  unfolding Let_def raised_config checkUserMFA_def
  by (auto simp: about_def filter_empty_conv)

text \<open>Third-party applications: one finding for each grant with a risky scope, matched without regard
  to case anywhere in the scope name, rated High exactly for organisation-wide consent.\<close>

theorem risky_oauth_reported:
  "raised s (about ''tenant.risky-oauth'' [(''app_id'', JStr i), (''consent'', JStr c)]) =
     (if ts_assessed s AreaOAuth
      then length (filter (\<lambda>g. g_app_id g = i \<and> g_consent g = c \<and>
         (\<exists>sc \<in> set (g_scopes g). \<exists>r \<in> set riskyOAuthScopes. \<exists>a b. to_lower sc = a @ r @ b)) (ts_grants s))
      else 0) \<and>
   f_severity (oauth_finding t s g) =
     (if to_lower (g_consent g) = ''allprincipals'' then SeverityHigh else SeverityMedium)"
proof
  have risky: "riskyScopes scs \<noteq> [] \<longleftrightarrow>
      (\<exists>sc \<in> set scs. \<exists>r \<in> set riskyOAuthScopes. \<exists>a b. to_lower sc = a @ r @ b)" for scs
    by (auto simp: riskyScopes_def filter_empty_conv list_ex_iff contains_iff)
  show "raised s (about ''tenant.risky-oauth'' [(''app_id'', JStr i), (''consent'', JStr c)]) =
     (if ts_assessed s AreaOAuth
      then length (filter (\<lambda>g. g_app_id g = i \<and> g_consent g = c \<and>
         (\<exists>sc \<in> set (g_scopes g). \<exists>r \<in> set riskyOAuthScopes. \<exists>a b. to_lower sc = a @ r @ b)) (ts_grants s))
      else 0)"
    by (simp add: raised_config checkOAuth_def list_comp_filter length_filter_map oauth_about risky
        conj_commute conj_left_commute)
  have "to_lower ''AllPrincipals'' = ''allprincipals''" by code_simp
  then show "f_severity (oauth_finding t s g) =
     (if to_lower (g_consent g) = ''allprincipals'' then SeverityHigh else SeverityMedium)"
    by (simp add: oauth_finding_def Let_def equal_fold_def)
qed

text \<open>Email spoofing: one Medium finding for each domain without an enforced DMARC policy or without
  SPF; a missing DKIM record alone is never reported.\<close>

theorem email_auth_reported:
  "raised s (about ''tenant.email-auth'' [(''domain'', JStr d)]) =
     (if ts_assessed s AreaEmailAuth
      then length (filter (\<lambda>a. d_domain a = d \<and>
               (if d_spf a then d_dmarc a = [] \<or> d_dmarc a = ''none'' else True)) (ts_domains s))
      else 0)"
proof -
  have "fst (email_problems a) \<noteq> [] \<longleftrightarrow>
      (if d_spf a then d_dmarc a = [] \<or> d_dmarc a = ''none'' else True)" for a
    by (auto simp: email_problems_def Let_def)
  then show ?thesis
    by (simp add: raised_config checkEmailAuth_def list_comp_filter length_filter_map email_about
        conj_commute)
qed

text \<open>Dormant accounts: one finding, carrying the number of enabled accounts whose last known activity
  is more than ninety days before the snapshot; accounts with unknown activity never count, and without a
  snapshot time the check is silent.\<close>

theorem inactive_reported:
  "let stale = filter (\<lambda>u. u_enabled u \<and> u_last_active u \<noteq> 0 \<and>
         90 * day < ts_taken_at s - u_last_active u) (ts_users s);
       n = (if ts_assessed s AreaInactiveUser \<and> ts_taken_at s \<noteq> 0 \<and> stale \<noteq> [] then 1 else 0)
   in raised s (about ''tenant.inactive-user'' []) = n \<and>
      raised s (about ''tenant.inactive-user'' [(''count'', JInt (int (length stale)))]) = n"
proof -
  have "u_last_active u < add_days (ts_taken_at s) (- InactiveDays) \<longleftrightarrow>
      90 * day < ts_taken_at s - u_last_active u" for u :: user
    by (auto simp: add_days_def InactiveDays_def)
  then have "filter (\<lambda>u. u_enabled u \<and> \<not> is_zero (u_last_active u) \<and>
        u_last_active u < add_days (ts_taken_at s) (- InactiveDays)) (ts_users s) =
      filter (\<lambda>u. u_enabled u \<and> u_last_active u \<noteq> 0 \<and> 90 * day < ts_taken_at s - u_last_active u) (ts_users s)"
    by (simp add: is_zero_def)
  then show ?thesis
    unfolding Let_def raised_config checkInactiveUsers_def
    by (auto simp: about_def is_zero_def)
qed

text \<open>Administrator sprawl is reported, once, exactly when more than five enabled accounts hold an
  administrator role.\<close>

theorem admin_sprawl_reported:
  "let n = length (filter (\<lambda>u. u_enabled u \<and> u_is_admin u) (ts_users s))
   in raised s (about ''tenant.admin-sprawl'' [(''admin_count'', JInt (int n))]) =
        (if ts_assessed s AreaAdminRoles \<and> 5 < n then 1 else 0)"
  unfolding Let_def raised_config checkAdminSprawl_def
  by (auto simp: about_def AdminSprawlThreshold_def)

text \<open>The order in which a provider returns the sign-in log does not matter to what is reported about
  an account or an address.\<close>

theorem sign_in_order_irrelevant:
  assumes "mset es = mset (ts_sign_ins s)"
  shows "raised (s\<lparr>ts_sign_ins := es\<rparr>) (about ''tenant.signin-country-hop'' [(''user'', JStr usr)]) =
           raised s (about ''tenant.signin-country-hop'' [(''user'', JStr usr)]) \<and>
         raised (s\<lparr>ts_sign_ins := es\<rparr>) (about ''tenant.signin-spray'' [(''ip'', JStr ip)]) =
           raised s (about ''tenant.signin-spray'' [(''ip'', JStr ip)])"
proof -
  let ?t = "Canonical (ts_provider s) (ts_domain s)"
  have "mset (user_successes es usr) = mset (user_successes (ts_sign_ins s) usr)"
    "mset (ip_events es ip) = mset (ip_events (ts_sign_ins s) ip)"
    using assms by (simp_all add: user_successes_def ip_events_def)
  note m = this
  have "hop_pair (user_successes es usr) = hop_pair (user_successes (ts_sign_ins s) usr)"
    by (rule hop_pair_cong [OF mset_eq_setD [OF m(1)]])
  moreover have "spray_landed (ip_events es ip) = spray_landed (ip_events (ts_sign_ins s) ip)"
    by (rule spray_landed_perm [OF m(2)])
  ultimately show ?thesis by (simp add: country_hop_count spray_count)
qed

definition sample_event :: "string \<Rightarrow> time \<Rightarrow> string \<Rightarrow> sign_in" where
  "sample_event usr at country = \<lparr>si_user = usr, si_at = at, si_success = True, si_country = country,
     si_ip = ''203.0.113.7'', si_client = ''Browser'', si_legacy = False, si_single_factor = False,
     si_suspicious = False, si_failure_code = []\<rparr>"

definition sample_hop :: tenant_state where
  "sample_hop = empty_state\<lparr>ts_provider := ''m365'', ts_domain := ''contoso.example'',
     ts_assessed := (\<lambda>_. True),
     ts_sign_ins := [sample_event ''Ana@contoso.example'' (10 * hour) ''ID'',
       sample_event ''ana@contoso.example'' (10 * hour + 20 * minute) ''VN'']\<rparr>"

theorem sign_in_order_irrelevant_witness:
  "raised (sample_hop\<lparr>ts_sign_ins := rev (ts_sign_ins sample_hop)\<rparr>)
     (about ''tenant.signin-country-hop'' [(''user'', JStr ''ana@contoso.example'')]) = 1"
proof -
  have "mset (rev (ts_sign_ins sample_hop)) = mset (ts_sign_ins sample_hop)" by simp
  from sign_in_order_irrelevant [OF this, of "''ana@contoso.example''" "[]"]
  have "raised (sample_hop\<lparr>ts_sign_ins := rev (ts_sign_ins sample_hop)\<rparr>)
      (about ''tenant.signin-country-hop'' [(''user'', JStr ''ana@contoso.example'')]) =
      raised sample_hop (about ''tenant.signin-country-hop'' [(''user'', JStr ''ana@contoso.example'')])"
    by (rule conjunct1)
  moreover have "user_successes (ts_sign_ins sample_hop) ''ana@contoso.example'' = ts_sign_ins sample_hop"
    by code_simp
  moreover have "hop_pair (ts_sign_ins sample_hop)"
    by (simp add: hop_pair_def sample_hop_def sample_event_def equal_fold_def lower_byte_def
        TravelWindow_def time_consts)
  moreover have "ts_assessed sample_hop AreaSignIn" by (simp add: sample_hop_def)
  ultimately show ?thesis by (simp add: country_hop_count)
qed

end
