(* ===== verification/Base64.thy ===== *)
theory Base64
  imports Prelude
begin

text \<open>
  \<open>base64.RawURLEncoding\<close> of Go's standard library, as license keys and service tokens use
  it: the URL alphabet, no padding. The decoder skips line breaks and ignores the unused low
  bits of the last symbol, as Go's does outside strict mode.
\<close>

definition b64_char :: "nat \<Rightarrow> char" where
  "b64_char n = char_of (if n < 26 then 65 + n else if n < 52 then 71 + n
     else if n < 62 then n - 4 else if n = 62 then 45 else 95)"

definition b64_val :: "char \<Rightarrow> nat option" where
  "b64_val c = (let n = (of_char c :: nat) in
     if 65 \<le> n \<and> n \<le> 90 then Some (n - 65)
     else if 97 \<le> n \<and> n \<le> 122 then Some (n - 71)
     else if 48 \<le> n \<and> n \<le> 57 then Some (n + 4)
     else if n = 45 then Some 62 else if n = 95 then Some 63 else None)"

fun b64_encode :: "string \<Rightarrow> string" where
  "b64_encode [] = []"
| "b64_encode [a] = (let x = of_char a in [b64_char (x div 4), b64_char (x mod 4 * 16)])"
| "b64_encode [a, b] = (let x = of_char a; y = of_char b in
     [b64_char (x div 4), b64_char (x mod 4 * 16 + y div 16), b64_char (y mod 16 * 4)])"
| "b64_encode (a # b # c # rest) = (let x = of_char a; y = of_char b; z = of_char c in
     [b64_char (x div 4), b64_char (x mod 4 * 16 + y div 16),
      b64_char (y mod 16 * 4 + z div 64), b64_char (z mod 64)] @ b64_encode rest)"

fun b64_bytes :: "nat list \<Rightarrow> string option" where
  "b64_bytes [] = Some []"
| "b64_bytes [p] = None"
| "b64_bytes [p, q] = Some [char_of (p * 4 + q div 16)]"
| "b64_bytes [p, q, r] = Some [char_of (p * 4 + q div 16), char_of (q mod 16 * 16 + r div 4)]"
| "b64_bytes (p # q # r # s # rest) =
     map_option (\<lambda>bs. [char_of (p * 4 + q div 16), char_of (q mod 16 * 16 + r div 4),
       char_of (r mod 4 * 64 + s)] @ bs) (b64_bytes rest)"

definition b64_decode :: "string \<Rightarrow> string option" where
  "b64_decode s =
     (case those (map b64_val (filter (\<lambda>c. c \<noteq> CHR 0x0A \<and> c \<noteq> CHR 0x0D) s)) of
        None \<Rightarrow> None | Some vs \<Rightarrow> b64_bytes vs)"

lemma b64_val_char: "n < 64 \<Longrightarrow> b64_val (b64_char n) = Some n"
  by (auto simp: b64_val_def b64_char_def Let_def)

lemma b64_char_range:
  "n < 64 \<Longrightarrow> 45 \<le> (of_char (b64_char n) :: nat) \<and> (of_char (b64_char n) :: nat) \<noteq> 46"
  by (auto simp: b64_char_def)

text \<open>The symbols of an encoding, as numbers.\<close>

fun b64_symbols :: "string \<Rightarrow> nat list" where
  "b64_symbols [] = []"
| "b64_symbols [a] = (let x = of_char a in [x div 4, x mod 4 * 16])"
| "b64_symbols [a, b] = (let x = of_char a; y = of_char b in
     [x div 4, x mod 4 * 16 + y div 16, y mod 16 * 4])"
| "b64_symbols (a # b # c # rest) = (let x = of_char a; y = of_char b; z = of_char c in
     [x div 4, x mod 4 * 16 + y div 16, y mod 16 * 4 + z div 64, z mod 64] @ b64_symbols rest)"

lemma b64_encode_symbols: "b64_encode s = map b64_char (b64_symbols s)"
  by (induction s rule: b64_encode.induct) (simp_all add: Let_def)

lemma of_char_256: "(of_char c :: nat) < 256"
  by (metis of_char_of of_char_mod_256 mod_less_divisor zero_less_numeral)

lemma div_bounds:
  "(of_char a :: nat) div 4 < 64" "(of_char a :: nat) div 16 < 16" "(of_char a :: nat) div 64 < 4"
  using of_char_256 [of a] by (simp_all add: less_mult_imp_div_less)

lemma b64_symbols_bound: "\<forall>n \<in> set (b64_symbols s). n < 64"
proof (induction s rule: b64_symbols.induct)
  case 1
  then show ?case by simp
next
  case (2 a)
  have "of_char a mod 4 < (4 :: nat)" by simp
  then have "of_char a mod 4 * 16 < (64 :: nat)" by linarith
  then show ?case using div_bounds by (simp add: Let_def)
next
  case (3 a b)
  have "of_char a mod 4 < (4 :: nat)" "of_char b mod 16 < (16 :: nat)" by simp_all
  then have "of_char a mod 4 * 16 + of_char b div 16 < (64 :: nat)" "of_char b mod 16 * 4 < (64 :: nat)"
    using div_bounds(2) [of b] by linarith+
  then show ?case using div_bounds by (simp add: Let_def)
next
  case (4 a b c rest)
  have "of_char a mod 4 < (4 :: nat)" "of_char b mod 16 < (16 :: nat)" by simp_all
  then have "of_char a mod 4 * 16 + of_char b div 16 < (64 :: nat)"
    "of_char b mod 16 * 4 + of_char c div 64 < (64 :: nat)"
    using div_bounds(2) [of b] div_bounds(3) [of c] by linarith+
  then show ?case using 4 div_bounds by (simp add: Let_def)
qed

lemma unpack:
  fixes p k m :: nat
  assumes "k < m"
  shows "(p * m + k) div m = p" "(p * m + k) mod m = k"
  using assms by simp_all

lemma octets:
  "of_char a div 4 * 4 + (of_char a mod 4 * 16 + of_char b div 16) div 16 = (of_char a :: nat)"
  "of_char a div 4 * 4 + (of_char a mod 4 * 16) div 16 = (of_char a :: nat)"
  "(of_char a mod 4 * 16 + of_char b div 16) mod 16 * 16 + (of_char b mod 16 * 4 + of_char c div 64) div 4 =
     (of_char b :: nat)"
  "(of_char a mod 4 * 16 + of_char b div 16) mod 16 * 16 + (of_char b mod 16 * 4) div 4 = (of_char b :: nat)"
  "(of_char b mod 16 * 4 + of_char c div 64) mod 4 * 64 + of_char c mod 64 = (of_char c :: nat)"
  by (simp_all only: unpack [OF div_bounds(2)] unpack [OF div_bounds(3)] div_mult_mod_eq
      nonzero_mult_div_cancel_right zero_neq_numeral [symmetric] not_False_eq_True)

lemma b64_bytes_symbols: "b64_bytes (b64_symbols s) = Some s"
  by (induction s rule: b64_symbols.induct)
    (simp_all only: b64_symbols.simps b64_bytes.simps Let_def append_Cons append_Nil octets
      char_of_char option.map)

lemma those_map_Some: "\<forall>x \<in> set xs. f x = Some (g x) \<Longrightarrow> those (map f xs) = Some (map g xs)"
  by (induction xs) auto

lemma b64_encode_chars: "c \<in> set (b64_encode s) \<Longrightarrow> 45 \<le> (of_char c :: nat) \<and> (of_char c :: nat) \<noteq> 46"
  using b64_symbols_bound [of s] by (auto simp: b64_encode_symbols dest!: b64_char_range)

lemma b64_decode_encode: "b64_decode (b64_encode s) = Some s"
proof -
  have "filter (\<lambda>c. c \<noteq> CHR 0x0A \<and> c \<noteq> CHR 0x0D) (b64_encode s) = b64_encode s"
    using b64_encode_chars [of _ s] by (fastforce intro: filter_True)
  moreover have "those (map b64_val (b64_encode s)) = Some (b64_symbols s)"
    using those_map_Some [of "b64_symbols s" "\<lambda>n. b64_val (b64_char n)" id] b64_symbols_bound [of s]
    by (simp add: b64_encode_symbols b64_val_char comp_def)
  ultimately show ?thesis by (simp add: b64_decode_def b64_bytes_symbols)
qed

end
