(* ===== verification/License.thy ===== *)
theory License
  imports Base64 GoTime
begin

text \<open>
  Offline activation (\<open>license/license.go\<close>) and the product's own tier table
  (\<open>tenantwatch/tiers.go\<close>). The Ed25519 operations and the JSON codec of the payload are the
  fields of the argument \<open>lib\<close>; key framing, base64, the order of the checks and the
  fallback rules are the program's and are modelled as written. An expiry date in a notice is
  printed in UTC.
\<close>

section \<open>Tiers\<close>

type_synonym tier = string

definition TierFree :: tier where "TierFree = ''free''"
definition TierPro :: tier where "TierPro = ''pro''"
definition TierTeam :: tier where "TierTeam = ''team''"

record limits =
  l_max_targets :: int
  l_retention_days :: int
  l_channels :: "string list"
  l_multi_user :: bool
  l_custom_interval :: bool
  l_scan_now :: bool

definition TierLimits :: "tier \<Rightarrow> limits option" where
  "TierLimits = map_of
     [(TierFree, \<lparr>l_max_targets = 10, l_retention_days = 7, l_channels = [''webhook''],
        l_multi_user = False, l_custom_interval = False, l_scan_now = False\<rparr>),
      (TierPro, \<lparr>l_max_targets = 100, l_retention_days = 365,
        l_channels = [''webhook'', ''email'', ''slack'', ''telegram''],
        l_multi_user = False, l_custom_interval = True, l_scan_now = True\<rparr>),
      (TierTeam, \<lparr>l_max_targets = 0, l_retention_days = 0,
        l_channels = [''webhook'', ''email'', ''slack'', ''telegram'', ''pagerduty'', ''teams''],
        l_multi_user = True, l_custom_interval = True, l_scan_now = True\<rparr>)]"

text \<open>Go's lookup of a missing key gives the zero value.\<close>

definition zero_limits :: limits where
  "zero_limits = \<lparr>l_max_targets = 0, l_retention_days = 0, l_channels = [],
     l_multi_user = False, l_custom_interval = False, l_scan_now = False\<rparr>"

definition tier_limits :: "tier \<Rightarrow> limits" where
  "tier_limits t = (case TierLimits t of None \<Rightarrow> zero_limits | Some l \<Rightarrow> l)"

definition limitsFor :: "tier \<Rightarrow> limits" where
  "limitsFor t = (case TierLimits t of Some l \<Rightarrow> l | None \<Rightarrow> tier_limits TierFree)"

text \<open>The table of the product (\<open>tenantwatch/tiers.go\<close>).\<close>

definition product_TierLimits :: "tier \<Rightarrow> limits option" where
  "product_TierLimits = map_of
     [(TierFree, \<lparr>l_max_targets = 1, l_retention_days = 30, l_channels = [''webhook'', ''syslog''],
        l_multi_user = False, l_custom_interval = False, l_scan_now = False\<rparr>),
      (TierPro, \<lparr>l_max_targets = 10, l_retention_days = 365,
        l_channels = [''webhook'', ''syslog'', ''email'', ''slack'', ''telegram''],
        l_multi_user = False, l_custom_interval = True, l_scan_now = True\<rparr>),
      (TierTeam, \<lparr>l_max_targets = 0, l_retention_days = 0,
        l_channels = [''webhook'', ''syslog'', ''email'', ''slack'', ''telegram'', ''pagerduty'', ''teams''],
        l_multi_user = True, l_custom_interval = True, l_scan_now = True\<rparr>)]"

definition product_AllowsChannel :: "tier \<Rightarrow> string \<Rightarrow> bool" where
  "product_AllowsChannel t name =
     (let lim = (case product_TierLimits t of
                   Some l \<Rightarrow> l
                 | None \<Rightarrow> (case product_TierLimits TierFree of None \<Rightarrow> zero_limits | Some l \<Rightarrow> l))
      in list_ex (\<lambda>c. c = name) (l_channels lim))"

section \<open>Keys\<close>

record license =
  lic_product :: string
  lic_tier :: tier
  lic_email :: string
  lic_issued_at :: time
  lic_expires_at :: time
  lic_key_id :: string

definition empty_license :: license where
  "empty_license = \<lparr>lic_product = [], lic_tier = [], lic_email = [], lic_issued_at = 0,
     lic_expires_at = 0, lic_key_id = []\<rparr>"

definition key_prefix :: string where "key_prefix = ''SNTL1-''"

definition PublicKeySize :: nat where "PublicKeySize = 32"

text \<open>The library operations: Ed25519 and the JSON codec of a license.\<close>

record license_lib =
  lib_sign :: "string \<Rightarrow> string \<Rightarrow> string"
  lib_verify :: "string \<Rightarrow> string \<Rightarrow> string \<Rightarrow> bool"
  lib_marshal :: "license \<Rightarrow> string option"
  lib_unmarshal :: "string \<Rightarrow> license option"

datatype license_error = ErrMalformed | ErrBadSignature | ErrWrongProduct string | ErrExpired

definition Sign :: "license_lib \<Rightarrow> string \<Rightarrow> license \<Rightarrow> string option" where
  "Sign lib priv lic =
     (if lic_product lic = [] \<or> lic_tier lic = [] then None
      else (case lib_marshal lib lic of
              None \<Rightarrow> None
            | Some payload \<Rightarrow>
                Some (key_prefix @ b64_encode payload @ ''.'' @ b64_encode (lib_sign lib priv payload))))"

text \<open>\<open>SplitN(s, ".", 2)\<close>: the two parts around the first dot, if there is one.\<close>

definition split_dot :: "string \<Rightarrow> (string \<times> string) option" where
  "split_dot s = (case str_index s ''.'' of None \<Rightarrow> None | Some i \<Rightarrow> Some (take i s, drop (Suc i) s))"

definition Verify :: "license_lib \<Rightarrow> string \<Rightarrow> string \<Rightarrow> string \<Rightarrow> time \<Rightarrow> license \<times> license_error option" where
  "Verify lib pub product key now =
     (if \<not> has_prefix key key_prefix then (empty_license, Some ErrMalformed)
      else case split_dot (trim_prefix (trim_space key) key_prefix) of
        None \<Rightarrow> (empty_license, Some ErrMalformed)
      | Some (p0, p1) \<Rightarrow>
          (case b64_decode p0 of
             None \<Rightarrow> (empty_license, Some ErrMalformed)
           | Some payload \<Rightarrow>
               (case b64_decode p1 of
                  None \<Rightarrow> (empty_license, Some ErrMalformed)
                | Some sig \<Rightarrow>
                    if length pub \<noteq> PublicKeySize then (empty_license, Some ErrBadSignature)
                    else if \<not> lib_verify lib pub payload sig then (empty_license, Some ErrBadSignature)
                    else (case lib_unmarshal lib payload of
                            None \<Rightarrow> (empty_license, Some ErrMalformed)
                          | Some lic \<Rightarrow>
                              if lic_product lic \<noteq> product
                              then (empty_license, Some (ErrWrongProduct (lic_product lic)))
                              else if now > lic_expires_at lic then (lic, Some ErrExpired)
                              else (lic, None)))))"

section \<open>Activation\<close>

record activation =
  act_tier :: tier
  act_limits :: limits
  act_license :: "license option"
  act_notice :: string

definition month_name :: "int \<Rightarrow> string" where
  "month_name m = [''Jan'', ''Feb'', ''Mar'', ''Apr'', ''May'', ''Jun'', ''Jul'', ''Aug'', ''Sep'',
     ''Oct'', ''Nov'', ''Dec''] ! nat (m - 1)"

definition short_date :: "time \<Rightarrow> string" where
  "short_date t = (let (y, m, d) = civil (t div day)
     in itoa d @ '' '' @ month_name m @ '' '' @ pad_int 4 y)"

definition free_activation :: "string \<Rightarrow> activation" where
  "free_activation notice =
     \<lparr>act_tier = TierFree, act_limits = tier_limits TierFree, act_license = None, act_notice = notice\<rparr>"

definition Activate :: "license_lib \<Rightarrow> string \<Rightarrow> string \<Rightarrow> string \<Rightarrow> time \<Rightarrow> activation" where
  "Activate lib pub product key now =
     (if length pub \<noteq> PublicKeySize then
        free_activation (if trim_space key \<noteq> [] then
          ''This is the free edition, which cannot activate license keys. '' @
          ''Download the licensed build to use your key '' @ em_dash @ '' your key is fine.'' else [])
      else if trim_space key = [] then free_activation []
      else (case Verify lib pub product key now of
              (lic, None) \<Rightarrow>
                \<lparr>act_tier = lic_tier lic, act_limits = limitsFor (lic_tier lic),
                 act_license = Some lic, act_notice = []\<rparr>
            | (lic, Some ErrExpired) \<Rightarrow>
                free_activation (''License expired on '' @ short_date (lic_expires_at lic) @ '' '' @ em_dash @
                  '' running on free limits. Renew to restore your tier.'')
            | (lic, Some _) \<Rightarrow>
                free_activation (''License key is not valid for this product '' @ em_dash @
                  '' running on free limits.'')))"

definition CanAddTarget :: "activation \<Rightarrow> int \<Rightarrow> bool" where
  "CanAddTarget a current \<longleftrightarrow> l_max_targets (act_limits a) = 0 \<or> current < l_max_targets (act_limits a)"

definition AllowsChannel :: "activation \<Rightarrow> string \<Rightarrow> bool" where
  "AllowsChannel a name = list_ex (\<lambda>c. c = name) (l_channels (act_limits a))"

definition RetentionCutoff :: "activation \<Rightarrow> time \<Rightarrow> time" where
  "RetentionCutoff a now =
     (if l_retention_days (act_limits a) = 0 then 0
      else add_days now (- l_retention_days (act_limits a)))"

section \<open>Lemmas\<close>

lemma Verify_None:
  assumes "Verify lib pub product key now = (lic, None)"
  shows "has_prefix key key_prefix \<and> length pub = PublicKeySize \<and>
    (\<exists>p0 p1 payload sig. split_dot (trim_prefix (trim_space key) key_prefix) = Some (p0, p1) \<and>
       b64_decode p0 = Some payload \<and> b64_decode p1 = Some sig \<and>
       lib_verify lib pub payload sig \<and> lib_unmarshal lib payload = Some lic) \<and>
    lic_product lic = product \<and> now \<le> lic_expires_at lic"
  using assms by (auto simp: Verify_def split: if_splits option.splits prod.splits)

lemma Activate_cases:
  "(\<exists>notice. Activate lib pub product key now = free_activation notice) \<or>
   (\<exists>lic. Verify lib pub product key now = (lic, None) \<and>
      Activate lib pub product key now =
        \<lparr>act_tier = lic_tier lic, act_limits = limitsFor (lic_tier lic),
         act_license = Some lic, act_notice = []\<rparr>)"
proof (cases "length pub \<noteq> PublicKeySize \<or> trim_space key = []")
  case True
  then show ?thesis by (auto simp: Activate_def)
next
  case False
  obtain lic err where v: "Verify lib pub product key now = (lic, err)" by (cases "Verify lib pub product key now")
  show ?thesis
  proof (cases err)
    case None
    then show ?thesis using False v by (simp add: Activate_def)
  next
    case (Some e)
    then show ?thesis using False v by (cases e) (auto simp: Activate_def)
  qed
qed

lemma split_dot_append: "CHR ''.'' \<notin> set a \<Longrightarrow> split_dot (a @ CHR ''.'' # b) = Some (a, b)"
  by (simp add: split_dot_def str_index_char)

lemma b64_no_dot: "CHR ''.'' \<notin> set (b64_encode s)"
  using b64_encode_chars [of "CHR ''.''" s] by auto

lemma b64_no_space: "c \<in> set (b64_encode s) \<Longrightarrow> \<not> is_space c"
  using b64_encode_chars [of c s] by (auto simp: is_space_def Let_def)

lemma Sign_shape:
  assumes "Sign lib priv lic = Some key"
  obtains payload where "lib_marshal lib lic = Some payload"
    "key = key_prefix @ b64_encode payload @ ''.'' @ b64_encode (lib_sign lib priv payload)"
    "trim_space key = key"
proof -
  from assms obtain payload where p: "lib_marshal lib lic = Some payload"
    "key = key_prefix @ b64_encode payload @ ''.'' @ b64_encode (lib_sign lib priv payload)"
    by (auto simp: Sign_def split: if_splits option.splits)
  have "last key \<in> set (''.'' @ b64_encode (lib_sign lib priv payload))"
    unfolding p(2) by (metis append_is_Nil_conv last_appendR last_in_set list.distinct(1))
  then have "\<not> is_space (last key)" using b64_no_space by (auto simp: is_space_def)
  moreover have "key \<noteq> []" "hd key = CHR ''S''" using p(2) by (simp_all add: key_prefix_def)
  moreover have "\<not> is_space (CHR ''S'')" by (simp add: is_space_def)
  ultimately have "trim_space key = key" by (intro trim_space_id) auto
  with that p show thesis by blast
qed

lemma Verify_Sign:
  assumes "Sign lib priv lic = Some key" "length pub = PublicKeySize"
    and "\<And>m. lib_verify lib pub m (lib_sign lib priv m)"
    and "\<And>m. lib_marshal lib lic = Some m \<Longrightarrow> lib_unmarshal lib m = Some lic"
  shows "Verify lib pub product key now =
    (if lic_product lic \<noteq> product then (empty_license, Some (ErrWrongProduct (lic_product lic)))
     else if now > lic_expires_at lic then (lic, Some ErrExpired) else (lic, None))"
proof -
  from assms(1) obtain payload where p: "lib_marshal lib lic = Some payload"
    "key = key_prefix @ b64_encode payload @ ''.'' @ b64_encode (lib_sign lib priv payload)"
    "trim_space key = key" by (rule Sign_shape)
  have "split_dot (trim_prefix (trim_space key) key_prefix) =
      Some (b64_encode payload, b64_encode (lib_sign lib priv payload))"
    unfolding p(3) unfolding p(2) using split_dot_append [OF b64_no_dot] by simp
  moreover have "has_prefix key key_prefix" unfolding p(2) by simp
  ultimately show ?thesis using assms(2,3) assms(4) [OF p(1)]
    by (simp add: Verify_def b64_decode_encode)
qed

lemma limitsFor_table: "\<exists>t. TierLimits t = Some (limitsFor t')"
proof (cases "TierLimits t'")
  case None
  moreover have "TierLimits TierFree = Some (tier_limits TierFree)" by (simp add: TierLimits_def tier_limits_def)
  ultimately show ?thesis by (auto simp: limitsFor_def)
next
  case (Some l)
  then show ?thesis by (auto simp: limitsFor_def)
qed

end
