(* ===== verification/License_Props.thy ===== *)
theory License_Props
  imports License
begin

text \<open>
  The properties of license activation: signed keys activate what they grant, nothing else
  escalates beyond the free tier, and no key takes away what the free tier gives.
\<close>

section \<open>Sample library and license\<close>

definition sample_license :: license where
  "sample_license = \<lparr>lic_product = ''tenantwatch'', lic_tier = TierPro, lic_email = ''a@b.c'',
     lic_issued_at = 1, lic_expires_at = 100, lic_key_id = ''k''\<rparr>"

definition sample_lib :: license_lib where
  "sample_lib = \<lparr>lib_sign = (\<lambda>priv m. priv @ m), lib_verify = (\<lambda>pub m s. s = pub @ m),
     lib_marshal = (\<lambda>lic. Some (lic_product lic)),
     lib_unmarshal = (\<lambda>m. if m = ''tenantwatch'' then Some sample_license else None)\<rparr>"

definition sample_pub :: string where
  "sample_pub = replicate 32 (CHR ''p'')"

definition sample_key :: string where
  "sample_key = key_prefix @ b64_encode ''tenantwatch'' @ ''.'' @ b64_encode (sample_pub @ ''tenantwatch'')"

lemma sample_license_simps [simp]:
  "Sign sample_lib sample_pub sample_license = Some sample_key"
  "length sample_pub = PublicKeySize"
  "lic_product sample_license = ''tenantwatch''" "lic_expires_at sample_license = 100"
  "lic_tier sample_license = TierPro"
  "lib_verify sample_lib sample_pub m (lib_sign sample_lib sample_pub m)"
  "lib_marshal sample_lib sample_license = Some m \<longleftrightarrow> m = ''tenantwatch''"
  "lib_unmarshal sample_lib ''tenantwatch'' = Some sample_license"
  by (auto simp: Sign_def sample_lib_def sample_license_def sample_key_def TierPro_def PublicKeySize_def
      sample_pub_def)

lemma limitsFor_Pro: "limitsFor TierPro = tier_limits TierPro"
  by (simp add: limitsFor_def TierLimits_def tier_limits_def)

section \<open>Properties\<close>

text \<open>
  C21. A key signed by the issuer for this product activates exactly the license it carries
  until it expires: signing, framing, base64, splitting and verifying agree. The hypotheses on
  the library are that Ed25519 accepts its own signatures and that the payload decodes to the
  license it encodes.
\<close>

theorem signed_key_activates:
  assumes "Sign lib priv lic = Some key" "length pub = PublicKeySize"
    and "\<forall>m. lib_verify lib pub m (lib_sign lib priv m)"
    and "\<forall>m. lib_marshal lib lic = Some m \<longrightarrow> lib_unmarshal lib m = Some lic"
    and "now \<le> lic_expires_at lic"
  shows "Activate lib pub (lic_product lic) key now =
    \<lparr>act_tier = lic_tier lic, act_limits = limitsFor (lic_tier lic), act_license = Some lic, act_notice = []\<rparr>"
proof -
  have "trim_space key \<noteq> []" using assms(1) by (rule Sign_shape) (simp add: key_prefix_def)
  moreover have "Verify lib pub (lic_product lic) key now = (lic, None)"
    using Verify_Sign [OF assms(1,2)] assms(3-5) by simp
  ultimately show ?thesis using assms(2) by (simp add: Activate_def)
qed

theorem signed_key_activates_witness:
  "act_tier (Activate sample_lib sample_pub ''tenantwatch'' sample_key 100) = TierPro"
  using signed_key_activates [of sample_lib sample_pub sample_license sample_key sample_pub 100] by simp

text \<open>
  Past its expiry the same key does not stop the product: it runs as the free tier, with
  a notice.
\<close>

theorem expired_key_downgrades:
  assumes "Sign lib priv lic = Some key" "length pub = PublicKeySize"
    and "\<forall>m. lib_verify lib pub m (lib_sign lib priv m)"
    and "\<forall>m. lib_marshal lib lic = Some m \<longrightarrow> lib_unmarshal lib m = Some lic"
    and "lic_expires_at lic < now"
  shows "\<exists>notice. Activate lib pub (lic_product lic) key now = free_activation notice \<and> notice \<noteq> []"
proof -
  have "trim_space key \<noteq> []" using assms(1) by (rule Sign_shape) (simp add: key_prefix_def)
  moreover have "Verify lib pub (lic_product lic) key now = (lic, Some ErrExpired)"
    using Verify_Sign [OF assms(1,2)] assms(3-5) by simp
  ultimately show ?thesis using assms(2)
    by (intro exI [of _ "''License expired on '' @ short_date (lic_expires_at lic) @ '' '' @ em_dash @
      '' running on free limits. Renew to restore your tier.''"]) (simp add: Activate_def)
qed

theorem expired_key_downgrades_witness:
  "act_tier (Activate sample_lib sample_pub ''tenantwatch'' sample_key 101) = TierFree"
  using expired_key_downgrades [of sample_lib sample_pub sample_license sample_key sample_pub 101]
  by (auto simp: free_activation_def)

text \<open>
  Nothing else escalates: a license, a tier other than free or other limits come only
  from a key that carries the prefix, whose payload the issuer's key signed, that decodes to a
  license of this product and has not expired; and then the limits are the tier's.
\<close>

theorem activation_is_signed:
  assumes "Activate lib pub product key now = act"
    and "act_license act \<noteq> None \<or> act_tier act \<noteq> TierFree \<or> act_limits act \<noteq> tier_limits TierFree"
  shows "\<exists>p0 p1 payload sig lic. has_prefix key key_prefix \<and>
    split_dot (trim_prefix (trim_space key) key_prefix) = Some (p0, p1) \<and>
    b64_decode p0 = Some payload \<and> b64_decode p1 = Some sig \<and>
    lib_verify lib pub payload sig \<and> lib_unmarshal lib payload = Some lic \<and>
    lic_product lic = product \<and> now \<le> lic_expires_at lic \<and>
    act_license act = Some lic \<and> act_tier act = lic_tier lic \<and> act_limits act = limitsFor (lic_tier lic)"
proof -
  have "act \<noteq> free_activation notice" for notice using assms(2) by (auto simp: free_activation_def)
  then obtain lic where v: "Verify lib pub product key now = (lic, None)"
    and a: "act = \<lparr>act_tier = lic_tier lic, act_limits = limitsFor (lic_tier lic),
      act_license = Some lic, act_notice = []\<rparr>"
    using Activate_cases [of lib pub product key now] assms(1) by auto
  from Verify_None [OF v] a show ?thesis by auto
qed

theorem activation_is_signed_witness:
  "\<exists>payload sig. lib_verify sample_lib sample_pub payload sig \<and>
     lib_unmarshal sample_lib payload = Some sample_license"
proof -
  define act where "act = Activate sample_lib sample_pub ''tenantwatch'' sample_key 100"
  have act: "act = \<lparr>act_tier = TierPro, act_limits = limitsFor TierPro, act_license = Some sample_license,
      act_notice = []\<rparr>"
  proof -
    have "trim_space sample_key \<noteq> []"
      by (rule Sign_shape [OF sample_license_simps(1)]) (simp add: sample_key_def key_prefix_def)
    moreover have "Verify sample_lib sample_pub ''tenantwatch'' sample_key 100 = (sample_license, None)"
      using Verify_Sign [OF sample_license_simps(1), of sample_pub "''tenantwatch''" 100] by simp
    ultimately show ?thesis by (simp add: act_def Activate_def)
  qed
  show ?thesis using activation_is_signed [OF act_def [symmetric]] act by auto
qed

text \<open>
  Whatever the key, activation never takes away what the free tier gives: its targets
  can be added, its channels used, and findings are kept at least as long.
\<close>

theorem activation_at_least_free:
  assumes "TierLimits TierFree = Some free"
  shows "(\<forall>n. n < l_max_targets free \<longrightarrow> CanAddTarget (Activate lib pub product key now) n) \<and>
    list_all (AllowsChannel (Activate lib pub product key now)) (l_channels free) \<and>
    RetentionCutoff (Activate lib pub product key now) t \<le> max 0 (add_days t (- l_retention_days free))"
proof -
  have free: "free = tier_limits TierFree" using assms by (simp add: tier_limits_def)
  have "\<exists>t'. act_limits (Activate lib pub product key now) = tier_limits t' \<and> TierLimits t' \<noteq> None"
    using Activate_cases [of lib pub product key now]
  proof (elim disjE exE conjE)
    fix notice assume "Activate lib pub product key now = free_activation notice"
    then show ?thesis using assms by (intro exI [of _ TierFree]) (simp add: free_activation_def)
  next
    fix lic assume a: "Activate lib pub product key now =
      \<lparr>act_tier = lic_tier lic, act_limits = limitsFor (lic_tier lic), act_license = Some lic, act_notice = []\<rparr>"
    obtain u where "TierLimits u = Some (limitsFor (lic_tier lic))" using limitsFor_table by blast
    then show ?thesis using a by (intro exI [of _ u]) (simp add: tier_limits_def)
  qed
  then obtain t' where "act_limits (Activate lib pub product key now) = tier_limits t' \<and> TierLimits t' \<noteq> None"
    by blast
  then have lim: "act_limits (Activate lib pub product key now) = tier_limits t'" and "TierLimits t' \<noteq> None"
    by auto
  then have "t' = TierFree \<or> t' = TierPro \<or> t' = TierTeam"
    by (auto simp: TierLimits_def split: if_splits)
  then show ?thesis
    by (auto simp: CanAddTarget_def AllowsChannel_def RetentionCutoff_def lim free tier_limits_def
        TierLimits_def TierFree_def TierPro_def TierTeam_def add_days_def day_def hour_def minute_def second_def)
qed

theorem activation_at_least_free_witness:
  "CanAddTarget (Activate sample_lib sample_pub ''tenantwatch'' ''garbage'' 5) 9"
  using activation_at_least_free [of "tier_limits TierFree" sample_lib sample_pub "''tenantwatch''" "''garbage''" 5 0]
  by (simp add: TierLimits_def tier_limits_def)

end
