(* ===== verification/Dnsauth.thy ===== *)
theory Dnsauth
  imports Tenant_Checks
begin

text \<open>
  Email authentication from DNS (\<open>dnsauth/dnsauth.go\<close>). The resolver is an argument: the
  TXT records at a name, or \<open>None\<close> when the lookup fails.
\<close>

type_synonym resolver = "string \<Rightarrow> string list option"

definition commonDKIMSelectors :: "string list" where
  "commonDKIMSelectors = [''selector1'', ''selector2'', ''google'', ''k1'', ''s1'', ''default'', ''dkim'']"

definition is_spf :: "string \<Rightarrow> bool" where
  "is_spf r \<longleftrightarrow> has_prefix (to_lower (trim_space r)) ''v=spf1''"

definition dmarc_low :: "string \<Rightarrow> string" where
  "dmarc_low r = to_lower (remove_char (CHR '' '') r)"

definition dmarcPolicy :: "string \<Rightarrow> string" where
  "dmarcPolicy low =
     (case List.find (\<lambda>part. has_prefix part ''p='') (split_on (CHR '';'') low) of
        None \<Rightarrow> ''none''
      | Some part \<Rightarrow>
          (let p = trim_prefix part ''p='' in
           if p = ''reject'' then ''reject'' else if p = ''quarantine'' then ''quarantine'' else ''none''))"

definition hasDKIM :: "string list \<Rightarrow> bool" where
  "hasDKIM txt = list_ex (\<lambda>r. let low = to_lower r in
     contains low ''v=dkim1'' \<or> contains low ''k=rsa'' \<or> contains low ''p='') txt"

definition EmailAuth :: "resolver \<Rightarrow> string \<Rightarrow> domain_auth list" where
  "EmailAuth r domain =
     [\<lparr>d_domain = domain,
       d_spf = (case r domain of None \<Rightarrow> False | Some txt \<Rightarrow> list_ex is_spf txt),
       d_dkim = list_ex (\<lambda>sel. case r (sel @ ''._domainkey.'' @ domain) of
                   None \<Rightarrow> False | Some txt \<Rightarrow> hasDKIM txt) commonDKIMSelectors,
       d_dmarc = (case r (''_dmarc.'' @ domain) of
                    None \<Rightarrow> []
                  | Some txt \<Rightarrow>
                      (case List.find (\<lambda>rec. has_prefix (dmarc_low rec) ''v=dmarc1'') txt of
                         None \<Rightarrow> [] | Some rec \<Rightarrow> dmarcPolicy (dmarc_low rec)))\<rparr>]"

lemma dmarcPolicy_values: "dmarcPolicy low \<in> {''none'', ''quarantine'', ''reject''}"
  by (simp add: dmarcPolicy_def Let_def split: option.split)

text \<open>The published policy: the first DMARC record at the name, if the lookup answers.\<close>

definition published_dmarc :: "resolver \<Rightarrow> string \<Rightarrow> string option" where
  "published_dmarc r domain = (case r (''_dmarc.'' @ domain) of None \<Rightarrow> None
     | Some txt \<Rightarrow> map_option (\<lambda>rec. dmarcPolicy (dmarc_low rec))
         (List.find (\<lambda>rec. has_prefix (dmarc_low rec) ''v=dmarc1'') txt))"

text \<open>
  From DNS to the dashboard: a domain whose posture came from its TXT records is reported
  as spoofable exactly when it has no SPF record, or no DMARC record, or a DMARC policy that
  only monitors; whatever the resolver answers for DKIM, and a failed lookup counts as no
  record.
\<close>

theorem dns_posture_reported:
  "checkEmailAuth target (s\<lparr>ts_domains := EmailAuth r domain, ts_assessed := (\<lambda>_. True)\<rparr>) = [] \<longleftrightarrow>
     (\<exists>txt. r domain = Some txt \<and> list_ex is_spf txt) \<and>
     (published_dmarc r domain = Some ''quarantine'' \<or> published_dmarc r domain = Some ''reject'')"
proof -
  have vals: "dmarcPolicy low \<noteq> []" "dmarcPolicy low = ''none'' \<or> dmarcPolicy low = ''quarantine'' \<or> dmarcPolicy low = ''reject''" for low
    using dmarcPolicy_values [of low] by auto
  have "checkEmailAuth target (s\<lparr>ts_domains := EmailAuth r domain, ts_assessed := (\<lambda>_. True)\<rparr>) = [] \<longleftrightarrow>
      fst (email_problems (hd (EmailAuth r domain))) = []"
    by (simp add: checkEmailAuth_def EmailAuth_def)
  also have "\<dots> \<longleftrightarrow> d_spf (hd (EmailAuth r domain)) \<and> d_dmarc (hd (EmailAuth r domain)) \<noteq> [] \<and>
      d_dmarc (hd (EmailAuth r domain)) \<noteq> ''none''"
    by (simp add: email_problems_def Let_def)
  also have "d_spf (hd (EmailAuth r domain)) \<longleftrightarrow> (\<exists>txt. r domain = Some txt \<and> list_ex is_spf txt)"
    by (simp add: EmailAuth_def split: option.split)
  also have "d_dmarc (hd (EmailAuth r domain)) = (case published_dmarc r domain of None \<Rightarrow> [] | Some p \<Rightarrow> p)"
    by (simp add: EmailAuth_def published_dmarc_def split: option.split)
  also have "((case published_dmarc r domain of None \<Rightarrow> [] | Some p \<Rightarrow> p) \<noteq> [] \<and>
      (case published_dmarc r domain of None \<Rightarrow> [] | Some p \<Rightarrow> p) \<noteq> ''none'') \<longleftrightarrow>
      (published_dmarc r domain = Some ''quarantine'' \<or> published_dmarc r domain = Some ''reject'')"
  proof (cases "published_dmarc r domain")
    case None
    then show ?thesis by simp
  next
    case (Some p)
    then have "p = ''none'' \<or> p = ''quarantine'' \<or> p = ''reject''"
      using vals by (auto simp: published_dmarc_def split: option.splits)
    then show ?thesis using Some by auto
  qed
  finally show ?thesis by simp
qed

text \<open>
  The policy read from a record is its first \<open>p=\<close> tag, whatever the case and the blanks
  of the record: a record of the form \<open>v=DMARC1; p=X\<close> followed by anything gives
  \<open>X\<close> when it is reject or quarantine, and none otherwise.
\<close>

theorem dmarc_policy_of_record:
  assumes "CHR '';'' \<notin> set x"
  shows "dmarcPolicy (dmarc_low (''v=DMARC1; p='' @ x @ '';'' @ rest)) =
    (if dmarc_low x = ''reject'' \<or> dmarc_low x = ''quarantine'' then dmarc_low x else ''none'')"
proof -
  have low: "dmarc_low (''v=DMARC1; p='' @ x @ '';'' @ rest) = ''v=dmarc1;p='' @ dmarc_low x @ '';'' @ dmarc_low rest"
  proof -
    have "to_lower (remove_char (CHR '' '') ''v=DMARC1; p='') = ''v=dmarc1;p=''"
      "to_lower (remove_char (CHR '' '') '';'') = '';''"
      by code_simp+
    then show ?thesis unfolding dmarc_low_def remove_char_def filter_append to_lower_append by simp
  qed
  have semi: "CHR '';'' \<notin> set (dmarc_low x)"
  proof -
    have "lower_byte c \<noteq> CHR '';''" if "c \<noteq> CHR '';''" for c
      using lower_byte_eq_non_letter [of "CHR '';''" c] that by simp
    then show ?thesis using assms by (force simp: dmarc_low_def to_lower_def remove_char_def)
  qed
  have split: "split_on (CHR '';'') (a @ CHR '';'' # b) = a # split_on (CHR '';'') b"
    if "CHR '';'' \<notin> set a" for a b
    using that by (induction a) auto
  have "split_on (CHR '';'') (''v=dmarc1;p='' @ dmarc_low x @ '';'' @ dmarc_low rest) =
      ''v=dmarc1'' # (''p='' @ dmarc_low x) # split_on (CHR '';'') (dmarc_low rest)"
    using split [of "''v=dmarc1''" "''p='' @ dmarc_low x @ '';'' @ dmarc_low rest"]
      split [of "''p='' @ dmarc_low x" "dmarc_low rest"] semi by simp
  then show ?thesis unfolding low by (simp add: dmarcPolicy_def Let_def trim_prefix_def)
qed

theorem dmarc_policy_of_record_witness:
  "dmarcPolicy (dmarc_low (''v=DMARC1; p='' @ ''Reject'' @ '';'' @ '' rua=mailto:x'')) = ''reject''"
proof -
  have "dmarc_low ''Reject'' = ''reject''" by code_simp
  then show ?thesis using dmarc_policy_of_record [of "''Reject''" "'' rua=mailto:x''"] by simp
qed

end
