(* ===== verification/Json_Parse.thy ===== *)
theory Json_Parse
  imports Json
begin

text \<open>
  Decoding with Go's \<open>encoding/json\<close> as far as the providers use it: the grammar of a
  document, and \<open>Unmarshal\<close> into a struct as field accessors. A key matches a field without
  regard to ASCII case and a later match overwrites an earlier one; \<open>null\<close> leaves a plain
  field alone; a value of the wrong kind makes the whole call fail. The parser counts down
  from the length of the input: every value consumes at least one byte.
\<close>

section \<open>Documents\<close>

datatype jdoc = DNull | DBool bool | DNum string | DStr string | DArr "jdoc list"
  | DObj "(string \<times> jdoc) list"

definition is_json_space :: "char \<Rightarrow> bool" where
  "is_json_space c \<longleftrightarrow> c \<in> {CHR '' '', CHR 0x09, CHR 0x0A, CHR 0x0D}"

definition skip_space :: "string \<Rightarrow> string" where
  "skip_space s = dropWhile is_json_space s"

definition is_digit :: "char \<Rightarrow> bool" where
  "is_digit c \<longleftrightarrow> (let n = (of_char c :: nat) in 48 \<le> n \<and> n \<le> 57)"

definition is_control :: "char \<Rightarrow> bool" where
  "is_control c \<longleftrightarrow> (of_char c :: nat) < 32"

definition is_ascii :: "char \<Rightarrow> bool" where
  "is_ascii c \<longleftrightarrow> (of_char c :: nat) < 128"

lemma byte_class_code [code]:
  "is_digit (Char b0 b1 b2 b3 b4 b5 b6 b7) \<longleftrightarrow> \<not> b7 \<and> \<not> b6 \<and> b5 \<and> b4 \<and> (\<not> b3 \<or> \<not> b2 \<and> \<not> b1)"
  "is_control (Char b0 b1 b2 b3 b4 b5 b6 b7) \<longleftrightarrow> \<not> b7 \<and> \<not> b6 \<and> \<not> b5"
  "is_ascii (Char b0 b1 b2 b3 b4 b5 b6 b7) \<longleftrightarrow> \<not> b7"
  by (cases b0; cases b1; cases b2; cases b3; cases b4; cases b5; cases b6; cases b7;
      simp add: is_digit_def is_control_def is_ascii_def)+

definition hex_val :: "char \<Rightarrow> nat option" where
  "hex_val c = (let n = (of_char c :: nat) in
     if 48 \<le> n \<and> n \<le> 57 then Some (n - 48)
     else if 97 \<le> n \<and> n \<le> 102 then Some (n - 87)
     else if 65 \<le> n \<and> n \<le> 70 then Some (n - 55) else None)"

fun hex4 :: "string \<Rightarrow> (nat \<times> string) option" where
  "hex4 (a # b # c # d # s) =
     (case (hex_val a, hex_val b, hex_val c, hex_val d) of
        (Some w, Some x, Some y, Some z) \<Rightarrow> Some (((w * 16 + x) * 16 + y) * 16 + z, s)
      | _ \<Rightarrow> None)"
| "hex4 _ = None"

definition encode_rune :: "nat \<Rightarrow> string" where
  "encode_rune r =
     (if r < 128 then [char_of r]
      else if r < 2048 then [char_of (192 + r div 64), char_of (128 + r mod 64)]
      else if r < 65536 then [char_of (224 + r div 4096), char_of (128 + r div 64 mod 64), char_of (128 + r mod 64)]
      else [char_of (240 + r div 262144), char_of (128 + r div 4096 mod 64),
            char_of (128 + r div 64 mod 64), char_of (128 + r mod 64)])"

text \<open>A code unit after its escape, joined with a following low surrogate where it is a high one.\<close>

definition unicode_escape :: "nat \<Rightarrow> string \<Rightarrow> string \<times> string" where
  "unicode_escape u s =
     (if 55296 \<le> u \<and> u < 57344 then
        (case s of
           b # c # s' \<Rightarrow>
             (if b = CHR 0x5C \<and> c = CHR ''u'' then
                (case hex4 s' of
                   Some (v, s'') \<Rightarrow>
                     if u < 56320 \<and> 56320 \<le> v \<and> v < 57344
                     then (encode_rune (65536 + (u - 55296) * 1024 + (v - 56320)), s'')
                     else (encode_rune rune_error, s)
                 | None \<Rightarrow> (encode_rune rune_error, s))
              else (encode_rune rune_error, s))
         | _ \<Rightarrow> (encode_rune rune_error, s))
      else (encode_rune u, s))"

fun simple_escape :: "char \<Rightarrow> char option" where
  "simple_escape c =
     map_of [(CHR 0x22, CHR 0x22), (CHR 0x5C, CHR 0x5C), (CHR ''/'', CHR ''/''), (CHR ''b'', CHR 0x08),
       (CHR ''f'', CHR 0x0C), (CHR ''n'', CHR 0x0A), (CHR ''r'', CHR 0x0D), (CHR ''t'', CHR 0x09)] c"

text \<open>The bytes of a string after the opening quote, with the rest after the closing one.\<close>

fun json_chars :: "nat \<Rightarrow> string \<Rightarrow> string \<Rightarrow> (string \<times> string) option" where
  "json_chars 0 acc s = None"
| "json_chars (Suc n) acc s =
     (case s of
        [] \<Rightarrow> None
      | c # cs \<Rightarrow>
          if c = CHR 0x22 then Some (acc, cs)
          else if c = CHR 0x5C then
            (case cs of
               [] \<Rightarrow> None
             | e # es \<Rightarrow>
                 if e = CHR ''u'' then
                   (case hex4 es of
                      None \<Rightarrow> None
                    | Some (u, rest) \<Rightarrow>
                        (case unicode_escape u rest of (bs, rest') \<Rightarrow> json_chars n (acc @ bs) rest'))
                 else (case simple_escape e of
                         None \<Rightarrow> None
                       | Some b \<Rightarrow> json_chars n (acc @ [b]) es))
          else if is_control c then None
          else if is_ascii c then json_chars n (acc @ [c]) cs
          else (case decode_rune (c # cs) of
                  (r, w) \<Rightarrow> json_chars n (acc @ (if r = rune_error \<and> w = 1 then encode_rune rune_error
                                             else take w (c # cs))) (drop w (c # cs))))"

definition json_text :: "string \<Rightarrow> (string \<times> string) option" where
  "json_text s = json_chars (Suc (length s)) [] s"

text \<open>The literal of a number, if the input starts with one.\<close>

definition digits :: "string \<Rightarrow> (string \<times> string) option" where
  "digits s = (if takeWhile is_digit s = [] then None else Some (takeWhile is_digit s, dropWhile is_digit s))"

definition json_int_part :: "string \<Rightarrow> (string \<times> string) option" where
  "json_int_part s = (case s of
     [] \<Rightarrow> None
   | c # cs \<Rightarrow> if c = CHR ''0'' then Some (''0'', cs) else digits s)"

definition json_frac :: "string \<Rightarrow> (string \<times> string) option" where
  "json_frac s = (case s of
     c # cs \<Rightarrow> if c = CHR ''.'' then map_option (\<lambda>(ds, r). (CHR ''.'' # ds, r)) (digits cs) else Some ([], s)
   | [] \<Rightarrow> Some ([], s))"

definition json_exp :: "string \<Rightarrow> (string \<times> string) option" where
  "json_exp s = (case s of
     c # cs \<Rightarrow>
       if c = CHR ''e'' \<or> c = CHR ''E'' then
         (let (sign, cs') = (case cs of x # xs \<Rightarrow> if x = CHR ''+'' \<or> x = CHR ''-'' then ([x], xs) else ([], cs)
                             | [] \<Rightarrow> ([], cs))
          in map_option (\<lambda>(ds, r). (c # sign @ ds, r)) (digits cs'))
       else Some ([], s)
   | [] \<Rightarrow> Some ([], s))"

definition json_number :: "string \<Rightarrow> (string \<times> string) option" where
  "json_number s =
     (let (neg, s0) = (case s of c # cs \<Rightarrow> if c = CHR ''-'' then (''-'', cs) else ([], s) | [] \<Rightarrow> ([], s)) in
      case json_int_part s0 of None \<Rightarrow> None
      | Some (i, s1) \<Rightarrow> (case json_frac s1 of None \<Rightarrow> None
        | Some (f, s2) \<Rightarrow> (case json_exp s2 of None \<Rightarrow> None
          | Some (e, s3) \<Rightarrow> Some (neg @ i @ f @ e, s3))))"

definition json_scalar :: "string \<Rightarrow> (jdoc \<times> string) option" where
  "json_scalar t =
     (if has_prefix t ''null'' then Some (DNull, drop 4 t)
      else if has_prefix t ''true'' then Some (DBool True, drop 4 t)
      else if has_prefix t ''false'' then Some (DBool False, drop 5 t)
      else (case t of
          [] \<Rightarrow> None
        | c # cs \<Rightarrow>
            if c = CHR 0x22 then map_option (\<lambda>(x, r). (DStr x, r)) (json_text cs)
            else map_option (\<lambda>(x, r). (DNum x, r)) (json_number t)))"

fun json_value :: "nat \<Rightarrow> string \<Rightarrow> (jdoc \<times> string) option"
  and json_elements :: "nat \<Rightarrow> string \<Rightarrow> (jdoc list \<times> string) option"
  and json_members :: "nat \<Rightarrow> string \<Rightarrow> ((string \<times> jdoc) list \<times> string) option" where
  "json_value 0 s = None"
| "json_value (Suc n) s =
     (case skip_space s of
        [] \<Rightarrow> None
      | c # cs \<Rightarrow>
          if c = CHR 0x5B then
            (case skip_space cs of
               [] \<Rightarrow> None
             | d # ds \<Rightarrow> if d = CHR 0x5D then Some (DArr [], ds)
                         else map_option (\<lambda>(xs, r). (DArr xs, r)) (json_elements n (d # ds)))
          else if c = CHR 0x7B then
            (case skip_space cs of
               [] \<Rightarrow> None
             | d # ds \<Rightarrow> if d = CHR 0x7D then Some (DObj [], ds)
                         else map_option (\<lambda>(kvs, r). (DObj kvs, r)) (json_members n (d # ds)))
          else json_scalar (c # cs))"
| "json_elements 0 s = None"
| "json_elements (Suc n) s =
     (case json_value n s of
        None \<Rightarrow> None
      | Some (x, r) \<Rightarrow>
          (case skip_space r of
             c # cs \<Rightarrow>
               if c = CHR 0x5D then Some ([x], cs)
               else if c = CHR '','' then map_option (\<lambda>(xs, q). (x # xs, q)) (json_elements n cs)
               else None
           | [] \<Rightarrow> None))"
| "json_members 0 s = None"
| "json_members (Suc n) s =
     (case skip_space s of
        c # cs \<Rightarrow>
          if c = CHR 0x22 then
            (case json_text cs of
               None \<Rightarrow> None
             | Some (k, r) \<Rightarrow>
                 (case skip_space r of
                    d # ds \<Rightarrow>
                      if d = CHR '':'' then
                        (case json_value n ds of
                           None \<Rightarrow> None
                         | Some (v, q) \<Rightarrow>
                             (case skip_space q of
                                e # es \<Rightarrow>
                                  if e = CHR 0x7D then Some ([(k, v)], es)
                                  else if e = CHR '','' then
                                    map_option (\<lambda>(kvs, p). ((k, v) # kvs, p)) (json_members n es)
                                  else None
                              | [] \<Rightarrow> None))
                      else None
                  | [] \<Rightarrow> None))
          else None
      | [] \<Rightarrow> None)"

definition json_parse :: "string \<Rightarrow> jdoc option" where
  "json_parse s = (case json_value (2 * length s + 2) s of
     None \<Rightarrow> None | Some (v, r) \<Rightarrow> if skip_space r = [] then Some v else None)"

section \<open>Fields of a struct\<close>

type_synonym jobj = "(string \<times> jdoc) list"

text \<open>The values assigned to a field, in the order of the document.\<close>

definition field_values :: "string \<Rightarrow> jobj \<Rightarrow> jdoc list" where
  "field_values name obj = map snd (filter (\<lambda>(k, v). equal_fold k name) obj)"

text \<open>Assigning in order: \<open>None\<close> once a value has the wrong kind.\<close>

definition assign :: "(jdoc \<Rightarrow> 'a option option) \<Rightarrow> 'a \<Rightarrow> jdoc list \<Rightarrow> 'a option" where
  "assign dec zero vs =
     fold (\<lambda>v acc. case acc of None \<Rightarrow> None
             | Some old \<Rightarrow> (case dec v of None \<Rightarrow> None | Some None \<Rightarrow> Some old | Some (Some x) \<Rightarrow> Some x))
       vs (Some zero)"

definition get_string :: "string \<Rightarrow> jobj \<Rightarrow> string option" where
  "get_string name obj = assign (\<lambda>v. case v of DStr s \<Rightarrow> Some (Some s) | DNull \<Rightarrow> Some None | _ \<Rightarrow> None)
     [] (field_values name obj)"

definition get_bool :: "string \<Rightarrow> jobj \<Rightarrow> bool option" where
  "get_bool name obj = assign (\<lambda>v. case v of DBool b \<Rightarrow> Some (Some b) | DNull \<Rightarrow> Some None | _ \<Rightarrow> None)
     False (field_values name obj)"

text \<open>A pointer to a bool: \<open>null\<close> and a missing field leave it nil.\<close>

definition get_bool_ptr :: "string \<Rightarrow> jobj \<Rightarrow> bool option option" where
  "get_bool_ptr name obj =
     assign (\<lambda>v. case v of DBool b \<Rightarrow> Some (Some (Some b)) | DNull \<Rightarrow> Some (Some None) | _ \<Rightarrow> None)
       None (field_values name obj)"

definition digits_val :: "string \<Rightarrow> int" where
  "digits_val ds = foldl (\<lambda>a c. a * 10 + (int (of_char c) - 48)) 0 ds"

definition int_literal :: "string \<Rightarrow> int option" where
  "int_literal s =
     (let (neg, ds) = (case s of c # cs \<Rightarrow> if c = CHR ''-'' then (True, cs) else (False, s) | [] \<Rightarrow> (False, s));
          i = (if neg then - digits_val ds else digits_val ds)
      in if ds \<noteq> [] \<and> list_all is_digit ds \<and> - (2 ^ 63) \<le> i \<and> i < 2 ^ 63 then Some i else None)"

definition get_int :: "string \<Rightarrow> jobj \<Rightarrow> int option" where
  "get_int name obj =
     assign (\<lambda>v. case v of DNum s \<Rightarrow> map_option Some (int_literal s) | DNull \<Rightarrow> Some None | _ \<Rightarrow> None)
       0 (field_values name obj)"

text \<open>A nested struct: a repeated key is decoded into the same struct, so its fields add up.\<close>

definition obj_fields :: "jdoc \<Rightarrow> jobj option" where
  "obj_fields v = (case v of DObj fs \<Rightarrow> Some fs | DNull \<Rightarrow> Some [] | _ \<Rightarrow> None)"

definition get_obj :: "string \<Rightarrow> jobj \<Rightarrow> jobj option" where
  "get_obj name obj = map_option concat (those (map obj_fields (field_values name obj)))"

text \<open>
  A slice of structs. A \<open>null\<close> element is the zero struct; a repeated key decodes into
  the elements the slice already has, so element \<open>i\<close> keeps the fields it does not name.
\<close>

fun merge_elems :: "jobj list \<Rightarrow> jobj list \<Rightarrow> jobj list" where
  "merge_elems old [] = []"
| "merge_elems [] new = new"
| "merge_elems (x # old) (y # new) = (x @ y) # merge_elems old new"

definition get_list :: "(jobj \<Rightarrow> 'a option) \<Rightarrow> string \<Rightarrow> jobj \<Rightarrow> 'a list option" where
  "get_list dec name obj =
     Option.bind
       (fold (\<lambda>v acc. Option.bind acc (\<lambda>old.
                case v of DArr xs \<Rightarrow> map_option (merge_elems old) (those (map obj_fields xs))
                | DNull \<Rightarrow> Some [] | _ \<Rightarrow> None))
          (field_values name obj) (Some []))
       (\<lambda>es. those (map dec es))"

text \<open>\<open>json.Unmarshal(body, &v)\<close> into a fresh struct; \<open>None\<close> is a non-nil error.\<close>

definition Unmarshal :: "(jobj \<Rightarrow> 'a option) \<Rightarrow> string \<Rightarrow> 'a option" where
  "Unmarshal dec body = Option.bind (json_parse body) (\<lambda>v. Option.bind (obj_fields v) dec)"

section \<open>The fuel is enough\<close>

lemma skip_space_length: "length (skip_space s) \<le> length s"
  by (simp add: skip_space_def length_dropWhile_le)

lemma skip_space_Cons: "skip_space s = c # cs \<Longrightarrow> length cs < length s"
  using skip_space_length [of s] by simp

lemma hex4_length: "hex4 s = Some (u, r) \<Longrightarrow> length r < length s"
  by (induction s rule: hex4.induct) (auto split: option.splits)

lemma unicode_escape_length: "unicode_escape u s = (bs, r) \<Longrightarrow> length r \<le> length s"
  by (auto simp: unicode_escape_def split: if_splits list.splits option.splits dest!: hex4_length)

lemma json_chars_length: "json_chars n acc s = Some (x, r) \<Longrightarrow> length r < length s"
proof (induction n arbitrary: acc s)
  case 0
  then show ?case by simp
next
  case (Suc n)
  note IH = Suc.IH and prem = Suc.prems
  obtain c cs where s: "s = c # cs" using prem by (cases s) auto
  consider (quote) "c = CHR 0x22" | (escape) "c = CHR 0x5C" | (plain) "c \<noteq> CHR 0x22" "c \<noteq> CHR 0x5C"
    by blast
  then show ?case
  proof cases
    case quote
    then show ?thesis using prem s by simp
  next
    case escape
    then obtain e es where cs: "cs = e # es" using prem s by (cases cs) auto
    show ?thesis
    proof (cases "e = CHR ''u''")
      case True
      then obtain u rest where h: "hex4 es = Some (u, rest)" using prem s cs escape by (auto split: option.splits)
      obtain bs rest' where ue: "unicode_escape u rest = (bs, rest')" by fastforce
      have "json_chars n (acc @ bs) rest' = Some (x, r)" using prem s cs escape True h ue by simp
      from IH [OF this] show ?thesis using hex4_length [OF h] unicode_escape_length [OF ue] s cs by simp
    next
      case False
      then obtain b where b: "simple_escape e = Some b" using prem s cs escape by (auto split: option.splits)
      then have "json_chars n (acc @ [b]) es = Some (x, r)" using prem s cs escape False by simp
      from IH [OF this] show ?thesis using s cs by simp
    qed
  next
    case plain
    obtain q w where d: "decode_rune (c # cs) = (q, w)" by fastforce
    obtain acc' k where "json_chars n acc' (drop k cs) = Some (x, r)"
    proof (cases "is_ascii c")
      case True
      then have "json_chars n (acc @ [c]) (drop 0 cs) = Some (x, r)"
        using prem s plain by (auto split: if_splits)
      then show thesis by (rule that)
    next
      case False
      then show thesis using prem s plain d that [of _ "w - 1"] decode_rune_width_pos [of "c # cs"]
        by (auto split: if_splits simp: drop_Cons')
    qed
    from IH [OF this] show ?thesis using s by simp
  qed
qed

lemma json_text_length: "json_text s = Some (x, r) \<Longrightarrow> length r < length s"
  unfolding json_text_def by (rule json_chars_length)

lemma digits_length: "digits s = Some (ds, r) \<Longrightarrow> length r < length s"
proof -
  assume "digits s = Some (ds, r)"
  then have "takeWhile is_digit s \<noteq> []" "r = dropWhile is_digit s" by (auto simp: digits_def split: if_splits)
  moreover have "length (takeWhile is_digit s) + length (dropWhile is_digit s) = length s"
    by (metis length_append takeWhile_dropWhile_id)
  ultimately show ?thesis by (cases "takeWhile is_digit s") auto
qed

lemma json_int_part_length: "json_int_part s = Some (x, r) \<Longrightarrow> length r < length s"
  by (cases s) (auto simp: json_int_part_def split: if_splits dest!: digits_length)

lemma json_frac_length: "json_frac s = Some (x, r) \<Longrightarrow> length r \<le> length s"
  by (cases s) (auto simp: json_frac_def split: if_splits dest!: digits_length)

lemma json_exp_length: "json_exp s = Some (x, r) \<Longrightarrow> length r \<le> length s"
  by (cases s)
    (auto simp: json_exp_def Let_def split: list.splits if_splits prod.splits dest!: digits_length)

lemma json_number_length:
  assumes "json_number s = Some (x, r)"
  shows "length r < length s"
proof -
  define s0 where "s0 = (case s of c # cs \<Rightarrow> if c = CHR ''-'' then cs else s | [] \<Rightarrow> s)"
  have "length s0 \<le> length s" by (cases s) (simp_all add: s0_def)
  moreover obtain i s1 where i: "json_int_part s0 = Some (i, s1)"
    using assms by (cases s) (auto simp: json_number_def s0_def split: if_splits option.splits)
  moreover obtain f s2 where f: "json_frac s1 = Some (f, s2)"
    using assms i by (cases s) (auto simp: json_number_def s0_def split: if_splits option.splits)
  moreover obtain e where "json_exp s2 = Some (e, r)"
    using assms i f by (cases s) (auto simp: json_number_def s0_def split: if_splits option.splits)
  ultimately show ?thesis
    using json_int_part_length [OF i] json_frac_length [OF f] json_exp_length by fastforce
qed

lemma skip_space_le: "skip_space s = c # cs \<Longrightarrow> Suc (length cs) \<le> length s"
  using skip_space_Cons by fastforce

lemma json_scalar_length:
  assumes "json_scalar t = Some (v, r)"
  shows "length r < length t"
proof (cases t)
  case Nil
  then show ?thesis using assms by (simp add: json_scalar_def)
next
  case (Cons c cs)
  have "length (drop k t) < length t" if "0 < k" for k using that Cons by simp
  then show ?thesis
    using assms json_text_length [of cs] json_number_length [of t] Cons
    by (fastforce simp: json_scalar_def split: if_splits)
qed

lemma json_value_length_aux:
  assumes "json_value (Suc n) s = Some (v, r)"
    and "\<And>s vs r. json_elements n s = Some (vs, r) \<Longrightarrow> length r < length s"
    and "\<And>s ms r. json_members n s = Some (ms, r) \<Longrightarrow> length r < length s"
  shows "length r < length s"
proof -
  obtain c cs where t: "skip_space s = c # cs" using assms(1) by (auto split: list.splits)
  have cs: "Suc (length cs) \<le> length s" by (rule skip_space_le [OF t])
  show ?thesis
  proof (cases "c = CHR 0x5B \<or> c = CHR 0x7B")
    case True
    then obtain d ds where d: "skip_space cs = d # ds" using assms(1) t by (auto split: list.splits if_splits)
    have "length r < length (d # ds) \<or> r = ds"
      using assms(1) t d True assms(2) [of "d # ds"] assms(3) [of "d # ds"] by (auto split: if_splits)
    then show ?thesis using skip_space_le [OF d] cs by auto
  next
    case False
    then have "json_scalar (c # cs) = Some (v, r)" using assms(1) t by simp
    from json_scalar_length [OF this] show ?thesis using cs by simp
  qed
qed

lemma json_elements_cases:
  assumes "json_elements (Suc n) s = Some (vs, r)"
  obtains x q c cs where "json_value n s = Some (x, q)" "skip_space q = c # cs"
    "c = CHR 0x5D \<and> vs = [x] \<and> r = cs \<or> c = CHR '','' \<and> (\<exists>xs. json_elements n cs = Some (xs, r) \<and> vs = x # xs)"
  using assms by (auto split: option.splits list.splits if_splits)

lemma json_members_cases:
  assumes "json_members (Suc n) s = Some (ms, r)"
  obtains cs k q ds v p e es where "skip_space s = CHR 0x22 # cs" "json_text cs = Some (k, q)"
    "skip_space q = CHR '':'' # ds" "json_value n ds = Some (v, p)" "skip_space p = e # es"
    "e = CHR 0x7D \<and> ms = [(k, v)] \<and> r = es \<or>
     e = CHR '','' \<and> (\<exists>kvs. json_members n es = Some (kvs, r) \<and> ms = (k, v) # kvs)"
proof -
  note m = assms [unfolded json_members.simps]
  obtain cs where cs: "skip_space s = CHR 0x22 # cs" using m by (cases "skip_space s") (auto split: if_splits)
  note m = m [unfolded cs, simplified]
  obtain k q where k: "json_text cs = Some (k, q)"
    using m by (cases "json_text cs") auto
  note m = m [unfolded k, simplified]
  obtain ds where ds: "skip_space q = CHR '':'' # ds" using m by (cases "skip_space q") (auto split: if_splits)
  note m = m [unfolded ds, simplified]
  obtain v p where v: "json_value n ds = Some (v, p)" using m by (cases "json_value n ds") auto
  note m = m [unfolded v, simplified]
  obtain e es where e: "skip_space p = e # es" using m by (cases "skip_space p") auto
  note m = m [unfolded e, simplified]
  show thesis by (rule that [OF cs k ds v e]) (use m in \<open>auto split: if_splits\<close>)
qed

lemma json_lengths:
  "json_value n s = Some (v, r) \<Longrightarrow> length r < length s"
  "json_elements n s = Some (vs, r) \<Longrightarrow> length r < length s"
  "json_members n s = Some (ms, r) \<Longrightarrow> length r < length s"
proof (induction n arbitrary: s v vs ms r)
  case 0
  { case 1 then show ?case by simp next case 2 then show ?case by simp next case 3 then show ?case by simp }
next
  case (Suc n)
  note IH = Suc.IH
  {
    case 1
    then show ?case by (rule json_value_length_aux) (fact IH)+
  next
    case 2
    then obtain x q c cs where "json_value n s = Some (x, q)" and c: "skip_space q = c # cs"
      and "r = cs \<or> (\<exists>xs. json_elements n cs = Some (xs, r))" by (rule json_elements_cases) auto
    then show ?case using IH(1) [of s x q] IH(2) skip_space_le [OF c] by fastforce
  next
    case 3
    then obtain cs k q ds v p e es where c: "skip_space s = CHR 0x22 # cs" "json_text cs = Some (k, q)"
      "skip_space q = CHR '':'' # ds" "json_value n ds = Some (v, p)" "skip_space p = e # es"
      and r: "r = es \<or> (\<exists>kvs. json_members n es = Some (kvs, r))" by (rule json_members_cases) auto
    have "length es < length s"
      using skip_space_le [OF c(1)] json_text_length [OF c(2)] skip_space_le [OF c(3)] IH(1) [OF c(4)]
        skip_space_le [OF c(5)] by simp
    then show ?case using r IH(3) by fastforce
  }
qed

text \<open>
  Past twice the length of the input more fuel changes nothing, so \<open>json_parse\<close> is the
  parser without a bound.
\<close>

lemma json_fuel:
  "2 * length s + 1 \<le> n \<Longrightarrow> 2 * length s + 1 \<le> m \<Longrightarrow> json_value m s = json_value n s"
  "2 * length s + 2 \<le> n \<Longrightarrow> 2 * length s + 2 \<le> m \<Longrightarrow> json_elements m s = json_elements n s"
  "2 * length s + 2 \<le> n \<Longrightarrow> 2 * length s + 2 \<le> m \<Longrightarrow> json_members m s = json_members n s"
proof (induction n arbitrary: s m)
  case 0
  { case 1 then show ?case by simp next case 2 then show ?case by simp next case 3 then show ?case by simp }
next
  case (Suc n)
  note IH = Suc.IH
  {
    case 1
    then obtain m' where m: "m = Suc m'" by (cases m) auto
    have "json_elements m' t = json_elements n t \<and> json_members m' t = json_members n t"
      if "length t < length s" for t
      using that 1 m by (intro conjI IH(2,3)) auto
    moreover have "length (d # ds) < length s" if "skip_space s = c # cs" "skip_space cs = d # ds" for c cs d ds
      using skip_space_le [OF that(1)] skip_space_le [OF that(2)] by simp
    ultimately show ?case by (auto simp: m split: list.split)
  next
    case 2
    then obtain m' where m: "m = Suc m'" by (cases m) auto
    have v: "json_value m' s = json_value n s" using 2 m by (intro IH(1)) auto
    have "json_elements m' cs = json_elements n cs" if "json_value n s = Some (x, q)" "skip_space q = c # cs" for x q c cs
      using json_lengths(1) [OF that(1)] skip_space_le [OF that(2)] 2 m by (intro IH(2)) auto
    then show ?case by (auto simp: m v split: list.split option.split)
  next
    case 3
    then obtain m' where m: "m = Suc m'" by (cases m) auto
    have len: "length ds < length s"
      if "skip_space s = c # cs" "json_text cs = Some (k, q)" "skip_space q = d # ds" for c cs k q d ds
      using skip_space_le [OF that(1)] json_text_length [OF that(2)] skip_space_le [OF that(3)] by simp
    have v: "json_value m' ds = json_value n ds"
      if "skip_space s = c # cs" "json_text cs = Some (k, q)" "skip_space q = d # ds" for c cs k q d ds
      using len [OF that] 3 m by (intro IH(1)) auto
    have "json_members m' es = json_members n es"
      if "skip_space s = c # cs" "json_text cs = Some (k, q)" "skip_space q = d # ds"
        "json_value n ds = Some (v', p)" "skip_space p = e # es" for c cs k q d ds v' p e es
      using len [OF that(1-3)] json_lengths(1) [OF that(4)] skip_space_le [OF that(5)] 3 m
      by (intro IH(3)) auto
    then show ?case by (auto simp: m v split: list.split option.split)
  }
qed

end
