(* ===== verification/Go_Wire.thy ===== *)
theory Go_Wire
  imports GoTime Json_Parse "HOL-Library.Monad_Syntax"
begin

text \<open>
  What the network-facing parts use of Go's \<open>time\<close> and \<open>net/url\<close> packages beside
  JSON: \<open>time.Parse\<close> with the layout \<open>time.RFC3339\<close>, query escaping and
  \<open>url.Values\<close>.
\<close>

section \<open>Parsing an RFC 3339 time\<close>

definition leap_year :: "int \<Rightarrow> bool" where
  "leap_year y \<longleftrightarrow> y mod 4 = 0 \<and> (y mod 100 \<noteq> 0 \<or> y mod 400 = 0)"

definition days_in :: "int \<Rightarrow> int \<Rightarrow> int" where
  "days_in m y = (if m = 2 then if leap_year y then 29 else 28
                  else if m = 4 \<or> m = 6 \<or> m = 9 \<or> m = 11 then 30 else 31)"

text \<open>Days from 1 January of year 1 to a date, in the proleptic Gregorian calendar.\<close>

definition days_before_year :: "int \<Rightarrow> int" where
  "days_before_year y = (let p = y - 1 in 365 * p + p div 4 - p div 100 + p div 400)"

definition days_before_month :: "int \<Rightarrow> int \<Rightarrow> int" where
  "days_before_month m y = sum_list (map (\<lambda>k. days_in k y) [1..m - 1])"

definition date_time :: "int \<Rightarrow> int \<Rightarrow> int \<Rightarrow> int \<Rightarrow> int \<Rightarrow> int \<Rightarrow> int \<Rightarrow> time" where
  "date_time y mo d h mi s ns =
     (days_before_year y + days_before_month mo y + d - 1) * day + h * hour + mi * minute + s * second + ns"

definition digit_val :: "char \<Rightarrow> int" where
  "digit_val c = int (of_char c) - 48"

definition getnum :: "bool \<Rightarrow> string \<Rightarrow> (int \<times> string) option" where
  "getnum fixed s = (case s of
     [] \<Rightarrow> None
   | c # cs \<Rightarrow>
       if \<not> is_digit c then None
       else (case cs of
               d # ds \<Rightarrow> if is_digit d then Some (digit_val c * 10 + digit_val d, ds)
                         else if fixed then None else Some (digit_val c, cs)
             | [] \<Rightarrow> if fixed then None else Some (digit_val c, cs)))"

definition expect :: "char \<Rightarrow> string \<Rightarrow> string option" where
  "expect c s = (case s of x # xs \<Rightarrow> if x = c then Some xs else None | [] \<Rightarrow> None)"

definition within :: "int \<Rightarrow> int \<Rightarrow> int \<Rightarrow> unit option" where
  "within lo hi i = (if lo \<le> i \<and> i \<le> hi then Some () else None)"

text \<open>Fractional seconds may follow although the layout has none; digits past nine are dropped.\<close>

definition parse_fraction :: "string \<Rightarrow> int \<times> string" where
  "parse_fraction s = (case s of
     c # d # cs \<Rightarrow>
       if (c = CHR ''.'' \<or> c = CHR '','') \<and> is_digit d then
         (let ds = take 9 (takeWhile is_digit (d # cs))
          in (digits_val ds * 10 ^ (9 - length ds), dropWhile is_digit (d # cs)))
       else (0, s)
   | _ \<Rightarrow> (0, s))"

text \<open>The zone \<open>Z07:00\<close>: seconds east of UTC and the rest.\<close>

definition parse_zone :: "string \<Rightarrow> (int \<times> string) option" where
  "parse_zone s = (case s of
     [] \<Rightarrow> None
   | c # cs \<Rightarrow>
       if c = CHR ''Z'' then Some (0, cs)
       else if length s < 6 \<or> s ! 3 \<noteq> CHR '':'' then None
       else do {
         (h, _) \<leftarrow> getnum True (take 2 cs);
         (m, _) \<leftarrow> getnum True (take 2 (drop 4 s));
         within 0 24 h;
         within 0 60 m;
         if c = CHR ''+'' then Some (h * 3600 + m * 60, drop 6 s)
         else if c = CHR ''-'' then Some (- (h * 3600 + m * 60), drop 6 s)
         else None })"

definition parse_rfc3339 :: "string \<Rightarrow> time option" where
  "parse_rfc3339 s = (if length s < 4 \<or> \<not> list_all is_digit (take 4 s) then None
     else let y = digits_val (take 4 s) in do {
       s \<leftarrow> expect (CHR ''-'') (drop 4 s);
       (mo, s) \<leftarrow> getnum True s;
       within 1 12 mo;
       s \<leftarrow> expect (CHR ''-'') s;
       (d, s) \<leftarrow> getnum True s;
       s \<leftarrow> expect (CHR ''T'') s;
       (h, s) \<leftarrow> getnum False s;
       within 0 23 h;
       s \<leftarrow> expect (CHR '':'') s;
       (mi, s) \<leftarrow> getnum True s;
       within 0 59 mi;
       s \<leftarrow> expect (CHR '':'') s;
       (sec, s) \<leftarrow> getnum True s;
       within 0 59 sec;
       let (ns, s) = parse_fraction s;
       (z, s) \<leftarrow> parse_zone s;
       (if s \<noteq> [] then None else Some ());
       within 1 (days_in mo y) d;
       Some (date_time y mo d h mi sec ns - z * second) })"

lemma parse_rfc3339_example:
  "parse_rfc3339 ''2024-02-29T14:00:00.5+02:00'' = Some (unix_epoch + 1709208000 * second + 500000000)"
  by code_simp

section \<open>Quoted strings\<close>

text \<open>The verb \<open>%q\<close>; bytes from 128 on are kept, which is exact for printable UTF-8.\<close>

definition quote_byte :: "char \<Rightarrow> string" where
  "quote_byte c =
     (if c = CHR 0x22 \<or> c = CHR 0x5C then [CHR 0x5C, c]
      else if c = CHR 0x07 then [CHR 0x5C, CHR ''a''] else if c = CHR 0x08 then [CHR 0x5C, CHR ''b'']
      else if c = CHR 0x0C then [CHR 0x5C, CHR ''f''] else if c = CHR 0x0A then [CHR 0x5C, CHR ''n'']
      else if c = CHR 0x0D then [CHR 0x5C, CHR ''r''] else if c = CHR 0x09 then [CHR 0x5C, CHR ''t'']
      else if c = CHR 0x0B then [CHR 0x5C, CHR ''v'']
      else if is_control c \<or> c = CHR 0x7F then [CHR 0x5C, CHR ''x'', hex_digit (of_char c div 16), hex_digit (of_char c mod 16)]
      else [c])"

definition go_quote :: "string \<Rightarrow> string" where
  "go_quote s = [CHR 0x22] @ concat (map quote_byte s) @ [CHR 0x22]"

section \<open>Query strings\<close>

definition hex_upper :: "nat \<Rightarrow> char" where
  "hex_upper n = (if n < 10 then char_of (48 + n) else char_of (55 + n))"

definition unreserved :: "char \<Rightarrow> bool" where
  "unreserved c \<longleftrightarrow> (let n = (of_char c :: nat) in
     48 \<le> n \<and> n \<le> 57 \<or> 65 \<le> n \<and> n \<le> 90 \<or> 97 \<le> n \<and> n \<le> 122) \<or> c \<in> set ''-_.~''"

definition query_escape_byte :: "char \<Rightarrow> string" where
  "query_escape_byte c =
     (if unreserved c then [c]
      else if c = CHR '' '' then ''+''
      else CHR ''%'' # [hex_upper (of_char c div 16), hex_upper (of_char c mod 16)])"

definition QueryEscape :: "string \<Rightarrow> string" where
  "QueryEscape s = concat (map query_escape_byte s)"

text \<open>\<open>url.Values.Encode\<close> on a map with one value per key, kept as an association list.\<close>

definition query_encode :: "(string \<times> string) list \<Rightarrow> string" where
  "query_encode kvs =
     join (map (\<lambda>(k, v). QueryEscape k @ ''='' @ QueryEscape v) (sort_key fst kvs)) ''&''"

lemma QueryEscape_example: "QueryEscape ''a b:c'' = ''a+b%3Ac''"
  by code_simp

end
