(* ===== verification/Http.thy ===== *)
theory Http
  imports Go_Wire "HOL-Library.State_Monad"
begin

text \<open>
  Actions on the outside world and what is common to all of them: requests and responses of
  \<open>net/http\<close> as the program builds and reads them, and the rules that bound the requests
  an action makes. An action is a state monad over the world's state; errors are their
  messages.
\<close>

section \<open>Requests and responses\<close>

record http_request =
  hq_method :: string
  hq_url :: string
  hq_headers :: "(string \<times> string) list"
  hq_body :: string

record http_response =
  hr_code :: int
  hr_status :: string
  hr_body :: string

abbreviation ret :: "'a \<Rightarrow> ('w, 'a) state" where
  "ret x \<equiv> State_Monad.return x"

text \<open>The text of an \<open>encoding/json\<close> error is not modelled: a constant stands for it.\<close>

definition json_error :: string where "json_error = ''json''"

section \<open>Requests of an action\<close>

text \<open>
  \<open>lg\<close> reads a log of requests off the world. An action that \<open>asks lg P k\<close> appends at
  most \<open>k\<close> entries to it, each with the property \<open>P\<close>.
\<close>

definition asks :: "('w \<Rightarrow> 'r list) \<Rightarrow> ('r \<Rightarrow> bool) \<Rightarrow> nat \<Rightarrow> ('w, 'a) state \<Rightarrow> bool" where
  "asks lg P k m \<longleftrightarrow>
     (\<forall>w. \<exists>new. lg (snd (run_state m w)) = lg w @ new \<and> length new \<le> k \<and> list_all P new)"

lemma asks_ret [simp]: "asks lg P k (ret x)"
  by (simp add: asks_def)

lemma asks_bind:
  assumes "asks lg P k m" "\<And>x w. fst (run_state m w) = x \<Longrightarrow> asks lg P l (f x)"
  shows "asks lg P (k + l) (State_Monad.bind m f)"
  unfolding asks_def
proof
  fix w
  obtain x w' where m: "run_state m w = (x, w')" by fastforce
  from assms(1) m obtain a where a: "lg w' = lg w @ a" "length a \<le> k" "list_all P a"
    unfolding asks_def by (metis snd_conv)
  from assms(2) [of w x] m obtain b where "lg (snd (run_state (f x) w')) = lg w' @ b" "length b \<le> l" "list_all P b"
    unfolding asks_def by (metis fst_conv)
  with a m show "\<exists>new. lg (snd (run_state (State_Monad.bind m f) w)) = lg w @ new \<and> length new \<le> k + l \<and> list_all P new"
    by (intro exI [of _ "a @ b"]) auto
qed

text \<open>For a goal with a fixed bound: the first action's share is subtracted.\<close>

lemma asks_bind_le:
  "asks lg P k m \<Longrightarrow> k \<le> n \<Longrightarrow> (\<And>x. asks lg P (n - k) (f x)) \<Longrightarrow> asks lg P n (State_Monad.bind m f)"
  using asks_bind [of lg P k m "n - k" f] by simp

lemma asks_bind_result:
  "asks lg P k m \<Longrightarrow> k \<le> n \<Longrightarrow> (\<And>x w. fst (run_state m w) = x \<Longrightarrow> asks lg P (n - k) (f x)) \<Longrightarrow>
     asks lg P n (State_Monad.bind m f)"
  using asks_bind [of lg P k m "n - k" f] by simp

lemma asks_mono: "asks lg P k m \<Longrightarrow> k \<le> l \<Longrightarrow> asks lg P l m"
  unfolding asks_def by (meson order_trans)

lemma asks_from_empty:
  assumes "asks lg P k m" "lg w = []"
  shows "length (lg (snd (run_state m w))) \<le> k \<and> list_all P (lg (snd (run_state m w)))"
  using assms unfolding asks_def by (metis append_Nil)

lemma asks_sum:
  "(\<And>e. asks lg P k (f e)) \<Longrightarrow> (\<And>x. asks lg P k (g x)) \<Longrightarrow> asks lg P k (case r of Inl e \<Rightarrow> f e | Inr x \<Rightarrow> g x)"
  by (cases r) simp_all

lemma asks_option:
  "asks lg P k m \<Longrightarrow> (\<And>x. asks lg P k (f x)) \<Longrightarrow> asks lg P k (case r of None \<Rightarrow> m | Some x \<Rightarrow> f x)"
  by (cases r) simp_all

lemma asks_prod: "(\<And>x y. asks lg P k (f x y)) \<Longrightarrow> asks lg P k (case r of (x, y) \<Rightarrow> f x y)"
  by (cases r) simp

lemma asks_if: "(b \<Longrightarrow> asks lg P k m) \<Longrightarrow> (\<not> b \<Longrightarrow> asks lg P k n) \<Longrightarrow> asks lg P k (if b then m else n)"
  by simp

lemmas asks_cases = asks_sum asks_option asks_prod asks_if

end
