(* ===== verification/Provider_IO.thy ===== *)
theory Provider_IO
  imports Dnsauth Tenant_SignIn Http
begin

text \<open>
  What both cloud providers are built from: the injected functions \<open>Tokener\<close> and
  \<open>Fetcher\<close> as actions on the state \<open>'w\<close> of the outside world (an error is its
  message), a snapshot as one such action, and the rules that bound the requests of an action. Deadlines and cancellation are not modelled.
\<close>

type_synonym 'w tokener = "('w, string + string) state"
type_synonym 'w fetcher = "string \<Rightarrow> string \<Rightarrow> ('w, string + string) state"
type_synonym 'w snapshot = "('w, string + tenant_state) state"

section \<open>Snapshots that name their tenant\<close>

definition blank_state :: "string \<Rightarrow> string \<Rightarrow> tenant_state" where
  "blank_state provider domain = empty_state\<lparr>ts_provider := provider, ts_domain := domain\<rparr>"

definition assess :: "string \<Rightarrow> tenant_state \<Rightarrow> tenant_state" where
  "assess area st = st\<lparr>ts_assessed := (ts_assessed st)(area := True)\<rparr>"

definition add_note :: "string \<Rightarrow> tenant_state \<Rightarrow> tenant_state" where
  "add_note n st = st\<lparr>ts_notes := ts_notes st @ [n]\<rparr>"

text \<open>The email-authentication step both providers take when a resolver is set.\<close>

definition add_dns :: "resolver option \<Rightarrow> string \<Rightarrow> tenant_state \<Rightarrow> tenant_state" where
  "add_dns dns domain st = (case dns of
     None \<Rightarrow> st
   | Some r \<Rightarrow> assess AreaEmailAuth (st\<lparr>ts_domains := EmailAuth r domain\<rparr>))"

text \<open>What \<open>signIns\<close> returns: the events, whether the log was read, and a note.\<close>

type_synonym sign_in_log = "sign_in list \<times> bool \<times> string"

lemma state_update_sels [simp]:
  "ts_assessed (assess a st) = (ts_assessed st)(a := True)" "ts_notes (assess a st) = ts_notes st"
  "ts_provider (assess a st) = ts_provider st" "ts_domain (assess a st) = ts_domain st"
  "ts_users (assess a st) = ts_users st" "ts_sign_ins (assess a st) = ts_sign_ins st"
  "ts_domains (assess a st) = ts_domains st" "ts_grants (assess a st) = ts_grants st"
  "ts_assessed (add_note n st) = ts_assessed st" "ts_notes (add_note n st) = ts_notes st @ [n]"
  "ts_provider (add_note n st) = ts_provider st" "ts_domain (add_note n st) = ts_domain st"
  "ts_users (add_note n st) = ts_users st" "ts_sign_ins (add_note n st) = ts_sign_ins st"
  "ts_domains (add_note n st) = ts_domains st" "ts_grants (add_note n st) = ts_grants st"
  by (simp_all add: assess_def add_note_def)

lemma blank_state_sels [simp]:
  "ts_provider (blank_state p d) = p" "ts_domain (blank_state p d) = d" "ts_notes (blank_state p d) = []"
  "ts_assessed (blank_state p d) = (\<lambda>_. False)" "ts_sign_ins (blank_state p d) = []"
  by (simp_all add: blank_state_def empty_state_def)

lemma add_dns_sels [simp]:
  "ts_provider (add_dns dns d st) = ts_provider st" "ts_domain (add_dns dns d st) = ts_domain st"
  "ts_notes (add_dns dns d st) = ts_notes st" "ts_users (add_dns dns d st) = ts_users st"
  "ts_sign_ins (add_dns dns d st) = ts_sign_ins st" "ts_grants (add_dns dns d st) = ts_grants st"
  "ts_assessed (add_dns dns d st) =
     (ts_assessed st)(AreaEmailAuth := dns \<noteq> None \<or> ts_assessed st AreaEmailAuth)"
  by (auto simp: add_dns_def fun_eq_iff split: option.split)

end
