(* ===== verification/Gws.thy ===== *)
theory Gws
  imports Provider_IO
begin

text \<open>
  The Google Workspace provider (\<open>gws/gws.go\<close>, \<open>gws/signins.go\<close>). The token source,
  the fetcher, the resolver and the clock are the fields of the provider, as in the code. Where the model needs a Go \<open>error\<close> it has the
  error's message.
\<close>

record 'w gws_provider =
  gp_token :: "'w tokener"
  gp_fetch :: "'w fetcher"
  gp_dns :: "resolver option"
  gp_base :: string
  gp_reports :: string
  gp_now :: "('w, time) state"

definition gws_defaultBase :: string where
  "gws_defaultBase = ''https://admin.googleapis.com/admin/directory/v1''"

definition gws_reportsBase :: string where
  "gws_reportsBase = ''https://admin.googleapis.com/admin/reports/v1''"

definition gws_signInPageLimit :: nat where "gws_signInPageLimit = 10"

section \<open>Users\<close>

record gws_user =
  gu_email :: string
  gu_name :: string
  gu_suspended :: bool
  gu_admin :: bool
  gu_delegated :: bool
  gu_enrolled :: bool
  gu_enforced :: bool
  gu_last_login :: string

definition dec_gws_user :: "jobj \<Rightarrow> gws_user option" where
  "dec_gws_user u = do {
     email \<leftarrow> get_string ''primaryEmail'' u;
     name \<leftarrow> get_obj ''name'' u;
     full \<leftarrow> get_string ''fullName'' name;
     suspended \<leftarrow> get_bool ''suspended'' u;
     admin \<leftarrow> get_bool ''isAdmin'' u;
     delegated \<leftarrow> get_bool ''isDelegatedAdmin'' u;
     enrolled \<leftarrow> get_bool ''isEnrolledIn2Sv'' u;
     enforced \<leftarrow> get_bool ''isEnforcedIn2Sv'' u;
     login \<leftarrow> get_string ''lastLoginTime'' u;
     Some \<lparr>gu_email = email, gu_name = full, gu_suspended = suspended, gu_admin = admin,
       gu_delegated = delegated, gu_enrolled = enrolled, gu_enforced = enforced, gu_last_login = login\<rparr> }"

definition gws_last_active :: "string \<Rightarrow> time" where
  "gws_last_active s =
     (if s \<noteq> [] \<and> s \<noteq> ''1970-01-01T00:00:00.000Z''
      then (case parse_rfc3339 s of None \<Rightarrow> 0 | Some t \<Rightarrow> t) else 0)"

definition gws_user_of :: "gws_user \<Rightarrow> user" where
  "gws_user_of u =
     (let admin = gu_admin u \<or> gu_delegated u in
      \<lparr>u_id = [], u_email = gu_email u, u_display = gu_name u, u_enabled = (\<not> gu_suspended u),
       u_is_admin = admin,
       u_admin_roles = (if admin then [if gu_admin u then ''Super admin'' else ''Delegated admin''] else []),
       u_mfa = gu_enrolled u, u_last_active = gws_last_active (gu_last_login u),
       u_ext_forward = False, u_forward_target = []\<rparr>)"

definition gws_users :: "'w gws_provider \<Rightarrow> string \<Rightarrow> string \<Rightarrow> ('w, string + user list) state" where
  "gws_users p tok domain =
     (let base = (if gp_base p = [] then gws_defaultBase else gp_base p);
          url = base @ ''/users?domain='' @ domain @ ''&maxResults=500&projection=full''
      in do {
        r \<leftarrow> gp_fetch p url tok;
        case r of
          Inl e \<Rightarrow> ret (Inl e)
        | Inr body \<Rightarrow>
            (case Unmarshal (get_list dec_gws_user ''users'') body of
               None \<Rightarrow> ret (Inl json_error)
             | Some us \<Rightarrow> ret (Inr (map gws_user_of us))) })"

section \<open>The login audit\<close>

record gws_param =
  gq_name :: string
  gq_value :: string
  gq_bool :: "bool option"

type_synonym gws_event = "string \<times> gws_param list"

record gws_item =
  gi_time :: string
  gi_email :: string
  gi_ip :: string
  gi_events :: "gws_event list"

definition dec_gws_param :: "jobj \<Rightarrow> gws_param option" where
  "dec_gws_param o' = do {
     n \<leftarrow> get_string ''name'' o';
     v \<leftarrow> get_string ''value'' o';
     b \<leftarrow> get_bool_ptr ''boolValue'' o';
     Some \<lparr>gq_name = n, gq_value = v, gq_bool = b\<rparr> }"

definition dec_gws_event :: "jobj \<Rightarrow> gws_event option" where
  "dec_gws_event o' = do {
     n \<leftarrow> get_string ''name'' o';
     ps \<leftarrow> get_list dec_gws_param ''parameters'' o';
     Some (n, ps) }"

definition dec_gws_item :: "jobj \<Rightarrow> gws_item option" where
  "dec_gws_item o' = do {
     i \<leftarrow> get_obj ''id'' o';
     t \<leftarrow> get_string ''time'' i;
     a \<leftarrow> get_obj ''actor'' o';
     e \<leftarrow> get_string ''email'' a;
     ip \<leftarrow> get_string ''ipAddress'' o';
     evs \<leftarrow> get_list dec_gws_event ''events'' o';
     Some \<lparr>gi_time = t, gi_email = e, gi_ip = ip, gi_events = evs\<rparr> }"

definition dec_gws_page :: "jobj \<Rightarrow> (gws_item list \<times> string) option" where
  "dec_gws_page o' = do {
     items \<leftarrow> get_list dec_gws_item ''items'' o';
     next \<leftarrow> get_string ''nextPageToken'' o';
     Some (items, next) }"

definition gws_param_step :: "sign_in \<Rightarrow> gws_param \<Rightarrow> sign_in" where
  "gws_param_step si pr =
     (if gq_name pr = ''is_suspicious'' then si\<lparr>si_suspicious := gq_bool pr = Some True\<rparr>
      else if gq_name pr = ''login_type'' then si\<lparr>si_client := gq_value pr\<rparr>
      else if gq_name pr = ''login_failure_type'' then si\<lparr>si_failure_code := gq_value pr\<rparr>
      else si)"

definition gws_sign_in :: "gws_item \<Rightarrow> time \<Rightarrow> string \<Rightarrow> sign_in" where
  "gws_sign_in it at kind =
     \<lparr>si_user = to_lower (gi_email it), si_at = at, si_success = (kind = ''login_success''),
      si_country = [], si_ip = gi_ip it, si_client = [], si_legacy = False, si_single_factor = False,
      si_suspicious = False, si_failure_code = []\<rparr>"

definition gws_event_sign_ins :: "gws_item \<Rightarrow> time \<Rightarrow> gws_event \<Rightarrow> sign_in list" where
  "gws_event_sign_ins it at ev =
     (let kind = to_lower (fst ev)
      in if kind \<noteq> ''login_success'' \<and> kind \<noteq> ''login_failure'' then []
         else [foldl gws_param_step (gws_sign_in it at kind) (snd ev)])"

definition gws_item_sign_ins :: "gws_item \<Rightarrow> sign_in list" where
  "gws_item_sign_ins it = (case parse_rfc3339 (gi_time it) of
     None \<Rightarrow> [] | Some at \<Rightarrow> concat (map (gws_event_sign_ins it at) (gi_events it)))"

definition gws_unreadable_note :: string where
  "gws_unreadable_note = ''the Google login audit could not be read '' @ em_dash @ '' check that the service account is granted '' @
     ''https://www.googleapis.com/auth/admin.reports.audit.readonly with domain-wide delegation''"

definition gws_unparsed_note :: string where
  "gws_unparsed_note = ''the Google login audit could not be parsed''"

definition gws_truncated_note :: string where
  "gws_truncated_note = ''the Google login audit was larger than one scan reads; the newest '' @
     ''events were assessed and older ones were not''"

definition gws_login_path :: "(string \<times> string) list \<Rightarrow> string" where
  "gws_login_path q = ''/activity/users/all/applications/login?'' @ query_encode q"

definition gws_query :: "string \<Rightarrow> (string \<times> string) list" where
  "gws_query since = [(''startTime'', since), (''maxResults'', ''1000'')]"

definition reportsBase :: "'w gws_provider \<Rightarrow> string" where
  "reportsBase p = (if gp_reports p \<noteq> [] then gp_reports p else gws_reportsBase)"

text \<open>The paging loop, counting down the pages left; \<open>out\<close> is what earlier pages gave.\<close>

fun gws_pages :: "nat \<Rightarrow> 'w gws_provider \<Rightarrow> string \<Rightarrow> string \<Rightarrow> string \<Rightarrow> sign_in list \<Rightarrow>
    ('w, sign_in_log) state" where
  "gws_pages 0 p tok since path out = ret (out, True, gws_truncated_note)"
| "gws_pages (Suc n) p tok since path out = do {
     r \<leftarrow> gp_fetch p (reportsBase p @ path) tok;
     case r of
       Inl e \<Rightarrow> ret ([], False, gws_unreadable_note)
     | Inr body \<Rightarrow>
         (case Unmarshal dec_gws_page body of
            None \<Rightarrow> ret ([], False, gws_unparsed_note)
          | Some (items, next) \<Rightarrow>
              (let out' = out @ concat (map gws_item_sign_ins items)
               in if next = [] then ret (out', True, [])
                  else gws_pages n p tok since
                         (gws_login_path (gws_query since @ [(''pageToken'', next)])) out')) }"

definition gws_signIns :: "'w gws_provider \<Rightarrow> string \<Rightarrow> time \<Rightarrow> ('w, sign_in_log) state" where
  "gws_signIns p tok now =
     (let since = rfc3339 (now - SignInWindow)
      in gws_pages gws_signInPageLimit p tok since (gws_login_path (gws_query since)) [])"

section \<open>The snapshot\<close>

definition gws_login_note :: string where
  "gws_login_note = ''Google does not report a country or the authentication strength per login, so '' @
     ''two-country and admin-without-MFA sign-in checks cannot be assessed on Workspace''"

definition gws_limit_notes :: "string list" where
  "gws_limit_notes =
     [''third-party OAuth token audit needs the Reports API '' @ em_dash @ '' assess manually'',
      ''Drive external-sharing policy needs Drive settings '' @ em_dash @ '' assess manually'',
      ''IMAP/POP legacy access is per-user in Gmail settings '' @ em_dash @ '' assess manually'']"

definition gws_add_sign_ins :: "sign_in_log \<Rightarrow> tenant_state \<Rightarrow> tenant_state" where
  "gws_add_sign_ins log st = (case log of (events, ok, note) \<Rightarrow>
     if ok then
       (let st1 = assess AreaSignIn (st\<lparr>ts_sign_ins := events\<rparr>);
            st2 = (if note \<noteq> [] then add_note note st1 else st1)
        in add_note gws_login_note st2)
     else add_note note st)"

definition gws_assemble :: "'w gws_provider \<Rightarrow> string \<Rightarrow> user list \<Rightarrow> sign_in_log \<Rightarrow> tenant_state" where
  "gws_assemble p domain us log =
     (let st = (blank_state ProviderGWS domain)\<lparr>ts_users := us\<rparr>;
          st = assess AreaInactiveUser (assess AreaAdminRoles (assess AreaMFA st));
          st = add_dns (gp_dns p) domain st;
          st = gws_add_sign_ins log st
      in foldl (\<lambda>s n. add_note n s) st gws_limit_notes)"

definition gws_Snapshot :: "'w gws_provider \<Rightarrow> string \<Rightarrow> 'w snapshot" where
  "gws_Snapshot p domain = do {
     t \<leftarrow> gp_token p;
     case t of
       Inl e \<Rightarrow> ret (Inl (''gws auth failed for '' @ domain @ '': '' @ e))
     | Inr tok \<Rightarrow> do {
         r \<leftarrow> gws_users p tok domain;
         case r of
           Inl e \<Rightarrow> ret (Inl (''gws read users for '' @ domain @ '': '' @ e))
         | Inr us \<Rightarrow> do {
             now \<leftarrow> gp_now p;
             log \<leftarrow> gws_signIns p tok now;
             ret (Inr (gws_assemble p domain us log)) } } }"

end
