(* ===== verification/Graph.thy ===== *)
theory Graph
  imports Provider_IO
begin

text \<open>
  The Microsoft 365 provider (\<open>graph/graph.go\<close>, \<open>graph/signins.go\<close>). As in the Google
  provider the token source, the fetcher, the resolver and the clock are fields. \<open>oauthGrants\<close> ranges over a Go map: the order it comes out
  in is the argument \<open>order\<close> of the snapshot.
\<close>

record 'w graph_provider =
  mp_token :: "'w tokener"
  mp_fetch :: "'w fetcher"
  mp_dns :: "resolver option"
  mp_base_url :: string
  mp_now :: "('w, time) state"

definition graph_defaultBase :: string where
  "graph_defaultBase = ''https://graph.microsoft.com/v1.0''"

definition graph_signInPageLimit :: nat where "graph_signInPageLimit = 10"

definition graph_base :: "'w graph_provider \<Rightarrow> string" where
  "graph_base p = (if mp_base_url p \<noteq> [] then mp_base_url p else graph_defaultBase)"

definition graph_get :: "'w graph_provider \<Rightarrow> string \<Rightarrow> string \<Rightarrow> ('w, string + string) state" where
  "graph_get p tok path = mp_fetch p (graph_base p @ path) tok"

text \<open>
  The shape of the optional areas: read a path and decode the body, with \<open>None\<close> when
  either fails.
\<close>

definition graph_read ::
  "(jobj \<Rightarrow> 'a option) \<Rightarrow> 'w graph_provider \<Rightarrow> string \<Rightarrow> string \<Rightarrow> ('w, 'a option) state" where
  "graph_read dec p tok path = do {
     r \<leftarrow> graph_get p tok path;
     case r of Inl e \<Rightarrow> ret None | Inr body \<Rightarrow> ret (Unmarshal dec body) }"

section \<open>Users and their MFA registration\<close>

record graph_user =
  mu_id :: string
  mu_upn :: string
  mu_display :: string
  mu_enabled :: bool
  mu_mail :: string

definition dec_graph_user :: "jobj \<Rightarrow> graph_user option" where
  "dec_graph_user u = do {
     i \<leftarrow> get_string ''id'' u;
     upn \<leftarrow> get_string ''userPrincipalName'' u;
     d \<leftarrow> get_string ''displayName'' u;
     e \<leftarrow> get_bool ''accountEnabled'' u;
     m \<leftarrow> get_string ''mail'' u;
     Some \<lparr>mu_id = i, mu_upn = upn, mu_display = d, mu_enabled = e, mu_mail = m\<rparr> }"

definition graph_user_of :: "graph_user \<Rightarrow> user" where
  "graph_user_of u =
     \<lparr>u_id = mu_id u, u_email = (if mu_upn u = [] then mu_mail u else mu_upn u), u_display = mu_display u,
      u_enabled = mu_enabled u, u_is_admin = False, u_admin_roles = [], u_mfa = False, u_last_active = 0,
      u_ext_forward = False, u_forward_target = []\<rparr>"

text \<open>The index maps \<open>byID\<close>: the last user with an id wins.\<close>

definition id_index :: "user list \<Rightarrow> string \<Rightarrow> nat option" where
  "id_index us i = map_of (rev (zip (map u_id us) [0..<length us])) i"

definition dec_graph_reg :: "jobj \<Rightarrow> (string \<times> bool) option" where
  "dec_graph_reg r = do {
     i \<leftarrow> get_string ''id'' r;
     _ \<leftarrow> get_bool ''isMfaCapable'' r;
     b \<leftarrow> get_bool ''isMfaRegistered'' r;
     Some (i, b) }"

definition set_mfa :: "user list \<Rightarrow> (string \<times> bool) \<Rightarrow> user list" where
  "set_mfa us r = (case id_index us (fst r) of
     None \<Rightarrow> us | Some k \<Rightarrow> us[k := (us ! k)\<lparr>u_mfa := snd r\<rparr>])"

definition graph_users_path :: string where
  "graph_users_path = ''/users?$select=id,userPrincipalName,displayName,accountEnabled,mail&$top=999''"

definition graph_reg_path :: string where
  "graph_reg_path = ''/reports/authenticationMethods/userRegistrationDetails?$top=999''"

definition graph_users :: "'w graph_provider \<Rightarrow> string \<Rightarrow> ('w, string + user list \<times> bool) state" where
  "graph_users p tok = do {
     r \<leftarrow> graph_get p tok graph_users_path;
     case r of
       Inl e \<Rightarrow> ret (Inl e)
     | Inr body \<Rightarrow>
         (case Unmarshal (get_list dec_graph_user ''value'') body of
            None \<Rightarrow> ret (Inl json_error)
          | Some vs \<Rightarrow> do {
              mr \<leftarrow> graph_read (get_list dec_graph_reg ''value'') p tok graph_reg_path;
              ret (Inr (case mr of
                 None \<Rightarrow> (map graph_user_of vs, False)
               | Some regs \<Rightarrow> (foldl set_mfa (map graph_user_of vs) regs, True))) }) }"

section \<open>Administrator roles\<close>

definition dec_graph_member :: "jobj \<Rightarrow> string option" where
  "dec_graph_member m = get_string ''id'' m"

definition dec_graph_role :: "jobj \<Rightarrow> (string \<times> string list) option" where
  "dec_graph_role r = do {
     d \<leftarrow> get_string ''displayName'' r;
     ms \<leftarrow> get_list dec_graph_member ''members'' r;
     Some (d, ms) }"

definition graph_adminRoles :: "'w graph_provider \<Rightarrow> string \<Rightarrow> ('w, (string \<times> string list) list option) state" where
  "graph_adminRoles p tok = graph_read (get_list dec_graph_role ''value'') p tok ''/directoryRoles?$expand=members''"

definition grant_role :: "string \<Rightarrow> user list \<Rightarrow> string \<Rightarrow> user list" where
  "grant_role role us i = (case id_index us i of
     None \<Rightarrow> us
   | Some k \<Rightarrow> us[k := (us ! k)\<lparr>u_is_admin := True, u_admin_roles := u_admin_roles (us ! k) @ [role]\<rparr>])"

definition applyAdminRoles :: "user list \<Rightarrow> (string \<times> string list) list \<Rightarrow> user list" where
  "applyAdminRoles us roles = foldl (\<lambda>us r. foldl (grant_role (fst r)) us (snd r)) us roles"

section \<open>Third-party app consents\<close>

record sp_info =
  sp_name :: string
  sp_app_id :: string
  sp_publisher :: string

definition dec_graph_sp :: "jobj \<Rightarrow> (string \<times> sp_info) option" where
  "dec_graph_sp s = do {
     i \<leftarrow> get_string ''id'' s;
     a \<leftarrow> get_string ''appId'' s;
     d \<leftarrow> get_string ''displayName'' s;
     pub \<leftarrow> get_string ''publisherName'' s;
     v \<leftarrow> get_obj ''verifiedPublisher'' s;
     vn \<leftarrow> get_string ''displayName'' v;
     Some (i, \<lparr>sp_name = d, sp_app_id = a, sp_publisher = (if vn = [] then pub else vn)\<rparr>) }"

record graph_grant =
  gg_client :: string
  gg_consent :: string
  gg_scope :: string

definition dec_graph_grant :: "jobj \<Rightarrow> graph_grant option" where
  "dec_graph_grant g = do {
     c \<leftarrow> get_string ''clientId'' g;
     t \<leftarrow> get_string ''consentType'' g;
     s \<leftarrow> get_string ''scope'' g;
     Some \<lparr>gg_client = c, gg_consent = t, gg_scope = s\<rparr> }"

text \<open>\<open>strings.Fields\<close>: the maximal runs of bytes that are not white space.\<close>

fun str_fields :: "string \<Rightarrow> string list" where
  "str_fields [] = []"
| "str_fields (c # cs) =
     (if is_space c then str_fields cs
      else (case cs of
              [] \<Rightarrow> [[c]]
            | d # _ \<Rightarrow> if is_space d then [c] # str_fields cs
                       else (case str_fields cs of [] \<Rightarrow> [[c]] | w # ws \<Rightarrow> (c # w) # ws)))"

definition appendUnique :: "string list \<Rightarrow> string \<Rightarrow> string list" where
  "appendUnique s v = (if v \<in> set s then s else s @ [v])"

definition sp_lookup :: "(string \<times> sp_info) list \<Rightarrow> string \<Rightarrow> sp_info" where
  "sp_lookup sps c = (case map_of (rev sps) c of
     None \<Rightarrow> \<lparr>sp_name = [], sp_app_id = [], sp_publisher = []\<rparr> | Some i \<Rightarrow> i)"

definition new_grant :: "(string \<times> sp_info) list \<Rightarrow> graph_grant \<Rightarrow> oauth_grant" where
  "new_grant sps g =
     (let info = sp_lookup sps (gg_client g)
      in \<lparr>g_app_id = (if sp_app_id info = [] then gg_client g else sp_app_id info), g_app_name = sp_name info,
          g_scopes = [], g_consent = gg_consent g, g_publisher = sp_publisher info\<rparr>)"

definition merge_grant :: "(string \<times> sp_info) list \<Rightarrow> graph_grant \<Rightarrow> oauth_grant option \<Rightarrow> oauth_grant" where
  "merge_grant sps g old =
     (let og = (case old of None \<Rightarrow> new_grant sps g | Some og \<Rightarrow> og);
          og = (if equal_fold (gg_consent g) ''AllPrincipals'' then og\<lparr>g_consent := ''AllPrincipals''\<rparr> else og)
      in og\<lparr>g_scopes := foldl appendUnique (g_scopes og) (str_fields (gg_scope g))\<rparr>)"

definition merge_grants :: "(string \<times> sp_info) list \<Rightarrow> graph_grant list \<Rightarrow> (string \<times> oauth_grant) list" where
  "merge_grants sps gs = foldl (\<lambda>m g. amap_upd (gg_client g) (merge_grant sps g) m) [] gs"

definition graph_sp_path :: string where
  "graph_sp_path = ''/servicePrincipals?$select=id,appId,displayName,publisherName,verifiedPublisher&$top=999''"

definition graph_oauthGrants ::
  "(oauth_grant list \<Rightarrow> oauth_grant list) \<Rightarrow> 'w graph_provider \<Rightarrow> string \<Rightarrow> ('w, oauth_grant list option) state" where
  "graph_oauthGrants order p tok = do {
     sp \<leftarrow> graph_read (get_list dec_graph_sp ''value'') p tok graph_sp_path;
     case sp of
       None \<Rightarrow> ret None
     | Some sps \<Rightarrow> do {
         gr \<leftarrow> graph_read (get_list dec_graph_grant ''value'') p tok ''/oauth2PermissionGrants?$top=999'';
         ret (map_option (\<lambda>gs. order (map snd (merge_grants sps gs))) gr) } }"

section \<open>Conditional access, legacy authentication, sharing\<close>

definition graph_conditionalAccess :: "'w graph_provider \<Rightarrow> string \<Rightarrow> ('w, bool option) state" where
  "graph_conditionalAccess p tok = do {
     r \<leftarrow> graph_read (get_list (get_string ''state'') ''value'') p tok
            ''/identity/conditionalAccess/policies?$select=state'';
     ret (map_option (list_ex (\<lambda>s. equal_fold s ''enabled'')) r) }"

definition graph_legacyAuth :: "'w graph_provider \<Rightarrow> string \<Rightarrow> ('w, bool option) state" where
  "graph_legacyAuth p tok = do {
     r \<leftarrow> graph_read (get_bool_ptr ''blockLegacyAuthentication'') p tok ''/policies/authorizationPolicy'';
     ret (case r of None \<Rightarrow> None | Some None \<Rightarrow> None | Some (Some blocked) \<Rightarrow> Some (\<not> blocked)) }"

definition sharing_of :: "string \<Rightarrow> sharing_config" where
  "sharing_of capb =
     \<lparr>sh_anyone = equal_fold capb ''ExternalUserAndGuestSharing'',
      sh_external = contains (to_lower capb) ''external'', sh_level = capb\<rparr>"

definition graph_sharing :: "'w graph_provider \<Rightarrow> string \<Rightarrow> ('w, sharing_config option) state" where
  "graph_sharing p tok = do {
     r \<leftarrow> graph_read (get_string ''sharingCapability'') p tok
            ''/admin/sharepoint/settings?$select=sharingCapability'';
     ret (map_option sharing_of r) }"

section \<open>The sign-in log\<close>

definition isLegacyClient :: "string \<Rightarrow> bool" where
  "isLegacyClient clientApp = (trim_space clientApp \<notin> {[], ''Browser'', ''Mobile Apps and Desktop clients''})"

definition premiumLicenceRefused :: "string \<Rightarrow> bool" where
  "premiumLicenceRefused err = (let msg = to_lower err in
     contains msg ''requestfromnonpremiumtenantorb2ctenant'' \<or> contains msg ''premium license'' \<or>
     contains msg ''premium licence'')"

definition LicenceNote :: string where
  "LicenceNote = ''sign-in monitoring needs Microsoft Entra ID P1, which this tenant'' @ [CHR 0x27] @
     ''s plan does not include (it comes with Microsoft 365 Business Premium). '' @
     ''Every configuration check is unaffected.''"

definition graph_unreadable_note :: string where
  "graph_unreadable_note = ''the sign-in log could not be read '' @ em_dash @
     '' check that the app registration has AuditLog.Read.All and Directory.Read.All granted''"

definition graph_unparsed_note :: string where
  "graph_unparsed_note = ''the sign-in log could not be parsed''"

definition graph_truncated_note :: string where
  "graph_truncated_note = ''the sign-in log was larger than one scan reads; the newest '' @
     ''events were assessed and older ones were not''"

record graph_event =
  ge_user :: string
  ge_created :: string
  ge_ip :: string
  ge_client :: string
  ge_requirement :: string
  ge_error :: int
  ge_country :: string

definition dec_graph_event :: "jobj \<Rightarrow> graph_event option" where
  "dec_graph_event e = do {
     u \<leftarrow> get_string ''userPrincipalName'' e;
     t \<leftarrow> get_string ''createdDateTime'' e;
     ip \<leftarrow> get_string ''ipAddress'' e;
     c \<leftarrow> get_string ''clientAppUsed'' e;
     a \<leftarrow> get_string ''authenticationRequirement'' e;
     st \<leftarrow> get_obj ''status'' e;
     code \<leftarrow> get_int ''errorCode'' st;
     l \<leftarrow> get_obj ''location'' e;
     country \<leftarrow> get_string ''countryOrRegion'' l;
     Some \<lparr>ge_user = u, ge_created = t, ge_ip = ip, ge_client = c, ge_requirement = a,
       ge_error = code, ge_country = country\<rparr> }"

definition dec_graph_page :: "jobj \<Rightarrow> (graph_event list \<times> string) option" where
  "dec_graph_page o' = do {
     es \<leftarrow> get_list dec_graph_event ''value'' o';
     next \<leftarrow> get_string ''@odata.nextLink'' o';
     Some (es, next) }"

definition failureCode :: "int \<Rightarrow> string" where
  "failureCode code = (if code = 0 then [] else itoa code)"

definition graph_sign_in :: "graph_event \<Rightarrow> sign_in list" where
  "graph_sign_in e = (case parse_rfc3339 (ge_created e) of
     None \<Rightarrow> []
   | Some at \<Rightarrow>
       [\<lparr>si_user = to_lower (ge_user e), si_at = at, si_success = (ge_error e = 0),
         si_country = ge_country e, si_ip = ge_ip e, si_client = ge_client e,
         si_legacy = isLegacyClient (ge_client e),
         si_single_factor = equal_fold (ge_requirement e) ''singleFactorAuthentication'',
         si_suspicious = False, si_failure_code = failureCode (ge_error e)\<rparr>])"

definition graph_signins_path :: "time \<Rightarrow> string" where
  "graph_signins_path now =
     ''/auditLogs/signIns?$filter='' @ QueryEscape (''createdDateTime ge '' @ rfc3339 (now - SignInWindow)) @
     ''&$top=1000''"

fun graph_pages :: "nat \<Rightarrow> 'w graph_provider \<Rightarrow> string \<Rightarrow> string \<Rightarrow> sign_in list \<Rightarrow> ('w, sign_in_log) state" where
  "graph_pages 0 p tok path out = ret (out, True, graph_truncated_note)"
| "graph_pages (Suc n) p tok path out = do {
     r \<leftarrow> graph_get p tok path;
     case r of
       Inl e \<Rightarrow> ret ([], False, if premiumLicenceRefused e then LicenceNote else graph_unreadable_note)
     | Inr body \<Rightarrow>
         (case Unmarshal dec_graph_page body of
            None \<Rightarrow> ret ([], False, graph_unparsed_note)
          | Some (es, next) \<Rightarrow>
              (let out' = out @ concat (map graph_sign_in es);
                   path' = trim_prefix next (graph_base p)
               in if next = [] then ret (out', True, [])
                  else if has_prefix path' ''http'' then ret (out', True, [])
                  else graph_pages n p tok path' out')) }"

definition graph_signIns :: "'w graph_provider \<Rightarrow> string \<Rightarrow> time \<Rightarrow> ('w, sign_in_log) state" where
  "graph_signIns p tok now = graph_pages graph_signInPageLimit p tok (graph_signins_path now) []"

section \<open>The snapshot\<close>

definition graph_roles_note :: string where
  "graph_roles_note = ''administrator roles (directoryRoles) could not be read''"

definition graph_oauth_note :: string where
  "graph_oauth_note = ''third-party app consents (oauth2PermissionGrants) could not be read''"

definition graph_conditional_note :: string where
  "graph_conditional_note = ''conditional-access policies could not be read (Entra ID P1 required)''"

definition graph_legacy_note :: string where
  "graph_legacy_note = ''legacy-authentication policy could not be read''"

definition graph_sharing_note :: string where
  "graph_sharing_note = ''SharePoint/OneDrive external-sharing setting could not be read''"

definition graph_forward_note :: string where
  "graph_forward_note = ''external mailbox auto-forwarding needs Exchange mailbox read '' @ em_dash @ '' assess manually''"

text \<open>An optional area: its value and the mark when it was read, its note otherwise.\<close>

definition add_area :: "string \<Rightarrow> string \<Rightarrow> ('a \<Rightarrow> tenant_state \<Rightarrow> tenant_state) \<Rightarrow> 'a option \<Rightarrow>
    tenant_state \<Rightarrow> tenant_state" where
  "add_area area note f r st = (case r of None \<Rightarrow> add_note note st | Some x \<Rightarrow> assess area (f x st))"

definition graph_add_sign_ins :: "sign_in_log \<Rightarrow> tenant_state \<Rightarrow> tenant_state" where
  "graph_add_sign_ins log st = (case log of (events, ok, note) \<Rightarrow>
     if ok then
       (let st1 = assess AreaSignIn (st\<lparr>ts_sign_ins := events\<rparr>)
        in if note \<noteq> [] then add_note note st1 else st1)
     else add_note note st)"

definition graph_assemble ::
  "'w graph_provider \<Rightarrow> string \<Rightarrow> user list \<Rightarrow> bool \<Rightarrow> (string \<times> string list) list option \<Rightarrow>
   oauth_grant list option \<Rightarrow> bool option \<Rightarrow> bool option \<Rightarrow> sharing_config option \<Rightarrow> sign_in_log \<Rightarrow> tenant_state" where
  "graph_assemble p domain us mfa roles grants ca legacy sh log =
     (let st = (blank_state ProviderM365 domain)\<lparr>ts_users := us, ts_assessed := (\<lambda>_. False)(AreaMFA := mfa)\<rparr>;
          st = add_area AreaAdminRoles graph_roles_note
                 (\<lambda>rs st. st\<lparr>ts_users := applyAdminRoles (ts_users st) rs\<rparr>) roles st;
          st = add_area AreaOAuth graph_oauth_note (\<lambda>gs st. st\<lparr>ts_grants := gs\<rparr>) grants st;
          st = add_area AreaConditional graph_conditional_note (\<lambda>b st. st\<lparr>ts_conditional := b\<rparr>) ca st;
          st = add_area AreaLegacyAuth graph_legacy_note (\<lambda>b st. st\<lparr>ts_legacy_auth := b\<rparr>) legacy st;
          st = add_area AreaSharing graph_sharing_note (\<lambda>s st. st\<lparr>ts_sharing := s\<rparr>) sh st;
          st = add_dns (mp_dns p) domain st;
          st = graph_add_sign_ins log st
      in add_note graph_forward_note st)"

definition graph_Snapshot ::
  "(oauth_grant list \<Rightarrow> oauth_grant list) \<Rightarrow> 'w graph_provider \<Rightarrow> string \<Rightarrow> 'w snapshot" where
  "graph_Snapshot order p domain = do {
     t \<leftarrow> mp_token p;
     case t of
       Inl e \<Rightarrow> ret (Inl (''m365 auth failed for '' @ domain @ '': '' @ e))
     | Inr tok \<Rightarrow> do {
         u \<leftarrow> graph_users p tok;
         case u of
           Inl e \<Rightarrow> ret (Inl (''m365 read users for '' @ domain @ '': '' @ e))
         | Inr (us, mfa) \<Rightarrow> do {
             roles \<leftarrow> graph_adminRoles p tok;
             grants \<leftarrow> graph_oauthGrants order p tok;
             ca \<leftarrow> graph_conditionalAccess p tok;
             legacy \<leftarrow> graph_legacyAuth p tok;
             sh \<leftarrow> graph_sharing p tok;
             now \<leftarrow> mp_now p;
             log \<leftarrow> graph_signIns p tok now;
             ret (Inr (graph_assemble p domain us mfa roles grants ca legacy sh log)) } } }"

end
