(* ===== verification/Live_Source.thy ===== *)
theory Live_Source
  imports Gws Graph Base64
begin

text \<open>
  The live edge (\<open>tenantwatch/source.go\<close>): credentials, the token cache, the two token
  requests, the bearer GET and the routing of a target to its provider. The HTTP client, the
  clock and the file system are actions on the outside world; decoding a key and signing
  with it are arguments. The mutex only makes each cache operation one step.
\<close>

section \<open>The environment and the state\<close>

datatype file_result = FileMissing | FileError string | FileBytes string

text \<open>Reading a key: the first block of a PEM text, and the two forms a key may be encoded in.\<close>

datatype 'k private_key = RsaKey 'k | OtherKey

record 'k key_lib =
  kl_pem :: "string \<Rightarrow> string option"
  kl_pkcs8 :: "string \<Rightarrow> 'k private_key option"
  kl_pkcs1 :: "string \<Rightarrow> string + 'k"

record ('w, 'k) live_env =
  le_http :: "http_request \<Rightarrow> ('w, string + http_response) state"
  le_now :: "('w, time) state"
  le_read_file :: "string \<Rightarrow> ('w, file_result) state"
  le_keys :: "'k key_lib"
  le_rsa_sign :: "'k \<Rightarrow> nat list \<Rightarrow> string + string"
  le_dns :: "resolver option"

type_synonym token_cache = "string \<rightharpoonup> string \<times> time"

record 'w live =
  lv_toks :: token_cache
  lv_world :: 'w

definition outside :: "('w, 'a) state \<Rightarrow> ('w live, 'a) state" where
  "outside m = State (\<lambda>s. case run_state m (lv_world s) of (x, w) \<Rightarrow> (x, s\<lparr>lv_world := w\<rparr>))"

lemma run_outside [simp]:
  "run_state (outside m) s = (fst (run_state m (lv_world s)), s\<lparr>lv_world := snd (run_state m (lv_world s))\<rparr>)"
  by (simp add: outside_def split: prod.split)

section \<open>Credentials\<close>

record m365_creds =
  mc_domain :: string
  mc_tenant :: string
  mc_client :: string
  mc_secret :: string

record gws_creds =
  gc_domain :: string
  gc_admin :: string
  gc_account :: string

record creds =
  cr_m365 :: "m365_creds list"
  cr_gws :: "gws_creds list"

definition dec_m365_creds :: "jobj \<Rightarrow> m365_creds option" where
  "dec_m365_creds o' = do {
     d \<leftarrow> get_string ''domain'' o';
     t \<leftarrow> get_string ''tenant_id'' o';
     c \<leftarrow> get_string ''client_id'' o';
     s \<leftarrow> get_string ''client_secret'' o';
     Some \<lparr>mc_domain = d, mc_tenant = t, mc_client = c, mc_secret = s\<rparr> }"

definition dec_gws_creds :: "jobj \<Rightarrow> gws_creds option" where
  "dec_gws_creds o' = do {
     d \<leftarrow> get_string ''domain'' o';
     a \<leftarrow> get_string ''admin_email'' o';
     s \<leftarrow> get_string ''service_account_json'' o';
     Some \<lparr>gc_domain = d, gc_admin = a, gc_account = s\<rparr> }"

definition dec_creds :: "jobj \<Rightarrow> creds option" where
  "dec_creds o' = do {
     m \<leftarrow> get_list dec_m365_creds ''m365'' o';
     g \<leftarrow> get_list dec_gws_creds ''gws'' o';
     Some \<lparr>cr_m365 = m, cr_gws = g\<rparr> }"

definition LoadCreds :: "('w, 'k) live_env \<Rightarrow> string \<Rightarrow> ('w, string + creds) state" where
  "LoadCreds env path = do {
     r \<leftarrow> le_read_file env path;
     ret (case r of
       FileMissing \<Rightarrow> Inr \<lparr>cr_m365 = [], cr_gws = []\<rparr>
     | FileError e \<Rightarrow> Inl e
     | FileBytes b \<Rightarrow> (case Unmarshal dec_creds b of
         None \<Rightarrow> Inl (''parse '' @ path @ '': '' @ json_error) | Some c \<Rightarrow> Inr c)) }"

definition m365For :: "creds \<Rightarrow> string \<Rightarrow> m365_creds option" where
  "m365For cs domain = List.find (\<lambda>c. equal_fold (mc_domain c) domain) (cr_m365 cs)"

definition gwsFor :: "creds \<Rightarrow> string \<Rightarrow> gws_creds option" where
  "gwsFor cs domain = List.find (\<lambda>c. equal_fold (gc_domain c) domain) (cr_gws cs)"

section \<open>The bearer GET\<close>

definition snippet :: "string \<Rightarrow> string" where
  "snippet b = (let s = trim_space b in if length s > 240 then take 240 s @ ellipsis else s)"

text \<open>A body is read up to a limit; an error while reading it is ignored.\<close>

definition bearer_get :: "('w, 'k) live_env \<Rightarrow> 'w fetcher" where
  "bearer_get env u bearer = do {
     r \<leftarrow> le_http env \<lparr>hq_method = ''GET'', hq_url = u,
            hq_headers = [(''Authorization'', ''Bearer '' @ bearer), (''Accept'', ''application/json'')], hq_body = []\<rparr>;
     ret (case r of
       Inl e \<Rightarrow> Inl e
     | Inr resp \<Rightarrow>
         (let body = take (32 * 2 ^ 20) (hr_body resp)
          in if hr_code resp \<ge> 400 then Inl (''GET '' @ u @ '': '' @ hr_status resp @ '': '' @ snippet body)
             else Inr body)) }"

section \<open>The token cache\<close>

definition cached :: "('w, 'k) live_env \<Rightarrow> string \<Rightarrow> ('w live, string option) state" where
  "cached env key = do {
     s \<leftarrow> State_Monad.get;
     case lv_toks s key of
       None \<Rightarrow> ret None
     | Some (tok, expires) \<Rightarrow> do {
         now \<leftarrow> outside (le_now env);
         ret (if now > expires - 2 * minute then None else Some tok) } }"

definition store_token :: "string \<Rightarrow> string \<Rightarrow> time \<Rightarrow> ('w live, unit) state" where
  "store_token key tok exp = do {
     s \<leftarrow> State_Monad.get;
     State_Monad.set (s\<lparr>lv_toks := (lv_toks s)(key \<mapsto> (tok, exp))\<rparr>) }"

definition dec_token :: "jobj \<Rightarrow> (string \<times> int) option" where
  "dec_token o' = do {
     t \<leftarrow> get_string ''access_token'' o';
     e \<leftarrow> get_int ''expires_in'' o';
     Some (t, e) }"

definition token_ttl :: "int \<Rightarrow> duration" where
  "token_ttl expires_in = (let ttl = wrap64 (expires_in * second) in if ttl \<le> 0 then hour else ttl)"

definition postToken :: "('w, 'k) live_env \<Rightarrow> string \<Rightarrow> (string \<times> string) list \<Rightarrow> ('w, string + string \<times> time) state" where
  "postToken env endpoint form = do {
     r \<leftarrow> le_http env \<lparr>hq_method = ''POST'', hq_url = endpoint,
            hq_headers = [(''Content-Type'', ''application/x-www-form-urlencoded'')], hq_body = query_encode form\<rparr>;
     case r of
       Inl e \<Rightarrow> ret (Inl e)
     | Inr resp \<Rightarrow>
         (let body = take (2 ^ 20) (hr_body resp)
          in if hr_code resp \<ge> 400
             then ret (Inl (''token endpoint '' @ endpoint @ '': '' @ hr_status resp @ '': '' @ snippet body))
             else (case Unmarshal dec_token body of
                     None \<Rightarrow> ret (Inl json_error)
                   | Some (tok, expires_in) \<Rightarrow>
                       if tok = [] then ret (Inl ''token endpoint returned no access_token'')
                       else do {
                         now \<leftarrow> le_now env;
                         ret (Inr (tok, now + token_ttl expires_in)) })) }"

text \<open>Both token functions end the same way: ask the endpoint and cache what it gave.\<close>

definition fresh_token ::
  "('w, 'k) live_env \<Rightarrow> string \<Rightarrow> string \<Rightarrow> (string \<times> string) list \<Rightarrow> ('w live, string + string) state" where
  "fresh_token env key endpoint form = do {
     r \<leftarrow> outside (postToken env endpoint form);
     case r of
       Inl e \<Rightarrow> ret (Inl e)
     | Inr (tok, exp) \<Rightarrow> do { _ \<leftarrow> store_token key tok exp; ret (Inr tok) } }"

definition m365_key :: "m365_creds \<Rightarrow> string" where
  "m365_key c = ''m365:'' @ mc_tenant c @ '':'' @ mc_client c"

definition m365Token :: "('w, 'k) live_env \<Rightarrow> m365_creds \<Rightarrow> ('w live, string + string) state" where
  "m365Token env c = do {
     t \<leftarrow> cached env (m365_key c);
     case t of
       Some tok \<Rightarrow> ret (Inr tok)
     | None \<Rightarrow> fresh_token env (m365_key c)
         (''https://login.microsoftonline.com/'' @ mc_tenant c @ ''/oauth2/v2.0/token'')
         [(''client_id'', mc_client c), (''client_secret'', mc_secret c),
          (''scope'', ''https://graph.microsoft.com/.default''), (''grant_type'', ''client_credentials'')] }"

section \<open>The Google assertion\<close>

record sa_key =
  sa_email :: string
  sa_private :: string
  sa_uri :: string

definition dec_sa_key :: "jobj \<Rightarrow> sa_key option" where
  "dec_sa_key o' = do {
     e \<leftarrow> get_string ''client_email'' o';
     p \<leftarrow> get_string ''private_key'' o';
     u \<leftarrow> get_string ''token_uri'' o';
     Some \<lparr>sa_email = e, sa_private = p, sa_uri = u\<rparr> }"

definition jwt_header :: string where
  "jwt_header = (let q = (\<lambda>s. [CHR 0x22] @ s @ [CHR 0x22]) in
     ''{'' @ q ''alg'' @ '':'' @ q ''RS256'' @ '','' @ q ''typ'' @ '':'' @ q ''JWT'' @ ''}'')"

definition directory_scope :: string where
  "directory_scope = ''https://www.googleapis.com/auth/admin.directory.user.readonly''"

definition google_claims :: "sa_key \<Rightarrow> string \<Rightarrow> time \<Rightarrow> (string \<times> jval) list" where
  "google_claims sa admin now =
     [(''iss'', JStr (sa_email sa)), (''sub'', JStr admin), (''scope'', JStr directory_scope),
      (''aud'', JStr ''https://oauth2.googleapis.com/token''), (''iat'', JInt (unix_seconds now)),
      (''exp'', JInt (unix_seconds (now + hour)))]"

definition parseRSAKey :: "'k key_lib \<Rightarrow> string \<Rightarrow> string + 'k" where
  "parseRSAKey lib pem = (case kl_pem lib pem of
     None \<Rightarrow> Inl ''service account private_key is not valid PEM''
   | Some block \<Rightarrow> (case kl_pkcs8 lib block of
        Some (RsaKey k) \<Rightarrow> Inr k
      | Some OtherKey \<Rightarrow> Inl ''service account key is not RSA''
      | None \<Rightarrow> kl_pkcs1 lib block))"

definition signGoogleJWT :: "('w, 'k) live_env \<Rightarrow> sa_key \<Rightarrow> string \<Rightarrow> time \<Rightarrow> string + string" where
  "signGoogleJWT env sa admin now =
     (case parseRSAKey (le_keys env) (sa_private sa) of
        Inl e \<Rightarrow> Inl e
      | Inr priv \<Rightarrow>
          (case json_marshal (JMap (google_claims sa admin now)) of
             None \<Rightarrow> Inl json_error
           | Some cb \<Rightarrow>
               (let input = b64_encode jwt_header @ ''.'' @ b64_encode cb
                in case le_rsa_sign env priv (sha256 input) of
                     Inl e \<Rightarrow> Inl e
                   | Inr sig \<Rightarrow> Inr (input @ ''.'' @ b64_encode sig))))"

definition gws_key :: "gws_creds \<Rightarrow> string" where
  "gws_key c = ''gws:'' @ gc_domain c @ '':'' @ gc_admin c"

definition gwsToken :: "('w, 'k) live_env \<Rightarrow> gws_creds \<Rightarrow> ('w live, string + string) state" where
  "gwsToken env c = do {
     t \<leftarrow> cached env (gws_key c);
     case t of
       Some tok \<Rightarrow> ret (Inr tok)
     | None \<Rightarrow> do {
         raw \<leftarrow> outside (le_read_file env (gc_account c));
         case raw of
           FileMissing \<Rightarrow> ret (Inl (''read service account json: no such file''))
         | FileError e \<Rightarrow> ret (Inl (''read service account json: '' @ e))
         | FileBytes b \<Rightarrow>
             (case Unmarshal dec_sa_key b of
                None \<Rightarrow> ret (Inl (''parse service account json: '' @ json_error))
              | Some sa \<Rightarrow> do {
                  now \<leftarrow> outside (le_now env);
                  case signGoogleJWT env sa (gc_admin c) now of
                    Inl e \<Rightarrow> ret (Inl e)
                  | Inr assertion \<Rightarrow>
                      fresh_token env (gws_key c)
                        (if sa_uri sa = [] then ''https://oauth2.googleapis.com/token'' else sa_uri sa)
                        [(''grant_type'', ''urn:ietf:params:oauth:grant-type:jwt-bearer''),
                         (''assertion'', assertion)] }) } }"

section \<open>Routing\<close>

definition live_graph :: "('w, 'k) live_env \<Rightarrow> m365_creds \<Rightarrow> 'w live graph_provider" where
  "live_graph env c =
     \<lparr>mp_token = m365Token env c, mp_fetch = (\<lambda>u b. outside (bearer_get env u b)), mp_dns = le_dns env,
      mp_base_url = [], mp_now = outside (le_now env)\<rparr>"

definition live_gws :: "('w, 'k) live_env \<Rightarrow> gws_creds \<Rightarrow> 'w live gws_provider" where
  "live_gws env c =
     \<lparr>gp_token = gwsToken env c, gp_fetch = (\<lambda>u b. outside (bearer_get env u b)), gp_dns = le_dns env,
      gp_base = [], gp_reports = [], gp_now = outside (le_now env)\<rparr>"

definition live_Snapshot ::
  "(oauth_grant list \<Rightarrow> oauth_grant list) \<Rightarrow> ('w, 'k) live_env \<Rightarrow> creds \<Rightarrow> string \<Rightarrow> string \<Rightarrow> 'w live snapshot" where
  "live_Snapshot order env cs provider domain =
     (if provider = ProviderM365 then
        (case m365For cs domain of
           None \<Rightarrow> ret (Inl (''no M365 credentials configured for '' @ domain @ '' '' @ em_dash @
                      '' add it to the creds file (see INSTALL)''))
         | Some c \<Rightarrow> graph_Snapshot order (live_graph env c) domain)
      else if provider = ProviderGWS then
        (case gwsFor cs domain of
           None \<Rightarrow> ret (Inl (''no Google Workspace credentials configured for '' @ domain @ '' '' @ em_dash @
                      '' add it to the creds file (see INSTALL)''))
         | Some c \<Rightarrow> gws_Snapshot (live_gws env c) domain)
      else ret (Inl (''unknown provider '' @ go_quote provider)))"

end
