(* ===== verification/Provider_Props.thy ===== *)
theory Provider_Props
  imports Gws Graph
begin

text \<open>
  What the two cloud providers guarantee: which requests they send and how many, how the
  paging loops end, and which blind spots a snapshot admits.
\<close>

section \<open>Requests\<close>

text \<open>
  The bounds follow from what one call of the fetcher logs: every call of a snapshot is at an
  address below the base of the provider.
\<close>

lemma graph_get_asks:
  assumes "\<And>path. asks lg P 1 (mp_fetch p (graph_base p @ path) tok)"
  shows "asks lg P 1 (graph_get p tok path)"
  unfolding graph_get_def by (rule assms)

lemma graph_read_asks:
  assumes "\<And>path. asks lg P 1 (mp_fetch p (graph_base p @ path) tok)"
  shows "asks lg P 1 (graph_read dec p tok path)"
  unfolding graph_read_def
  by (rule asks_bind_le [OF graph_get_asks [OF assms]]) (auto split: sum.split)

lemma graph_pages_asks:
  assumes "\<And>path. asks lg P 1 (mp_fetch p (graph_base p @ path) tok)"
  shows "asks lg P n (graph_pages n p tok path out)"
proof (induction n arbitrary: path out)
  case 0
  then show ?case by simp
next
  case (Suc n)
  show ?case
    unfolding graph_pages.simps
    by (rule asks_bind_le [OF graph_get_asks [OF assms]])
      (auto simp: Let_def Suc split: sum.split option.split)
qed

lemma graph_read_ret_asks:
  assumes "\<And>path. asks lg P 1 (mp_fetch p (graph_base p @ path) tok)"
  shows "asks lg P 1 (State_Monad.bind (graph_read dec p tok path) (\<lambda>r. ret (f r)))"
  by (rule asks_bind_le [OF graph_read_asks [OF assms]]) simp_all

lemma graph_area_asks:
  assumes "\<And>path. asks lg P 1 (mp_fetch p (graph_base p @ path) tok)"
  shows "asks lg P 2 (graph_users p tok)" "asks lg P 1 (graph_adminRoles p tok)"
    "asks lg P 2 (graph_oauthGrants order p tok)" "asks lg P 1 (graph_conditionalAccess p tok)"
    "asks lg P 1 (graph_legacyAuth p tok)" "asks lg P 1 (graph_sharing p tok)"
    "asks lg P 10 (graph_signIns p tok now)"
proof -
  note one = graph_read_ret_asks [OF assms]
  show "asks lg P 2 (graph_users p tok)"
    unfolding graph_users_def
    by (rule asks_bind_le [OF graph_get_asks [OF assms]]) (auto simp: one [unfolded One_nat_def] split: sum.split option.split)
  show "asks lg P 2 (graph_oauthGrants order p tok)"
    unfolding graph_oauthGrants_def
    by (rule asks_bind_le [OF graph_read_asks [OF assms]]) (auto simp: one [unfolded One_nat_def] split: option.split)
  show "asks lg P 1 (graph_adminRoles p tok)"
    unfolding graph_adminRoles_def by (rule graph_read_asks [OF assms])
  show "asks lg P 1 (graph_conditionalAccess p tok)" "asks lg P 1 (graph_legacyAuth p tok)"
    "asks lg P 1 (graph_sharing p tok)"
    unfolding graph_conditionalAccess_def graph_legacyAuth_def graph_sharing_def by (rule one)+
  show "asks lg P 10 (graph_signIns p tok now)"
    unfolding graph_signIns_def graph_signInPageLimit_def by (rule graph_pages_asks [OF assms])
qed

lemma graph_Snapshot_asks:
  assumes token: "asks lg P k (mp_token p)"
    and fetch: "\<And>w tok path. fst (run_state (mp_token p) w) = Inr tok \<Longrightarrow>
      asks lg P 1 (mp_fetch p (graph_base p @ path) tok)"
    and clock: "asks lg P 0 (mp_now p)"
  shows "asks lg P (k + 18) (graph_Snapshot order p d)"
  unfolding graph_Snapshot_def
proof (rule asks_bind_result [OF token])
  fix t w
  assume t: "fst (run_state (mp_token p) w) = t"
  show "asks lg P (k + 18 - k) (case t of Inl e \<Rightarrow> ret (Inl (''m365 auth failed for '' @ d @ '': '' @ e))
     | Inr tok \<Rightarrow> do {
         u \<leftarrow> graph_users p tok;
         case u of
           Inl e \<Rightarrow> ret (Inl (''m365 read users for '' @ d @ '': '' @ e))
         | Inr (us, mfa) \<Rightarrow> do {
             roles \<leftarrow> graph_adminRoles p tok;
             grants \<leftarrow> graph_oauthGrants order p tok;
             ca \<leftarrow> graph_conditionalAccess p tok;
             legacy \<leftarrow> graph_legacyAuth p tok;
             sh \<leftarrow> graph_sharing p tok;
             now \<leftarrow> mp_now p;
             log \<leftarrow> graph_signIns p tok now;
             ret (Inr (graph_assemble p d us mfa roles grants ca legacy sh log)) } } )"
  proof (cases t)
    case (Inr tok)
    note area = graph_area_asks [OF fetch [OF t [unfolded Inr]]]
    show ?thesis
      unfolding Inr sum.case add_diff_cancel_left'
      by (intro asks_bind_le [OF area(1)] asks_cases asks_bind_le [OF area(2)] asks_bind_le [OF area(3)]
          asks_bind_le [OF area(4)] asks_bind_le [OF area(5)] asks_bind_le [OF area(6)]
          asks_bind_le [OF clock] asks_bind_le [OF area(7)]) simp_all
  qed simp
qed simp

lemma gws_pages_asks:
  assumes "\<And>path. asks lg P 1 (gp_fetch p (reportsBase p @ path) tok)"
  shows "asks lg P n (gws_pages n p tok since path out)"
proof (induction n arbitrary: path out)
  case 0
  then show ?case by simp
next
  case (Suc n)
  show ?case
    unfolding gws_pages.simps
    by (rule asks_bind_le [OF assms]) (auto simp: Let_def Suc split: sum.split option.split)
qed

lemma gws_Snapshot_asks:
  assumes token: "asks lg P k (gp_token p)"
    and users: "\<And>w tok path. fst (run_state (gp_token p) w) = Inr tok \<Longrightarrow>
      asks lg P 1 (gp_fetch p ((if gp_base p = [] then gws_defaultBase else gp_base p) @ path) tok)"
    and audit: "\<And>w tok path. fst (run_state (gp_token p) w) = Inr tok \<Longrightarrow>
      asks lg P 1 (gp_fetch p (reportsBase p @ path) tok)"
    and clock: "asks lg P 0 (gp_now p)"
  shows "asks lg P (k + 11) (gws_Snapshot p d)"
  unfolding gws_Snapshot_def
proof (rule asks_bind_result [OF token])
  fix t w
  assume t: "fst (run_state (gp_token p) w) = t"
  show "asks lg P (k + 11 - k) (case t of Inl e \<Rightarrow> ret (Inl (''gws auth failed for '' @ d @ '': '' @ e))
     | Inr tok \<Rightarrow> do {
         r \<leftarrow> gws_users p tok d;
         case r of
           Inl e \<Rightarrow> ret (Inl (''gws read users for '' @ d @ '': '' @ e))
         | Inr us \<Rightarrow> do {
             now \<leftarrow> gp_now p;
             log \<leftarrow> gws_signIns p tok now;
             ret (Inr (gws_assemble p d us log)) } })"
  proof (cases t)
    case (Inr tok)
    note ok = users [OF t [unfolded Inr]] audit [OF t [unfolded Inr]]
    have one: "asks lg P 1 (gws_users p tok d)"
      unfolding gws_users_def Let_def append_assoc
      by (rule asks_bind_le [OF ok(1)]) (auto split: sum.split option.split)
    have log: "asks lg P 10 (gws_signIns p tok now)" for now
      unfolding gws_signIns_def gws_signInPageLimit_def Let_def by (rule gws_pages_asks [OF ok(2)])
    show ?thesis
      unfolding Inr sum.case add_diff_cancel_left'
      by (intro asks_bind_le [OF one] asks_cases asks_bind_le [OF clock] asks_bind_le [OF log]) simp_all
  qed simp
qed simp

section \<open>Paging\<close>

text \<open>A server that hands out the given bodies one by one, whatever it is asked.\<close>

definition served_bodies :: "string list fetcher" where
  "served_bodies = (\<lambda>url bearer. State (\<lambda>bodies. case bodies of [] \<Rightarrow> (Inl ''closed'', []) | b # bs \<Rightarrow> (Inr b, bs)))"

lemma run_served_bodies [simp]: "run_state (served_bodies u b) (x # xs) = (Inr x, xs)"
  by (simp add: served_bodies_def)

text \<open>Pages as a server sends them: every page but the last links to a further one.\<close>

definition chained :: "(string \<Rightarrow> bool) \<Rightarrow> ('a \<times> string) list \<Rightarrow> bool" where
  "chained follows pages \<longleftrightarrow> pages \<noteq> [] \<and> snd (last pages) = [] \<and>
     list_all (\<lambda>pg. snd pg \<noteq> [] \<and> follows (snd pg)) (butlast pages)"

lemma chained_Cons:
  "chained follows (pg # pages) \<longleftrightarrow>
     (if pages = [] then snd pg = [] else snd pg \<noteq> [] \<and> follows (snd pg) \<and> chained follows pages)"
  by (auto simp: chained_def)

definition graph_follows :: "'w graph_provider \<Rightarrow> string \<Rightarrow> bool" where
  "graph_follows p next \<longleftrightarrow> \<not> has_prefix (trim_prefix next (graph_base p)) ''http''"

lemma graph_pages_served:
  assumes "mp_fetch p = served_bodies" "map (Unmarshal dec_graph_page) bodies = map Some pages"
    "chained (graph_follows p) pages"
  shows "fst (run_state (graph_pages n p tok path out) bodies) =
    (out @ concat (map graph_sign_in (concat (map fst (take n pages)))), True,
     if length pages \<le> n then [] else graph_truncated_note)"
  using assms(2,3)
proof (induction n arbitrary: bodies pages path out)
  case 0
  then show ?case by (auto simp: chained_def)
next
  case (Suc n)
  then obtain pg pages' where pages: "pages = pg # pages'" by (cases pages) (auto simp: chained_def)
  with Suc.prems obtain b bodies' where bodies: "bodies = b # bodies'" "Unmarshal dec_graph_page b = Some pg"
    "map (Unmarshal dec_graph_page) bodies' = map Some pages'" by (cases bodies) auto
  obtain es nx where pg: "pg = (es, nx)" by fastforce
  show ?case
  proof (cases "pages' = []")
    case True
    then show ?thesis using Suc.prems bodies pages pg
      by (simp add: chained_Cons graph_get_def assms(1))
  next
    case False
    then have nx: "nx \<noteq> []" "graph_follows p nx" and rest: "chained (graph_follows p) pages'"
      using Suc.prems pages pg by (auto simp: chained_Cons)
    have "\<not> has_prefix (trim_prefix nx (graph_base p)) ''http''" using nx(2) by (simp add: graph_follows_def)
    then show ?thesis using Suc.IH [OF bodies(3) rest] bodies pages pg nx(1)
      by (simp add: graph_get_def assms(1) Let_def)
  qed
qed

lemma gws_pages_served:
  assumes "gp_fetch p = served_bodies" "map (Unmarshal dec_gws_page) bodies = map Some pages"
    "chained (\<lambda>_. True) pages"
  shows "fst (run_state (gws_pages n p tok since path out) bodies) =
    (out @ concat (map gws_item_sign_ins (concat (map fst (take n pages)))), True,
     if length pages \<le> n then [] else gws_truncated_note)"
  using assms(2,3)
proof (induction n arbitrary: bodies pages path out)
  case 0
  then show ?case by (auto simp: chained_def)
next
  case (Suc n)
  then obtain pg pages' where pages: "pages = pg # pages'" by (cases pages) (auto simp: chained_def)
  with Suc.prems obtain b bodies' where bodies: "bodies = b # bodies'" "Unmarshal dec_gws_page b = Some pg"
    "map (Unmarshal dec_gws_page) bodies' = map Some pages'" by (cases bodies) auto
  obtain es nx where pg: "pg = (es, nx)" by fastforce
  show ?case
  proof (cases "pages' = []")
    case True
    then show ?thesis using Suc.prems bodies pages pg by (simp add: chained_Cons assms(1))
  next
    case False
    then have "nx \<noteq> []" "chained (\<lambda>_. True) pages'" using Suc.prems pages pg by (auto simp: chained_Cons)
    then show ?thesis using Suc.IH [OF bodies(3)] bodies pages pg by (simp add: assms(1) Let_def)
  qed
qed

section \<open>Blind spots\<close>

lemma graph_pages_log:
  assumes "fst (run_state (graph_pages n p tok path out) w) = (es, ok, note)"
  shows "if ok then note \<in> {[], graph_truncated_note}
         else note \<in> {LicenceNote, graph_unreadable_note, graph_unparsed_note} \<and> es = []"
  using assms
  by (induction n arbitrary: path out w)
    (auto simp: Let_def split: sum.splits option.splits prod.splits if_splits)

lemma gws_pages_log:
  assumes "fst (run_state (gws_pages n p tok since path out) w) = (es, ok, note)"
  shows "if ok then note \<in> {[], gws_truncated_note}
         else note \<in> {gws_unreadable_note, gws_unparsed_note} \<and> es = []"
  using assms
  by (induction n arbitrary: path out w)
    (auto simp: Let_def split: sum.splits option.splits prod.splits if_splits)

lemma add_area_sels [simp]:
  "ts_notes (add_area a n f r st) = (case r of None \<Rightarrow> ts_notes st @ [n] | Some x \<Rightarrow> ts_notes (f x st))"
  "ts_assessed (add_area a n f r st) = (case r of None \<Rightarrow> ts_assessed st | Some x \<Rightarrow> (ts_assessed (f x st))(a := True))"
  "ts_provider (add_area a n f r st) = (case r of None \<Rightarrow> ts_provider st | Some x \<Rightarrow> ts_provider (f x st))"
  "ts_domain (add_area a n f r st) = (case r of None \<Rightarrow> ts_domain st | Some x \<Rightarrow> ts_domain (f x st))"
  by (simp_all add: add_area_def split: option.split)

definition note_unless :: "'a option \<Rightarrow> string \<Rightarrow> string list" where
  "note_unless r n = (if r = None then [n] else [])"

lemma graph_assemble_notes:
  "ts_notes (graph_assemble p d us mfa roles grants ca legacy sh (es, ok, note)) =
     note_unless roles graph_roles_note @ note_unless grants graph_oauth_note @
     note_unless ca graph_conditional_note @ note_unless legacy graph_legacy_note @
     note_unless sh graph_sharing_note @ (if ok \<and> note = [] then [] else [note]) @ [graph_forward_note]"
  by (simp add: graph_assemble_def graph_add_sign_ins_def note_unless_def Let_def split: option.split)

lemma area_distinct [simp]:
  "distinct [AreaMFA, AreaLegacyAuth, AreaOAuth, AreaAdminRoles, AreaSharing, AreaMailForward, AreaEmailAuth,
     AreaConditional, AreaInactiveUser, AreaSignIn]"
  by (simp add: area_defs)

lemma graph_assemble_assessed:
  "ts_assessed (graph_assemble p d us mfa roles grants ca legacy sh (es, ok, note)) =
     (\<lambda>_. False)(AreaMFA := mfa, AreaAdminRoles := roles \<noteq> None, AreaOAuth := grants \<noteq> None,
       AreaConditional := ca \<noteq> None, AreaLegacyAuth := legacy \<noteq> None, AreaSharing := sh \<noteq> None,
       AreaEmailAuth := mp_dns p \<noteq> None, AreaSignIn := ok)"
  by (cases roles; cases grants; cases ca; cases legacy; cases sh)
    (simp_all add: graph_assemble_def graph_add_sign_ins_def Let_def fun_eq_iff area_defs)

lemma graph_Snapshot_Inr:
  assumes "fst (run_state (graph_Snapshot order p d) w) = Inr st"
  obtains us mfa roles grants ca legacy sh es ok msg where
    "st = graph_assemble p d us mfa roles grants ca legacy sh (es, ok, msg)"
    "if ok then msg \<in> {[], graph_truncated_note}
     else msg \<in> {LicenceNote, graph_unreadable_note, graph_unparsed_note} \<and> es = []"
proof -
  from assms have "\<exists>us mfa roles grants ca legacy sh log w' w'' tok now.
      st = graph_assemble p d us mfa roles grants ca legacy sh log \<and>
      run_state (graph_signIns p tok now) w' = (log, w'')"
    by (auto simp: graph_Snapshot_def simp del: split_paired_Ex split: sum.splits prod.splits; blast)
  then obtain us mfa roles grants ca legacy sh log w' tok now where
    st: "st = graph_assemble p d us mfa roles grants ca legacy sh log"
    and log: "fst (run_state (graph_signIns p tok now) w') = log" by (metis fst_conv)
  obtain es ok msg where e: "log = (es, ok, msg)" by (cases log)
  from log e have "fst (run_state (graph_signIns p tok now) w') = (es, ok, msg)" by simp
  from this [unfolded graph_signIns_def, THEN graph_pages_log] show thesis
    by (rule that [OF st [unfolded e]])
qed

lemma gws_Snapshot_Inr:
  assumes "fst (run_state (gws_Snapshot p d) w) = Inr st"
  obtains us es ok msg where "st = gws_assemble p d us (es, ok, msg)"
    "if ok then msg \<in> {[], gws_truncated_note}
     else msg \<in> {gws_unreadable_note, gws_unparsed_note} \<and> es = []"
    "\<exists>tok now w'. fst (run_state (gws_signIns p tok now) w') = (es, ok, msg)"
proof -
  from assms have "\<exists>us log w' w'' tok now. st = gws_assemble p d us log \<and>
      run_state (gws_signIns p tok now) w' = (log, w'')"
    by (auto simp: gws_Snapshot_def simp del: split_paired_Ex split: sum.splits prod.splits; blast)
  then obtain us log w' tok now where st: "st = gws_assemble p d us log"
    and log: "fst (run_state (gws_signIns p tok now) w') = log" by (metis fst_conv)
  obtain es ok msg where e: "log = (es, ok, msg)" by (cases log)
  from log e have run: "fst (run_state (gws_signIns p tok now) w') = (es, ok, msg)" by simp
  from this [unfolded gws_signIns_def Let_def, THEN gws_pages_log] show thesis
    by (rule that [OF st [unfolded e]]) (use run in blast)
qed

lemma gws_assemble_notes:
  "ts_notes (gws_assemble p d us (es, ok, msg)) =
     (if msg = [] then [] else [msg]) @ (if ok then [gws_login_note] else []) @ gws_limit_notes"
  if "ok \<or> msg \<noteq> []"
  using that by (auto simp: gws_assemble_def gws_add_sign_ins_def gws_limit_notes_def Let_def)

lemma gws_assemble_sels:
  "ts_assessed (gws_assemble p d us (es, ok, msg)) =
     (\<lambda>_. False)(AreaMFA := True, AreaAdminRoles := True, AreaInactiveUser := True,
       AreaEmailAuth := gp_dns p \<noteq> None, AreaSignIn := ok)"
  "ts_sign_ins (gws_assemble p d us (es, ok, msg)) = (if ok then es else [])"
  by (simp_all add: gws_assemble_def gws_add_sign_ins_def gws_limit_notes_def Let_def fun_eq_iff area_defs)

text \<open>The areas a Microsoft snapshot reads, each with the note that admits it was not read.\<close>

definition graph_area_notes :: "(string \<times> string) list" where
  "graph_area_notes =
     [(AreaAdminRoles, graph_roles_note), (AreaOAuth, graph_oauth_note), (AreaConditional, graph_conditional_note),
      (AreaLegacyAuth, graph_legacy_note), (AreaSharing, graph_sharing_note)]"

lemmas graph_note_defs = graph_roles_note_def graph_oauth_note_def graph_conditional_note_def
  graph_legacy_note_def graph_sharing_note_def graph_forward_note_def graph_truncated_note_def
  LicenceNote_def graph_unreadable_note_def graph_unparsed_note_def

lemma graph_notes_distinct:
  "distinct [graph_roles_note, graph_oauth_note, graph_conditional_note, graph_legacy_note, graph_sharing_note,
     graph_forward_note, graph_truncated_note, LicenceNote, graph_unreadable_note, graph_unparsed_note, []]"
  by (simp add: graph_note_defs)

lemma graph_notes_silent:
  "list_all (\<lambda>n. \<not> contains n ''MFA'' \<and> \<not> contains n ''nactive'')
     [graph_roles_note, graph_oauth_note, graph_conditional_note, graph_legacy_note, graph_sharing_note,
      graph_forward_note, graph_truncated_note, LicenceNote, graph_unreadable_note, graph_unparsed_note, []]"
  by code_simp

section \<open>What Workspace sign-ins can trigger\<close>

definition unlocated :: "sign_in \<Rightarrow> bool" where
  "unlocated e \<longleftrightarrow> si_country e = [] \<and> \<not> si_legacy e \<and> \<not> si_single_factor e"

lemma gws_params_unlocated: "unlocated si \<Longrightarrow> unlocated (foldl gws_param_step si ps)"
  by (induction ps arbitrary: si) (auto simp: gws_param_step_def unlocated_def)

lemma gws_item_unlocated: "list_all unlocated (gws_item_sign_ins it)"
proof -
  have "unlocated (gws_sign_in it at kind)" for at kind by (simp add: gws_sign_in_def unlocated_def)
  then show ?thesis
    by (auto simp: gws_item_sign_ins_def gws_event_sign_ins_def Let_def list_all_iff gws_params_unlocated
        split: option.splits if_splits)
qed

lemma gws_pages_unlocated:
  "list_all unlocated out \<Longrightarrow>
     list_all unlocated (fst (fst (run_state (gws_pages n p tok since path out) w)))"
proof (induction n arbitrary: path out w)
  case 0
  then show ?case by simp
next
  case (Suc n)
  have "list_all unlocated (out @ concat (map gws_item_sign_ins items))" for items
    using Suc.prems gws_item_unlocated by (induction items) auto
  from Suc.IH [OF this] show ?case
    by (auto simp: Let_def Suc.prems gws_item_unlocated list_all_iff
        dest: gws_item_unlocated [unfolded list_all_iff, rule_format] split: sum.split option.split prod.split)
      (use Suc.prems gws_item_unlocated in \<open>auto simp: list_all_iff\<close>)
qed

lemma legacy_agg_unlocated: "list_all unlocated es \<Longrightarrow> fold legacy_step es agg = agg"
  by (induction es arbitrary: agg) (auto simp: legacy_step_def unlocated_def)

lemma one_factor_unlocated: "list_all unlocated es \<Longrightarrow> fold (one_factor_step admins) es seen = seen"
  by (induction es arbitrary: seen) (auto simp: one_factor_step_def unlocated_def)

lemma hop_scan_unlocated: "list_all unlocated es \<Longrightarrow> hop_scan prev es = None"
  by (induction es arbitrary: prev) (auto simp: unlocated_def)

lemma unlocated_checks:
  assumes "list_all unlocated (ts_sign_ins st)" "f \<in> set (checkSignIns target st)"
  shows "f_check f = ''tenant.signin-suspicious'' \<or> f_check f = ''tenant.signin-spray''"
proof -
  have legacy: "checkLegacyAuthSuccess target st = []"
    by (simp add: checkLegacyAuthSuccess_def legacy_agg_def legacy_agg_unlocated [OF assms(1)] sortFindings_def)
  have single: "checkAdminSingleFactor target st = []"
    by (simp add: checkAdminSingleFactor_def Let_def one_factor_unlocated [OF assms(1)] sortFindings_def)
  have "f_check g = ''tenant.signin-suspicious''" if "g \<in> set (checkCountryHop target st)" for g
  proof -
    from that obtain usr evs where in_by: "(usr, evs) \<in> set (by_user (ts_sign_ins st))"
      and g: "g \<in> set (hop_user target st (usr, evs))"
      by (auto simp: checkCountryHop_def sortFindings_def)
    have "list_all unlocated (sort_key si_at evs)"
      using in_by assms(1) by (auto simp: by_user_def in_group_by_iff list_all_iff)
    from hop_scan_unlocated [OF this] g show ?thesis
      by (auto simp: Let_def suspicious_finding_def split: option.splits)
  qed
  moreover have "f_check g = ''tenant.signin-spray''" if "g \<in> set (checkSprayLanded target st)" for g
    using that by (auto simp: checkSprayLanded_def sortFindings_def spray_finding_def Let_def split: option.splits)
  ultimately show ?thesis
    using assms(2) by (auto simp: checkSignIns_def legacy single split: if_splits)
qed

section \<open>Properties\<close>


text \<open>A Microsoft tenant that answers only for its users.\<close>

definition users_only :: "unit graph_provider" where
  "users_only =
     \<lparr>mp_token = ret (Inr ''t''),
      mp_fetch = (\<lambda>url _. ret (if url = graph_defaultBase @ graph_users_path then Inr ''{}'' else Inl ''403 Forbidden'')),
      mp_dns = None, mp_base_url = [], mp_now = ret unix_epoch\<rparr>"

lemma users_only_get:
  "graph_get users_only tok path = ret (if path = graph_users_path then Inr ''{}'' else Inl ''403 Forbidden'')"
  by (auto simp: graph_get_def users_only_def graph_base_def)

lemma users_only_paths:
  "graph_reg_path \<noteq> graph_users_path" "graph_sp_path \<noteq> graph_users_path"
  "graph_signins_path now \<noteq> graph_users_path" "''/directoryRoles?$expand=members'' \<noteq> graph_users_path"
  "''/identity/conditionalAccess/policies?$select=state'' \<noteq> graph_users_path"
  "''/policies/authorizationPolicy'' \<noteq> graph_users_path"
  "''/admin/sharepoint/settings?$select=sharingCapability'' \<noteq> graph_users_path"
  by (simp_all add: graph_reg_path_def graph_users_path_def graph_sp_path_def graph_signins_path_def)

lemma empty_body: "Unmarshal (get_list dec ''value'') ''{}'' = Some []"
proof -
  have "json_parse ''{}'' = Some (DObj [])" by code_simp
  then show ?thesis by (simp add: Unmarshal_def obj_fields_def get_list_def field_values_def)
qed

lemma users_only_snapshot:
  "fst (run_state (graph_Snapshot id users_only d) ()) =
     Inr (graph_assemble users_only d [] False None None None None None ([], False, graph_unreadable_note))"
proof -
  have token: "mp_token users_only = ret (Inr ''t'')" "mp_now users_only = ret unix_epoch"
    by (simp_all add: users_only_def)
  have "\<not> premiumLicenceRefused ''403 Forbidden''" by code_simp
  then show ?thesis
    by (simp add: graph_Snapshot_def token graph_users_def graph_read_def users_only_get users_only_paths empty_body
        graph_adminRoles_def graph_oauthGrants_def graph_conditionalAccess_def graph_legacyAuth_def graph_sharing_def
        graph_signIns_def graph_signInPageLimit_def numeral_eq_Suc)
qed


text \<open>
  What a Microsoft snapshot does not admit: inactive accounts are never assessed, the MFA
  registration report may be unread, and no note of any snapshot mentions MFA or inactivity;
  the tenant that answers only for its users shows the gap.
\<close>

theorem graph_gaps_not_noted:
  assumes "fst (run_state (graph_Snapshot order p d) w) = Inr st"
  shows "\<not> ts_assessed st AreaInactiveUser \<and>
    list_all (\<lambda>n. \<not> contains n ''MFA'' \<and> \<not> contains n ''nactive'') (ts_notes st)"
proof -
  from graph_Snapshot_Inr [OF assms] obtain us mfa roles grants ca legacy sh es ok msg where
    st: "st = graph_assemble p d us mfa roles grants ca legacy sh (es, ok, msg)"
    and msg: "if ok then msg \<in> {[], graph_truncated_note}
      else msg \<in> {LicenceNote, graph_unreadable_note, graph_unparsed_note} \<and> es = []" .
  note ts = graph_assemble_notes [of p d us mfa roles grants ca legacy sh es ok msg, folded st]
    graph_assemble_assessed [of p d us mfa roles grants ca legacy sh es ok msg, folded st]
  have "\<not> ts_assessed st AreaInactiveUser" unfolding ts(2) using area_distinct by auto
  moreover have "list_all (\<lambda>n. \<not> contains n ''MFA'' \<and> \<not> contains n ''nactive'') (ts_notes st)"
    unfolding ts(1) using graph_notes_silent msg by (auto simp: note_unless_def split: if_splits)
  ultimately show ?thesis ..
qed

theorem graph_gaps_not_noted_witness:
  "\<exists>st. fst (run_state (graph_Snapshot id users_only ''a.com'') ()) = Inr st \<and> \<not> ts_assessed st AreaMFA \<and>
     list_all (\<lambda>n. \<not> contains n ''MFA'' \<and> \<not> contains n ''nactive'') (ts_notes st)"
proof -
  have "\<not> ts_assessed (graph_assemble users_only ''a.com'' [] False None None None None None
      ([], False, graph_unreadable_note)) AreaMFA"
    by (simp add: graph_assemble_assessed area_defs)
  with graph_gaps_not_noted [OF users_only_snapshot [of "''a.com''"]] users_only_snapshot [of "''a.com''"]
  show ?thesis by blast
qed

text \<open>
  Of the sign-in checks only two can ever fire on a Google Workspace snapshot, whatever the
  login audit holds: the provider's own suspicion and the landed spray. Legacy sign-ins,
  administrators with one factor and country hops are never reported there.
\<close>

theorem gws_sign_in_checks:
  assumes "fst (run_state (gws_Snapshot p d) w) = Inr st" "f \<in> set (checkSignIns target st)"
  shows "f_check f = ''tenant.signin-suspicious'' \<or> f_check f = ''tenant.signin-spray''"
proof (rule unlocated_checks [OF _ assms(2)])
  from gws_Snapshot_Inr [OF assms(1)] obtain us es ok msg tok now w' where
    st: "st = gws_assemble p d us (es, ok, msg)"
    and run: "fst (run_state (gws_signIns p tok now) w') = (es, ok, msg)" by metis
  have "list_all unlocated (fst (fst (run_state (gws_signIns p tok now) w')))"
    unfolding gws_signIns_def Let_def by (rule gws_pages_unlocated) simp
  then have "list_all unlocated es" using run by simp
  then show "list_all unlocated (ts_sign_ins st)" by (simp add: st gws_assemble_sels)
qed

text \<open>A Workspace tenant without users whose audit holds one login that Google flagged.\<close>

definition flagged_body :: string where
  "flagged_body =
     (let q = (\<lambda>s. [CHR 0x22] @ s @ [CHR 0x22]) in
       concat [''{'', q ''items'', '':[{'', q ''id'', '':{'', q ''time'', '':'', q ''2024-01-01T00:00:00Z'', ''},'',
          q ''events'', '':[{'', q ''name'', '':'', q ''login_success'', '','', q ''parameters'', '':[{'', q ''name'', '':'',
          q ''is_suspicious'', '','', q ''boolValue'', '':true}]}]}]}''])"

definition flagged_provider :: "string list gws_provider" where
  "flagged_provider = \<lparr>gp_token = ret (Inr ''t''), gp_fetch = served_bodies, gp_dns = None, gp_base = [], gp_reports = [],
     gp_now = ret unix_epoch\<rparr>"

definition flagged_login :: sign_in where
  "flagged_login = \<lparr>si_user = [], si_at = unix_epoch + 1704067200 * second, si_success = True, si_country = [],
     si_ip = [], si_client = [], si_legacy = False, si_single_factor = False, si_suspicious = True,
     si_failure_code = []\<rparr>"

lemma flagged_page:
  "map_option (\<lambda>(items, next). (concat (map gws_item_sign_ins items), next)) (Unmarshal dec_gws_page flagged_body) =
     Some ([flagged_login], [])"
  by code_simp

lemma flagged_snapshot:
  "fst (run_state (gws_Snapshot flagged_provider d) [''{}'', flagged_body]) =
     Inr (gws_assemble flagged_provider d [] ([flagged_login], True, []))"
proof -
  obtain items where items: "Unmarshal dec_gws_page flagged_body = Some (items, [])"
    "concat (map gws_item_sign_ins items) = [flagged_login]"
    using flagged_page by (cases "Unmarshal dec_gws_page flagged_body") auto
  have "json_parse ''{}'' = Some (DObj [])" by code_simp
  then have users: "Unmarshal (get_list dec ''users'') ''{}'' = Some []" for dec
    by (simp add: Unmarshal_def obj_fields_def get_list_def field_values_def)
  have p: "gp_token flagged_provider = ret (Inr ''t'')" "gp_fetch flagged_provider = served_bodies"
    "gp_now flagged_provider = ret unix_epoch"
    by (simp_all add: flagged_provider_def)
  show ?thesis
    by (simp add: gws_Snapshot_def p gws_users_def Let_def users gws_signIns_def gws_signInPageLimit_def
        numeral_eq_Suc items)
qed

theorem gws_sign_in_checks_witness:
  "\<exists>st f. fst (run_state (gws_Snapshot flagged_provider ''a.com'') [''{}'', flagged_body]) = Inr st \<and>
     f \<in> set (checkSignIns ''gws:a.com'' st) \<and>
     (f_check f = ''tenant.signin-suspicious'' \<or> f_check f = ''tenant.signin-spray'')"
proof -
  let ?st = "gws_assemble flagged_provider ''a.com'' [] ([flagged_login], True, [])"
  let ?f = "suspicious_finding ''gws:a.com'' ?st [] flagged_login"
  have log: "ts_sign_ins ?st = [flagged_login]" "ts_assessed ?st AreaSignIn"
    by (simp_all add: gws_assemble_sels)
  have "?f \<in> set (hop_user ''gws:a.com'' ?st ([], [flagged_login]))"
    by (simp add: flagged_login_def)
  moreover have "([], [flagged_login]) \<in> set (by_user [flagged_login])"
    by (simp add: by_user_def in_group_by_iff flagged_login_def to_lower_def)
  ultimately have "?f \<in> set (checkCountryHop ''gws:a.com'' ?st)"
    by (auto simp: checkCountryHop_def sortFindings_def log simp del: hop_user.simps)
  then have "?f \<in> set (checkSignIns ''gws:a.com'' ?st)" by (simp add: checkSignIns_def log)
  with flagged_snapshot gws_sign_in_checks [OF flagged_snapshot this] show ?thesis by blast
qed



section \<open>Merged app consents\<close>

definition grants_of :: "graph_grant list \<Rightarrow> string \<Rightarrow> graph_grant list" where
  "grants_of gs c = filter (\<lambda>g. gg_client g = c) gs"

lemma appendUnique_props:
  "distinct s \<Longrightarrow> distinct (foldl appendUnique s vs) \<and> set (foldl appendUnique s vs) = set s \<union> set vs"
  by (induction vs arbitrary: s) (auto simp: appendUnique_def)

definition merged_ok :: "(string \<times> sp_info) list \<Rightarrow> graph_grant list \<Rightarrow> oauth_grant \<Rightarrow> bool" where
  "merged_ok sps mine og \<longleftrightarrow>
     distinct (g_scopes og) \<and> set (g_scopes og) = (\<Union>g \<in> set mine. set (str_fields (gg_scope g))) \<and>
     g_consent og = (if list_ex (\<lambda>g. equal_fold (gg_consent g) ''AllPrincipals'') mine then ''AllPrincipals''
                     else gg_consent (hd mine)) \<and>
     g_app_id og = g_app_id (new_grant sps (hd mine)) \<and> g_app_name og = g_app_name (new_grant sps (hd mine)) \<and>
     g_publisher og = g_publisher (new_grant sps (hd mine))"

lemma merge_grant_first: "merged_ok sps [g] (merge_grant sps g None)"
  using appendUnique_props [of "[]" "str_fields (gg_scope g)"]
  by (simp add: merged_ok_def merge_grant_def new_grant_def Let_def)

lemma merge_grant_next:
  assumes "merged_ok sps mine og" "mine \<noteq> []"
  shows "merged_ok sps (mine @ [g]) (merge_grant sps g (Some og))"
proof -
  have "distinct (g_scopes og)" using assms(1) by (simp add: merged_ok_def)
  from appendUnique_props [OF this, of "str_fields (gg_scope g)"] assms show ?thesis
    by (auto simp: merged_ok_def merge_grant_def Let_def)
qed

lemma merge_grants_ok:
  "distinct (map fst (merge_grants sps gs)) \<and> fst ` set (merge_grants sps gs) = gg_client ` set gs \<and>
   (\<forall>c og. map_of (merge_grants sps gs) c = Some og \<longrightarrow> merged_ok sps (grants_of gs c) og)"
proof (induction gs rule: rev_induct)
  case Nil
  then show ?case by (simp add: merge_grants_def)
next
  case (snoc g gs)
  let ?m = "merge_grants sps gs" and ?c = "gg_client g"
  have m: "merge_grants sps (gs @ [g]) = amap_upd ?c (merge_grant sps g) ?m" by (simp add: merge_grants_def)
  have split: "grants_of (gs @ [g]) c = grants_of gs c @ (if c = ?c then [g] else [])" for c
    by (simp add: grants_of_def)
  have "merged_ok sps (grants_of (gs @ [g]) ?c) (merge_grant sps g (map_of ?m ?c))"
  proof (cases "map_of ?m ?c")
    case None
    then have "?c \<notin> gg_client ` set gs" using snoc by (metis map_of_eq_None_iff)
    then have "grants_of gs ?c = []" unfolding grants_of_def filter_empty_conv by (metis image_eqI)
    then show ?thesis using None merge_grant_first by (simp add: split)
  next
    case (Some og)
    then have "?c \<in> gg_client ` set gs" using snoc by (metis image_eqI map_of_SomeD fst_conv)
    then have "grants_of gs ?c \<noteq> []" by (force simp: grants_of_def filter_empty_conv)
    then show ?thesis using Some snoc merge_grant_next by (simp add: split)
  qed
  then show ?case using snoc by (auto simp: m split keys_amap_upd split: if_splits)
qed

text \<open>
  The third-party consents of a Microsoft tenant become one grant for each client that has
  any: its scopes are exactly the scopes of all its consents, each once; it is organisation-wide
  as soon as one consent is, and keeps the first consent's type otherwise; its name, app id and
  publisher are those of the client's service principal.
\<close>

theorem grants_merged:
  "distinct (map fst (merge_grants sps gs)) \<and> fst ` set (merge_grants sps gs) = gg_client ` set gs \<and>
   list_all (\<lambda>(c, og). merged_ok sps (grants_of gs c) og) (merge_grants sps gs)"
  using merge_grants_ok [of sps gs] by (auto simp: list_all_iff)

end
