(* ===== verification/Store.thy ===== *)
theory Store
  imports Finding
begin

text \<open>
  Persistence (package \<open>store\<close>): the record the engine keeps (\<open>store/store.go\<close>), the
  store interface with its laws as a locale, and the in-memory store of
  \<open>store/memory.go\<close>, which implements it.
\<close>

section \<open>Records and the interface\<close>

text \<open>A record is a finding with the bookkeeping of the engine.\<close>

record store_rec = finding +
  r_absent_streak :: int

definition to_record :: "finding \<Rightarrow> store_rec" where
  "to_record f = finding.extend f \<lparr>r_absent_streak = 0\<rparr>"

definition to_finding :: "store_rec \<Rightarrow> finding" where
  "to_finding r = finding.truncate r"

lemma to_record_simps [simp]:
  "f_fingerprint (to_record f) = f_fingerprint f" "f_target (to_record f) = f_target f"
  "f_check (to_record f) = f_check f" "f_title (to_record f) = f_title f"
  "f_severity (to_record f) = f_severity f" "f_remediation (to_record f) = f_remediation f"
  "f_evidence (to_record f) = f_evidence f" "f_id (to_record f) = f_id f"
  "f_module (to_record f) = f_module f" "f_status (to_record f) = f_status f"
  "f_group (to_record f) = f_group f" "f_first_seen (to_record f) = f_first_seen f"
  "f_last_seen (to_record f) = f_last_seen f" "f_resolved_at (to_record f) = f_resolved_at f"
  "r_absent_streak (to_record f) = 0"
  by (cases f; simp add: to_record_def finding.defs)+

lemma to_finding_simps [simp]:
  "f_fingerprint (to_finding r) = f_fingerprint r" "f_target (to_finding r) = f_target r"
  "f_check (to_finding r) = f_check r" "f_title (to_finding r) = f_title r"
  "f_severity (to_finding r) = f_severity r" "f_remediation (to_finding r) = f_remediation r"
  "f_evidence (to_finding r) = f_evidence r" "f_id (to_finding r) = f_id r"
  "f_module (to_finding r) = f_module r" "f_status (to_finding r) = f_status r"
  "f_group (to_finding r) = f_group r" "f_first_seen (to_finding r) = f_first_seen r"
  "f_last_seen (to_finding r) = f_last_seen r" "f_resolved_at (to_finding r) = f_resolved_at r"
  by (cases r; simp add: to_finding_def finding.defs)+

datatype store_error = StoreError string

text \<open>The operations the reconcile engine calls; reads may fail, writes return the new store.\<close>

record 's store_ops =
  op_list_by_target :: "'s \<Rightarrow> string \<Rightarrow> string \<Rightarrow> store_error + store_rec list"
  op_upsert :: "'s \<Rightarrow> store_rec \<Rightarrow> store_error + 's"

text \<open>
  The contract of a store. \<open>lookup s m fp\<close> is the record stored under module and
  fingerprint, \<open>ok\<close> the module names the store supports, \<open>inv\<close> its representation
  invariant. Writing a record is required to be exact for a new key and for a record that
  agrees with the stored one on the fields a store need not update (id, target, check and
  first-seen time).
\<close>

definition same_identity :: "store_rec \<Rightarrow> store_rec \<Rightarrow> bool" where
  "same_identity r r' \<longleftrightarrow> f_id r = f_id r' \<and> f_target r = f_target r' \<and> f_check r = f_check r' \<and>
     f_first_seen r = f_first_seen r'"

locale record_store =
  fixes ops :: "'s store_ops"
    and lookup :: "'s \<Rightarrow> string \<Rightarrow> string \<Rightarrow> store_rec option"
    and ok :: "string \<Rightarrow> bool"
    and inv :: "'s \<Rightarrow> bool"
  assumes lookup_key: "inv s \<Longrightarrow> ok m \<Longrightarrow> lookup s m fp = Some r \<Longrightarrow> f_module r = m \<and> f_fingerprint r = fp"
    and list_set: "inv s \<Longrightarrow> ok m \<Longrightarrow> op_list_by_target ops s m t = Inr rs \<Longrightarrow>
      set rs = {r. f_target r = t \<and> lookup s m (f_fingerprint r) = Some r}"
    and list_distinct: "inv s \<Longrightarrow> ok m \<Longrightarrow> op_list_by_target ops s m t = Inr rs \<Longrightarrow>
      distinct (map f_fingerprint rs)"
    and upsert_inv: "inv s \<Longrightarrow> ok (f_module r) \<Longrightarrow> op_upsert ops s r = Inr s' \<Longrightarrow> inv s'"
    and upsert_same: "inv s \<Longrightarrow> ok (f_module r) \<Longrightarrow> op_upsert ops s r = Inr s' \<Longrightarrow>
      (\<forall>old. lookup s (f_module r) (f_fingerprint r) = Some old \<longrightarrow> same_identity r old) \<Longrightarrow>
      lookup s' (f_module r) (f_fingerprint r) = Some r"
    and upsert_other: "inv s \<Longrightarrow> ok (f_module r) \<Longrightarrow> ok m \<Longrightarrow> op_upsert ops s r = Inr s' \<Longrightarrow>
      (m, fp) \<noteq> (f_module r, f_fingerprint r) \<Longrightarrow> lookup s' m fp = lookup s m fp"
begin

lemma list_mem:
  assumes "inv s" "ok m" "op_list_by_target ops s m t = Inr rs" "r \<in> set rs"
  shows "f_target r = t \<and> f_module r = m \<and> lookup s m (f_fingerprint r) = Some r"
  using assms list_set [OF assms(1-3)] lookup_key by blast

lemma upsert_lookup:
  assumes "inv s" "ok (f_module r)" "ok m" "op_upsert ops s r = Inr s'"
    "\<forall>old. lookup s (f_module r) (f_fingerprint r) = Some old \<longrightarrow> same_identity r old"
  shows "lookup s' m fp =
    (if (m, fp) = (f_module r, f_fingerprint r) then Some r else lookup s m fp)"
  using upsert_same [OF assms(1,2,4,5)] upsert_other [OF assms(1-4)] by auto

end

text \<open>A store whose operations never fail.\<close>

locale total_record_store = record_store +
  assumes list_total: "\<exists>rs. op_list_by_target ops s m t = Inr rs"
    and upsert_total: "\<exists>s'. op_upsert ops s r = Inr s'"

section \<open>The in-memory store\<close>

text \<open>
  \<open>recs\<close> is a Go map keyed by the string \<open>module + "\x00" + fingerprint\<close>; \<open>targets\<close>
  maps a module to its saved targets in insertion order and is a nil map (\<open>None\<close>) until the
  first target is saved. Go returns listings in map order,
  here it is first-insertion order. Locking is not modelled.
\<close>

record mem_store =
  ms_recs :: "(string \<times> store_rec) list"
  ms_targets :: "(string \<times> (string \<times> string) list) list option"

definition NewMemStore :: mem_store where
  "NewMemStore = \<lparr>ms_recs = [], ms_targets = None\<rparr>"

definition store_key :: "string \<Rightarrow> string \<Rightarrow> string" where
  "store_key module fingerprint = module @ [CHR 0x00] @ fingerprint"

definition mem_ListByTarget :: "mem_store \<Rightarrow> string \<Rightarrow> string \<Rightarrow> store_error + store_rec list" where
  "mem_ListByTarget m module target =
     Inr (filter (\<lambda>r. f_module r = module \<and> f_target r = target) (map snd (ms_recs m)))"

definition mem_Upsert :: "mem_store \<Rightarrow> store_rec \<Rightarrow> store_error + mem_store" where
  "mem_Upsert m r =
     Inr (m\<lparr>ms_recs := amap_put (store_key (f_module r) (f_fingerprint r)) r (ms_recs m)\<rparr>)"

definition mem_Get :: "mem_store \<Rightarrow> string \<Rightarrow> string \<Rightarrow> store_rec option" where
  "mem_Get m module fingerprint = map_of (ms_recs m) (store_key module fingerprint)"

definition mem_ListOpen :: "mem_store \<Rightarrow> string \<Rightarrow> store_rec list" where
  "mem_ListOpen m module =
     filter (\<lambda>r. f_module r = module \<and> f_status r = ''open'') (map snd (ms_recs m))"

definition mem_ListAll :: "mem_store \<Rightarrow> string \<Rightarrow> store_rec list" where
  "mem_ListAll m module = filter (\<lambda>r. f_module r = module) (map snd (ms_recs m))"

definition mem_targets_of :: "mem_store \<Rightarrow> string \<Rightarrow> (string \<times> string) list" where
  "mem_targets_of m module = (case ms_targets m of None \<Rightarrow> []
     | Some tm \<Rightarrow> (case map_of tm module of None \<Rightarrow> [] | Some ts \<Rightarrow> ts))"

definition mem_SaveTarget :: "mem_store \<Rightarrow> string \<Rightarrow> string \<Rightarrow> string \<Rightarrow> mem_store" where
  "mem_SaveTarget m0 module raw canonical =
     (let m = (if ms_targets m0 = None then m0\<lparr>ms_targets := Some []\<rparr> else m0)
      in if list_ex (\<lambda>(r, c). c = canonical) (mem_targets_of m module) then m
         else m\<lparr>ms_targets := map_option
                  (amap_put module (mem_targets_of m module @ [(raw, canonical)])) (ms_targets m)\<rparr>)"

text \<open>
  \<open>DeleteTarget\<close> assigns to \<open>m.targets[module]\<close> without making the map first, so on a nil
  map it panics: \<open>None\<close>.
\<close>

definition mem_DeleteTarget :: "mem_store \<Rightarrow> string \<Rightarrow> string \<Rightarrow> mem_store option" where
  "mem_DeleteTarget m module canonical =
     (case ms_targets m of
        None \<Rightarrow> None
      | Some tm \<Rightarrow> Some (m\<lparr>ms_targets := Some (amap_put module
          (filter (\<lambda>(r, c). c \<noteq> canonical) (mem_targets_of m module)) tm)\<rparr>))"

definition mem_ListSavedTargets :: "mem_store \<Rightarrow> string \<Rightarrow> string list" where
  "mem_ListSavedTargets m module = map fst (mem_targets_of m module)"

definition mem_ops :: "mem_store store_ops" where
  "mem_ops = \<lparr>op_list_by_target = mem_ListByTarget, op_upsert = mem_Upsert\<rparr>"

section \<open>The in-memory store keeps the contract\<close>

definition ok_module :: "string \<Rightarrow> bool" where
  "ok_module m \<longleftrightarrow> CHR 0x00 \<notin> set m"

definition mem_inv :: "mem_store \<Rightarrow> bool" where
  "mem_inv m \<longleftrightarrow> amap_inv (ms_recs m) \<and>
     (\<forall>(k, r) \<in> set (ms_recs m). k = store_key (f_module r) (f_fingerprint r) \<and> ok_module (f_module r))"

lemma store_key_inj:
  "ok_module m \<Longrightarrow> ok_module m' \<Longrightarrow> store_key m fp = store_key m' fp' \<longleftrightarrow> m = m' \<and> fp = fp'"
  using sep_inj by (simp add: ok_module_def store_key_def)

lemma mem_inv_new [simp]: "mem_inv NewMemStore"
  by (simp add: mem_inv_def NewMemStore_def)

lemma mem_Get_new [simp]: "mem_Get NewMemStore m fp = None"
  by (simp add: mem_Get_def NewMemStore_def)

lemma mem_inv_rec:
  "mem_inv s \<Longrightarrow> (k, r) \<in> set (ms_recs s) \<Longrightarrow>
     k = store_key (f_module r) (f_fingerprint r) \<and> ok_module (f_module r) \<and>
     mem_Get s (f_module r) (f_fingerprint r) = Some r"
  by (fastforce simp: mem_inv_def mem_Get_def)

lemma mem_Get_Some:
  assumes "mem_inv s" "ok_module m" "mem_Get s m fp = Some r"
  shows "f_module r = m \<and> f_fingerprint r = fp \<and> r \<in> snd ` set (ms_recs s)"
proof -
  from assms(3) have mem: "(store_key m fp, r) \<in> set (ms_recs s)"
    by (simp add: mem_Get_def map_of_SomeD)
  from mem_inv_rec [OF assms(1) this] store_key_inj [OF assms(2), of "f_module r"] mem
  show ?thesis by (force simp: image_iff)
qed

lemma mem_list_set:
  assumes "mem_inv s" "ok_module m"
  shows "set (filter (\<lambda>r. f_module r = m \<and> f_target r = t) (map snd (ms_recs s))) =
    {r. f_target r = t \<and> mem_Get s m (f_fingerprint r) = Some r}"
proof (intro set_eqI iffI)
  fix r assume "r \<in> set (filter (\<lambda>r. f_module r = m \<and> f_target r = t) (map snd (ms_recs s)))"
  then obtain k where "(k, r) \<in> set (ms_recs s)" "f_module r = m" "f_target r = t" by auto
  with mem_inv_rec [OF assms(1)] show "r \<in> {r. f_target r = t \<and> mem_Get s m (f_fingerprint r) = Some r}"
    by blast
next
  fix r assume "r \<in> {r. f_target r = t \<and> mem_Get s m (f_fingerprint r) = Some r}"
  then show "r \<in> set (filter (\<lambda>r. f_module r = m \<and> f_target r = t) (map snd (ms_recs s)))"
    using mem_Get_Some [OF assms, of "f_fingerprint r" r] by auto
qed

lemma mem_list_distinct:
  assumes "mem_inv s" "ok_module m"
  shows "distinct (map f_fingerprint (filter (\<lambda>r. f_module r = m \<and> f_target r = t) (map snd (ms_recs s))))"
proof -
  let ?P = "\<lambda>r. f_module r = m \<and> f_target r = t"
  have "distinct (map fst xs) \<Longrightarrow> \<forall>(k, r) \<in> set xs. k = store_key (f_module r) (f_fingerprint r) \<Longrightarrow>
      distinct (map f_fingerprint (filter ?P (map snd xs)))" for xs :: "(string \<times> store_rec) list"
    by (induction xs) force+
  then show ?thesis using assms(1) by (auto simp: mem_inv_def case_prod_beta)
qed

lemma mem_upsert_inv: "mem_inv s \<Longrightarrow> ok_module (f_module r) \<Longrightarrow> mem_Upsert s r = Inr s' \<Longrightarrow> mem_inv s'"
  using set_amap_put by (fastforce simp: mem_inv_def mem_Upsert_def)

interpretation mem: total_record_store mem_ops mem_Get ok_module mem_inv
proof unfold_locales
  fix s m fp r assume "mem_inv s" "ok_module m" "mem_Get s m fp = Some r"
  then show "f_module r = m \<and> f_fingerprint r = fp" using mem_Get_Some by blast
next
  fix s m t rs assume "mem_inv s" "ok_module m" "op_list_by_target mem_ops s m t = Inr rs"
  then show "set rs = {r. f_target r = t \<and> mem_Get s m (f_fingerprint r) = Some r}"
    using mem_list_set by (auto simp: mem_ops_def mem_ListByTarget_def)
next
  fix s m t rs assume "mem_inv s" "ok_module m" "op_list_by_target mem_ops s m t = Inr rs"
  then show "distinct (map f_fingerprint rs)"
    using mem_list_distinct by (auto simp: mem_ops_def mem_ListByTarget_def)
next
  fix s r s' assume "mem_inv s" "ok_module (f_module r)" "op_upsert mem_ops s r = Inr s'"
  then show "mem_inv s'" by (auto simp: mem_ops_def intro: mem_upsert_inv)
next
  fix s r s' assume "op_upsert mem_ops s r = Inr s'"
  then show "mem_Get s' (f_module r) (f_fingerprint r) = Some r"
    by (auto simp: mem_ops_def mem_Upsert_def mem_Get_def)
next
  fix s r m s' fp assume "ok_module (f_module r)" "ok_module m" "op_upsert mem_ops s r = Inr s'"
    "(m, fp) \<noteq> (f_module r, f_fingerprint r)"
  then show "mem_Get s' m fp = mem_Get s m fp"
    by (auto simp: mem_ops_def mem_Upsert_def mem_Get_def store_key_inj)
qed (simp_all add: mem_ops_def mem_ListByTarget_def mem_Upsert_def)

end
