(* ===== verification/Reconcile.thy ===== *)
theory Reconcile
  imports Store
begin

text \<open>
  The reconcile engine of \<open>store/reconcile.go\<close>, over any store. The injected clock is the
  instant \<open>now\<close>; the injected id generator is \<open>newID now n\<close>, the outcome of its \<open>n\<close>-th
  call (\<open>None\<close> when it returns an error). A failing store write or id ends the run with
  what was done so far, as the early returns do.
\<close>

section \<open>Definitions\<close>

record reconcile_result =
  rr_newly_open :: "finding list"
  rr_resolved :: "finding list"
  rr_rejected :: "(finding \<times> ingest_error) list"

definition empty_result :: reconcile_result where
  "empty_result = \<lparr>rr_newly_open = [], rr_resolved = [], rr_rejected = []\<rparr>"

datatype reconcile_error = FromStore store_error | IdFailed

type_synonym id_gen = "time \<Rightarrow> nat \<Rightarrow> string option"

definition capEvidence :: "finding \<Rightarrow> finding" where
  "capEvidence f =
     (case f_evidence f of
        None \<Rightarrow> f
      | Some ev \<Rightarrow>
          (case json_marshal (JMap ev) of
             None \<Rightarrow> f\<lparr>f_evidence := Some [(''_error'', JStr ''evidence not serialisable; dropped'')]\<rparr>
           | Some b \<Rightarrow>
               if length b > MaxEvidenceBytes
               then f\<lparr>f_evidence := Some
                      [(''_truncated'', JBool True), (''_original_bytes'', JInt (int (length b))),
                       (''_note'', JStr ''evidence exceeded MaxEvidenceBytes and was dropped'')]\<rparr>
               else f))"

definition new_record :: "string \<Rightarrow> time \<Rightarrow> string \<Rightarrow> finding \<Rightarrow> store_rec" where
  "new_record module now i f =
     (to_record f)\<lparr>f_id := i, f_module := module, f_status := StatusOpen,
        f_first_seen := now, f_last_seen := now, r_absent_streak := 0\<rparr>"

definition merged_record :: "time \<Rightarrow> finding \<Rightarrow> store_rec \<Rightarrow> store_rec" where
  "merged_record now f prev =
     (let m = prev\<lparr>f_title := f_title f, f_severity := f_severity f,
                f_remediation := f_remediation f, f_evidence := f_evidence f,
                f_last_seen := now, r_absent_streak := 0\<rparr>
      in if f_status prev = StatusResolved
         then m\<lparr>f_status := StatusOpen, f_resolved_at := None\<rparr> else m)"

record 's rstate =
  rs_store :: 's
  rs_seen :: "string list"
  rs_res :: reconcile_result
  rs_ids :: nat

definition ingest_step ::
  "'s store_ops \<Rightarrow> id_gen \<Rightarrow> time \<Rightarrow> string \<Rightarrow> (string \<Rightarrow> store_rec option) \<Rightarrow>
     finding \<Rightarrow> 's rstate \<Rightarrow> 's rstate \<times> reconcile_error option" where
  "ingest_step ops newID now mid byFP f0 st =
     (case ValidateForIngest f0 of
        Some e \<Rightarrow>
          (st\<lparr>rs_res := (rs_res st)\<lparr>rr_rejected := rr_rejected (rs_res st) @ [(f0, e)]\<rparr>\<rparr>, None)
      | None \<Rightarrow>
          let f = capEvidence f0;
              st1 = st\<lparr>rs_seen := rs_seen st @ [f_fingerprint f]\<rparr>
          in case byFP (f_fingerprint f) of
               None \<Rightarrow>
                 let st2 = st1\<lparr>rs_ids := Suc (rs_ids st1)\<rparr>
                 in (case newID now (rs_ids st1) of
                       None \<Rightarrow> (st2, Some IdFailed)
                     | Some i \<Rightarrow>
                         let r = new_record mid now i f
                         in (case op_upsert ops (rs_store st2) r of
                               Inl e \<Rightarrow> (st2, Some (FromStore e))
                             | Inr s' \<Rightarrow>
                                 (st2\<lparr>rs_store := s',
                                    rs_res := (rs_res st2)\<lparr>rr_newly_open :=
                                      rr_newly_open (rs_res st2) @ [to_finding r]\<rparr>\<rparr>, None)))
             | Some prev \<Rightarrow>
                 let merged = merged_record now f prev
                 in (case op_upsert ops (rs_store st1) merged of
                       Inl e \<Rightarrow> (st1, Some (FromStore e))
                     | Inr s' \<Rightarrow>
                         (if f_status prev = StatusResolved
                          then st1\<lparr>rs_store := s',
                                 rs_res := (rs_res st1)\<lparr>rr_newly_open :=
                                   rr_newly_open (rs_res st1) @ [to_finding merged]\<rparr>\<rparr>
                          else st1\<lparr>rs_store := s'\<rparr>, None)))"

fun ingest_loop ::
  "'s store_ops \<Rightarrow> id_gen \<Rightarrow> time \<Rightarrow> string \<Rightarrow> (string \<Rightarrow> store_rec option) \<Rightarrow>
     finding list \<Rightarrow> 's rstate \<Rightarrow> 's rstate \<times> reconcile_error option" where
  "ingest_loop ops newID now mid byFP [] st = (st, None)"
| "ingest_loop ops newID now mid byFP (f # fs) st =
     (case ingest_step ops newID now mid byFP f st of
        (st', Some e) \<Rightarrow> (st', Some e)
      | (st', None) \<Rightarrow> ingest_loop ops newID now mid byFP fs st')"

text \<open>One record the collector no longer reports: its streak grows, and it may resolve.\<close>

definition age_record :: "int \<Rightarrow> time \<Rightarrow> store_rec \<Rightarrow> store_rec" where
  "age_record threshold now r0 =
     (let r = r0\<lparr>r_absent_streak := r_absent_streak r0 + 1\<rparr>
      in if r_absent_streak r \<ge> threshold
         then r\<lparr>f_status := StatusResolved, f_resolved_at := Some now\<rparr> else r)"

definition resolve_step ::
  "'s store_ops \<Rightarrow> time \<Rightarrow> int \<Rightarrow> store_rec \<Rightarrow> 's rstate \<Rightarrow> 's rstate \<times> reconcile_error option" where
  "resolve_step ops now threshold r st =
     (if f_fingerprint r \<in> set (rs_seen st) then (st, None)
      else if f_status r = StatusResolved \<or> f_status r = StatusSuppressed then (st, None)
      else
        let r' = age_record threshold now r;
            st1 = (if r_absent_streak r' \<ge> threshold
                   then st\<lparr>rs_res := (rs_res st)\<lparr>rr_resolved := rr_resolved (rs_res st) @ [to_finding r']\<rparr>\<rparr>
                   else st)
        in (case op_upsert ops (rs_store st1) r' of
              Inl e \<Rightarrow> (st1, Some (FromStore e))
            | Inr s' \<Rightarrow> (st1\<lparr>rs_store := s'\<rparr>, None)))"

fun resolve_loop ::
  "'s store_ops \<Rightarrow> time \<Rightarrow> int \<Rightarrow> store_rec list \<Rightarrow> 's rstate \<Rightarrow> 's rstate \<times> reconcile_error option" where
  "resolve_loop ops now threshold [] st = (st, None)"
| "resolve_loop ops now threshold (r # rs) st =
     (case resolve_step ops now threshold r st of
        (st', Some e) \<Rightarrow> (st', Some e)
      | (st', None) \<Rightarrow> resolve_loop ops now threshold rs st')"

definition by_fingerprint :: "store_rec list \<Rightarrow> string \<Rightarrow> store_rec option" where
  "by_fingerprint existing = map_of (map (\<lambda>r. (f_fingerprint r, r)) (rev existing))"

definition Reconcile ::
  "'s store_ops \<Rightarrow> id_gen \<Rightarrow> time \<Rightarrow> module_info \<Rightarrow> string \<Rightarrow> finding list \<Rightarrow> 's \<Rightarrow>
     's \<times> reconcile_result \<times> reconcile_error option" where
  "Reconcile ops newID now mi target fresh s =
     (case op_list_by_target ops s (mi_id mi) target of
        Inl e \<Rightarrow> (s, empty_result, Some (FromStore e))
      | Inr existing \<Rightarrow>
          let st0 = \<lparr>rs_store = s, rs_seen = [], rs_res = empty_result, rs_ids = 0\<rparr>
          in (case ingest_loop ops newID now (mi_id mi) (by_fingerprint existing) fresh st0 of
                (st1, Some e) \<Rightarrow> (rs_store st1, rs_res st1, Some e)
              | (st1, None) \<Rightarrow>
                  (case resolve_loop ops now (ResolveAfterOrDefault mi) existing st1 of
                     (st2, err) \<Rightarrow> (rs_store st2, rs_res st2, err))))"

section \<open>Views of the records the engine writes\<close>

lemma capEvidence_simps [simp]:
  "f_fingerprint (capEvidence f) = f_fingerprint f" "f_target (capEvidence f) = f_target f"
  "f_check (capEvidence f) = f_check f" "f_title (capEvidence f) = f_title f"
  "f_severity (capEvidence f) = f_severity f" "f_remediation (capEvidence f) = f_remediation f"
  "f_resolved_at (capEvidence f) = f_resolved_at f"
  by (simp_all add: capEvidence_def split: option.splits)

lemma new_record_simps [simp]:
  "f_fingerprint (new_record m now i f) = f_fingerprint f" "f_module (new_record m now i f) = m"
  "f_target (new_record m now i f) = f_target f" "f_status (new_record m now i f) = StatusOpen"
  "r_absent_streak (new_record m now i f) = 0" "f_first_seen (new_record m now i f) = now"
  "f_last_seen (new_record m now i f) = now" "f_severity (new_record m now i f) = f_severity f"
  "f_title (new_record m now i f) = f_title f" "f_id (new_record m now i f) = i"
  by (simp_all add: new_record_def)

lemma merged_record_simps [simp]:
  "f_fingerprint (merged_record now f r) = f_fingerprint r" "f_module (merged_record now f r) = f_module r"
  "f_target (merged_record now f r) = f_target r" "f_check (merged_record now f r) = f_check r"
  "f_id (merged_record now f r) = f_id r" "f_first_seen (merged_record now f r) = f_first_seen r"
  "r_absent_streak (merged_record now f r) = 0" "f_last_seen (merged_record now f r) = now"
  "f_status (merged_record now f r) = (if f_status r = StatusResolved then StatusOpen else f_status r)"
  "f_severity (merged_record now f r) = f_severity f" "f_title (merged_record now f r) = f_title f"
  by (simp_all add: merged_record_def Let_def)

lemma age_record_simps [simp]:
  "f_fingerprint (age_record k now r) = f_fingerprint r" "f_module (age_record k now r) = f_module r"
  "f_target (age_record k now r) = f_target r" "f_check (age_record k now r) = f_check r"
  "f_id (age_record k now r) = f_id r" "f_first_seen (age_record k now r) = f_first_seen r"
  "r_absent_streak (age_record k now r) = r_absent_streak r + 1"
  "f_status (age_record k now r) = (if k \<le> r_absent_streak r + 1 then StatusResolved else f_status r)"
  by (simp_all add: age_record_def Let_def)

lemma same_identity_merged [simp]: "same_identity (merged_record now f r) r"
  by (simp add: same_identity_def)

lemma same_identity_age [simp]: "same_identity (age_record k now r) r"
  by (simp add: same_identity_def)

lemma by_fingerprint_Some:
  "distinct (map f_fingerprint rs) \<Longrightarrow> by_fingerprint rs fp = Some r \<longleftrightarrow> r \<in> set rs \<and> f_fingerprint r = fp"
proof -
  assume d: "distinct (map f_fingerprint rs)"
  have "distinct (map fst (map (\<lambda>r. (f_fingerprint r, r)) (rev rs)))"
    using d by (simp add: comp_def rev_map [symmetric])
  then show ?thesis unfolding by_fingerprint_def by (subst map_of_eq_Some_iff) auto
qed

section \<open>What one run does, over any store that keeps the contract\<close>

definition valid_fresh :: "finding list \<Rightarrow> finding list" where
  "valid_fresh fs = filter (\<lambda>f. ValidateForIngest f = None) fs"

lemma valid_fresh_Cons:
  "valid_fresh (f # fs) = (if ValidateForIngest f = None then f # valid_fresh fs else valid_fresh fs)"
  by (simp add: valid_fresh_def)

definition reported :: "finding list \<Rightarrow> string \<Rightarrow> finding option" where
  "reported fs fp = List.find (\<lambda>f. f_fingerprint f = fp) (valid_fresh fs)"

lemma reported_None_iff: "reported fs fp = None \<longleftrightarrow> fp \<notin> f_fingerprint ` set (valid_fresh fs)"
  by (auto simp: reported_def find_None_iff)

text \<open>The record a reported finding leaves, from the record that was there.\<close>

definition ingested :: "string \<Rightarrow> time \<Rightarrow> finding \<Rightarrow> store_rec option \<Rightarrow> store_rec option \<Rightarrow> bool" where
  "ingested mid now f old new \<longleftrightarrow>
     (case old of
        None \<Rightarrow> \<exists>i. new = Some (new_record mid now i (capEvidence f))
      | Some prev \<Rightarrow> new = Some (merged_record now (capEvidence f) prev))"

definition announces :: "store_rec option \<Rightarrow> bool" where
  "announces old \<longleftrightarrow> (case old of None \<Rightarrow> True | Some prev \<Rightarrow> f_status prev = StatusResolved)"

definition ages :: "store_rec \<Rightarrow> bool" where
  "ages r \<longleftrightarrow> f_status r \<noteq> StatusResolved \<and> f_status r \<noteq> StatusSuppressed"

definition aged :: "int \<Rightarrow> time \<Rightarrow> store_rec \<Rightarrow> store_rec" where
  "aged k now r = (if ages r then age_record k now r else r)"

lemma aged_simps [simp]:
  "f_fingerprint (aged k now r) = f_fingerprint r" "f_module (aged k now r) = f_module r"
  "f_target (aged k now r) = f_target r"
  by (simp_all add: aged_def)

definition rejections :: "finding list \<Rightarrow> (finding \<times> ingest_error) list" where
  "rejections fs = List.map_filter (\<lambda>f. map_option (Pair f) (ValidateForIngest f)) fs"

lemma rejections_Cons:
  "rejections (f # fs) =
     (case ValidateForIngest f of None \<Rightarrow> rejections fs | Some e \<Rightarrow> (f, e) # rejections fs)"
  by (simp add: rejections_def List.map_filter_def split: option.split)

lemma rejections_Nil [simp]: "rejections [] = []"
  by (simp add: rejections_def List.map_filter_def)

lemma valid_fresh_Nil [simp]: "valid_fresh [] = []"
  by (simp add: valid_fresh_def)

lemma reported_Cons:
  "reported (f # fs) fp =
     (if ValidateForIngest f = None \<and> f_fingerprint f = fp then Some f else reported fs fp)"
  by (simp add: reported_def valid_fresh_Cons)

lemma reported_Nil [simp]: "reported [] fp = None"
  by (simp add: reported_def)

lemma reported_SomeD:
  "reported fs fp = Some f \<Longrightarrow> f \<in> set (valid_fresh fs) \<and> f_fingerprint f = fp"
  by (auto simp: reported_def find_Some_iff)

lemma ingested_Some: "ingested mid now f old new \<Longrightarrow> \<exists>r. new = Some r"
  by (auto simp: ingested_def split: option.splits)

definition announced ::
  "(string \<Rightarrow> store_rec option) \<Rightarrow> (string \<Rightarrow> store_rec option) \<Rightarrow> finding list \<Rightarrow> finding list" where
  "announced old new fs =
     map (\<lambda>f. to_finding (the (new (f_fingerprint f))))
       (filter (\<lambda>f. announces (old (f_fingerprint f))) (valid_fresh fs))"

text \<open>
  The specification of one scan for one fingerprint: a reported finding is inserted or
  merged, an unreported record of the target is aged, everything else is left alone.
\<close>

definition scan_effect ::
  "module_info \<Rightarrow> time \<Rightarrow> string \<Rightarrow> finding list \<Rightarrow> string \<Rightarrow> store_rec option \<Rightarrow> store_rec option \<Rightarrow> bool" where
  "scan_effect mi now t fresh fp old new \<longleftrightarrow>
     (case reported fresh fp of
        Some f \<Rightarrow> ingested (mi_id mi) now f old new
      | None \<Rightarrow>
          new = (case old of
                   None \<Rightarrow> None
                 | Some r \<Rightarrow> Some (if f_target r = t then aged (ResolveAfterOrDefault mi) now r else r)))"

text \<open>The records one scan resolves.\<close>

definition expires :: "module_info \<Rightarrow> string \<Rightarrow> finding list \<Rightarrow> store_rec \<Rightarrow> bool" where
  "expires mi t fresh r \<longleftrightarrow>
     f_target r = t \<and> reported fresh (f_fingerprint r) = None \<and> ages r \<and>
     ResolveAfterOrDefault mi \<le> r_absent_streak r + 1"

context record_store
begin

lemma ingest_step_valid:
  assumes "ingest_step ops newID now mid byFP f st = (st', None)" "ValidateForIngest f = None"
    "inv (rs_store st)" "ok mid" "lookup (rs_store st) mid (f_fingerprint f) = byFP (f_fingerprint f)"
  shows "inv (rs_store st')"
    and "ingested mid now f (byFP (f_fingerprint f)) (lookup (rs_store st') mid (f_fingerprint f))"
    and "\<And>m fp. ok m \<Longrightarrow> (m, fp) \<noteq> (mid, f_fingerprint f) \<Longrightarrow>
           lookup (rs_store st') m fp = lookup (rs_store st) m fp"
    and "rs_seen st' = rs_seen st @ [f_fingerprint f]"
    and "rs_res st' = (rs_res st)\<lparr>rr_newly_open := rr_newly_open (rs_res st) @
           (if announces (byFP (f_fingerprint f))
            then [to_finding (the (lookup (rs_store st') mid (f_fingerprint f)))] else [])\<rparr>"
proof -
  let ?fp = "f_fingerprint f"
  have "inv (rs_store st') \<and> ingested mid now f (byFP ?fp) (lookup (rs_store st') mid ?fp) \<and>
    (\<forall>m fp. ok m \<longrightarrow> (m, fp) \<noteq> (mid, ?fp) \<longrightarrow> lookup (rs_store st') m fp = lookup (rs_store st) m fp) \<and>
    rs_seen st' = rs_seen st @ [?fp] \<and>
    rs_res st' = (rs_res st)\<lparr>rr_newly_open := rr_newly_open (rs_res st) @
       (if announces (byFP ?fp) then [to_finding (the (lookup (rs_store st') mid ?fp))] else [])\<rparr>"
  proof (cases "byFP ?fp")
    case None
    then obtain i s' where i: "newID now (rs_ids st) = Some i"
      and up: "op_upsert ops (rs_store st) (new_record mid now i (capEvidence f)) = Inr s'"
      and st': "rs_store st' = s'" "rs_seen st' = rs_seen st @ [?fp]"
        "rs_res st' = (rs_res st)\<lparr>rr_newly_open := rr_newly_open (rs_res st) @
           [to_finding (new_record mid now i (capEvidence f))]\<rparr>"
      using assms(1,2) by (auto simp: ingest_step_def Let_def split: option.splits sum.splits)
    have "inv s'" using upsert_inv [OF assms(3) _ up] assms(4) by simp
    moreover have "lookup s' mid ?fp = Some (new_record mid now i (capEvidence f))"
      using upsert_same [OF assms(3) _ up] assms(4,5) None by simp
    moreover have "\<forall>m fp. ok m \<longrightarrow> (m, fp) \<noteq> (mid, ?fp) \<longrightarrow> lookup s' m fp = lookup (rs_store st) m fp"
      using upsert_other [OF assms(3) _ _ up] assms(4) by simp
    ultimately show ?thesis using st' None by (auto simp: ingested_def announces_def)
  next
    case (Some prev)
    let ?m = "merged_record now (capEvidence f) prev"
    have prev: "f_module prev = mid" "f_fingerprint prev = ?fp"
      using lookup_key [OF assms(3,4)] assms(5) Some by auto
    obtain s' where up: "op_upsert ops (rs_store st) ?m = Inr s'"
      and st': "rs_store st' = s'" "rs_seen st' = rs_seen st @ [?fp]"
        "rs_res st' = (rs_res st)\<lparr>rr_newly_open := rr_newly_open (rs_res st) @
           (if f_status prev = StatusResolved then [to_finding ?m] else [])\<rparr>"
      using assms(1,2) Some by (auto simp: ingest_step_def Let_def split: sum.splits if_splits)
    have "inv s'" using upsert_inv [OF assms(3) _ up] assms(4) prev by simp
    moreover have "lookup s' mid ?fp = Some ?m"
      using upsert_same [OF assms(3) _ up] assms(4,5) Some prev by simp
    moreover have "\<forall>m fp. ok m \<longrightarrow> (m, fp) \<noteq> (mid, ?fp) \<longrightarrow> lookup s' m fp = lookup (rs_store st) m fp"
      using upsert_other [OF assms(3) _ _ up] assms(4) prev by simp
    ultimately show ?thesis using st' Some by (auto simp: ingested_def announces_def)
  qed
  then show "inv (rs_store st')"
    and "ingested mid now f (byFP ?fp) (lookup (rs_store st') mid ?fp)"
    and "\<And>m fp. ok m \<Longrightarrow> (m, fp) \<noteq> (mid, ?fp) \<Longrightarrow> lookup (rs_store st') m fp = lookup (rs_store st) m fp"
    and "rs_seen st' = rs_seen st @ [?fp]"
    and "rs_res st' = (rs_res st)\<lparr>rr_newly_open := rr_newly_open (rs_res st) @
       (if announces (byFP ?fp) then [to_finding (the (lookup (rs_store st') mid ?fp))] else [])\<rparr>"
    by blast+
qed

lemma ingest_step_invalid:
  "ValidateForIngest f = Some e \<Longrightarrow>
     ingest_step ops newID now mid byFP f st =
       (st\<lparr>rs_res := (rs_res st)\<lparr>rr_rejected := rr_rejected (rs_res st) @ [(f, e)]\<rparr>\<rparr>, None)"
  by (simp add: ingest_step_def)

lemma ingest_loop_effect:
  assumes "ingest_loop ops newID now mid byFP fs st = (st', None)"
    "inv (rs_store st)" "ok mid" "distinct (map f_fingerprint (valid_fresh fs))"
    "\<And>f. f \<in> set (valid_fresh fs) \<Longrightarrow>
       lookup (rs_store st) mid (f_fingerprint f) = byFP (f_fingerprint f)"
  shows "inv (rs_store st') \<and>
    (\<forall>fp. case reported fs fp of
        Some f \<Rightarrow> ingested mid now f (byFP fp) (lookup (rs_store st') mid fp)
      | None \<Rightarrow> lookup (rs_store st') mid fp = lookup (rs_store st) mid fp) \<and>
    (\<forall>m fp. ok m \<longrightarrow> m \<noteq> mid \<longrightarrow> lookup (rs_store st') m fp = lookup (rs_store st) m fp) \<and>
    rs_seen st' = rs_seen st @ map f_fingerprint (valid_fresh fs) \<and>
    rr_newly_open (rs_res st') = rr_newly_open (rs_res st) @ announced byFP (lookup (rs_store st') mid) fs \<and>
    rr_rejected (rs_res st') = rr_rejected (rs_res st) @ rejections fs \<and>
    rr_resolved (rs_res st') = rr_resolved (rs_res st)"
  using assms
proof (induction fs arbitrary: st)
  case Nil
  then show ?case by (simp add: announced_def)
next
  case (Cons f fs)
  show ?case
  proof (cases "ValidateForIngest f")
    case (Some e)
    let ?st1 = "st\<lparr>rs_res := (rs_res st)\<lparr>rr_rejected := rr_rejected (rs_res st) @ [(f, e)]\<rparr>\<rparr>"
    have "ingest_loop ops newID now mid byFP fs ?st1 = (st', None)"
      using Cons.prems(1) ingest_step_invalid [OF Some] by simp
    from Cons.IH [OF this] Cons.prems Some show ?thesis
      by (simp add: valid_fresh_Cons reported_Cons rejections_Cons announced_def cong: option.case_cong)
  next
    case None
    let ?fp = "f_fingerprint f"
    obtain st1 where step: "ingest_step ops newID now mid byFP f st = (st1, None)"
      and loop: "ingest_loop ops newID now mid byFP fs st1 = (st', None)"
      using Cons.prems(1) by (auto split: prod.splits option.splits)
    have fpf: "lookup (rs_store st) mid ?fp = byFP ?fp"
      using Cons.prems(5) [of f] None by (simp add: valid_fresh_Cons)
    note eff = ingest_step_valid [OF step None Cons.prems(2,3) fpf]
    have fresh: "?fp \<notin> set (map f_fingerprint (valid_fresh fs))"
      and dist: "distinct (map f_fingerprint (valid_fresh fs))"
      using Cons.prems(4) None by (auto simp: valid_fresh_Cons)
    have look: "lookup (rs_store st1) mid (f_fingerprint g) = byFP (f_fingerprint g)"
      if g: "g \<in> set (valid_fresh fs)" for g
    proof -
      have "f_fingerprint g \<noteq> ?fp" using fresh g by (metis imageI list.set_map)
      then have "lookup (rs_store st1) mid (f_fingerprint g) = lookup (rs_store st) mid (f_fingerprint g)"
        using eff(3) [OF Cons.prems(3), of "f_fingerprint g"] by simp
      then show ?thesis using Cons.prems(5) [of g] g None by (simp add: valid_fresh_Cons)
    qed
    note ih = Cons.IH [OF loop eff(1) Cons.prems(3) dist look]
    have rep: "reported fs ?fp = None" using fresh by (simp add: reported_None_iff)
    have keep: "lookup (rs_store st') mid ?fp = lookup (rs_store st1) mid ?fp"
    proof -
      have "case reported fs ?fp of
          Some g \<Rightarrow> ingested mid now g (byFP ?fp) (lookup (rs_store st') mid ?fp)
        | None \<Rightarrow> lookup (rs_store st') mid ?fp = lookup (rs_store st1) mid ?fp" using ih by blast
      then show ?thesis using rep by simp
    qed
    have fps: "case reported (f # fs) fp of
        Some g \<Rightarrow> ingested mid now g (byFP fp) (lookup (rs_store st') mid fp)
      | None \<Rightarrow> lookup (rs_store st') mid fp = lookup (rs_store st) mid fp" for fp
    proof (cases "fp = ?fp")
      case True
      then show ?thesis using eff(2) keep None by (simp add: reported_Cons)
    next
      case False
      moreover have "case reported fs fp of
          Some g \<Rightarrow> ingested mid now g (byFP fp) (lookup (rs_store st') mid fp)
        | None \<Rightarrow> lookup (rs_store st') mid fp = lookup (rs_store st1) mid fp" using ih by blast
      ultimately show ?thesis using eff(3) [OF Cons.prems(3), of fp]
        by (simp add: reported_Cons split: option.splits)
    qed
    have ann: "announced byFP (lookup (rs_store st') mid) (f # fs) =
        (if announces (byFP ?fp) then [to_finding (the (lookup (rs_store st1) mid ?fp))] else []) @
        announced byFP (lookup (rs_store st') mid) fs"
      using None keep by (simp add: announced_def valid_fresh_Cons)
    from ih eff(3-5) fps None ann show ?thesis
      by (simp add: valid_fresh_Cons rejections_Cons)
  qed
qed

text \<open>The absence pass: each record of the target is aged unless it was reported.\<close>

lemma resolve_loop_effect:
  assumes "resolve_loop ops now k rs st = (st', None)"
    "inv (rs_store st)" "ok mid" "distinct (map f_fingerprint rs)"
    "\<And>r. r \<in> set rs \<Longrightarrow> f_fingerprint r \<notin> set (rs_seen st) \<Longrightarrow>
       f_module r = mid \<and> lookup (rs_store st) mid (f_fingerprint r) = Some r"
  shows "inv (rs_store st') \<and>
    (\<forall>r \<in> set rs. f_fingerprint r \<notin> set (rs_seen st) \<longrightarrow>
        lookup (rs_store st') mid (f_fingerprint r) = Some (aged k now r)) \<and>
    (\<forall>m fp. ok m \<longrightarrow> m \<noteq> mid \<or> fp \<in> set (rs_seen st) \<or> fp \<notin> f_fingerprint ` set rs \<longrightarrow>
        lookup (rs_store st') m fp = lookup (rs_store st) m fp) \<and>
    rr_newly_open (rs_res st') = rr_newly_open (rs_res st) \<and>
    rr_rejected (rs_res st') = rr_rejected (rs_res st) \<and>
    rr_resolved (rs_res st') = rr_resolved (rs_res st) @
      map (\<lambda>r. to_finding (age_record k now r))
        (filter (\<lambda>r. f_fingerprint r \<notin> set (rs_seen st) \<and> ages r \<and> k \<le> r_absent_streak r + 1) rs)"
  using assms
proof (induction rs arbitrary: st)
  case Nil
  then show ?case by simp
next
  case (Cons r rs)
  let ?fp = "f_fingerprint r"
  show ?case
  proof (cases "?fp \<notin> set (rs_seen st) \<and> ages r")
    case False
    then have "resolve_step ops now k r st = (st, None)"
      by (auto simp: resolve_step_def ages_def)
    then have "resolve_loop ops now k rs st = (st', None)" using Cons.prems(1) by simp
    note ih = Cons.IH [OF this Cons.prems(2,3)]
    have "distinct (map f_fingerprint rs)" "?fp \<notin> f_fingerprint ` set rs" using Cons.prems(4) by auto
    moreover have "?fp \<notin> set (rs_seen st) \<Longrightarrow> lookup (rs_store st) mid ?fp = Some (aged k now r)"
      using Cons.prems(5) [of r] False by (simp add: aged_def)
    ultimately show ?thesis using ih Cons.prems(3,5) False by auto
  next
    case True
    let ?r = "age_record k now r"
    have r: "f_module r = mid" "lookup (rs_store st) mid ?fp = Some r"
      using Cons.prems(5) [of r] True by auto
    obtain st1 where step: "resolve_step ops now k r st = (st1, None)"
      and loop: "resolve_loop ops now k rs st1 = (st', None)"
      using Cons.prems(1) by (auto split: prod.splits option.splits)
    have up: "op_upsert ops (rs_store st) ?r = Inr (rs_store st1)"
      and st1: "rs_seen st1 = rs_seen st" "rr_newly_open (rs_res st1) = rr_newly_open (rs_res st)"
        "rr_rejected (rs_res st1) = rr_rejected (rs_res st)"
        "rr_resolved (rs_res st1) = rr_resolved (rs_res st) @
           (if k \<le> r_absent_streak r + 1 then [to_finding ?r] else [])"
      using step True by (auto simp: resolve_step_def ages_def Let_def split: sum.splits if_splits)
    have inv1: "inv (rs_store st1)" using upsert_inv [OF Cons.prems(2) _ up] Cons.prems(3) r by simp
    have here: "lookup (rs_store st1) mid ?fp = Some ?r"
      using upsert_same [OF Cons.prems(2) _ up] Cons.prems(3) r by simp
    have other: "lookup (rs_store st1) m fp = lookup (rs_store st) m fp"
      if "ok m" "(m, fp) \<noteq> (mid, ?fp)" for m fp
      using upsert_other [OF Cons.prems(2) _ that(1) up] Cons.prems(3) r that by simp
    have fresh: "?fp \<notin> f_fingerprint ` set rs" and dist: "distinct (map f_fingerprint rs)"
      using Cons.prems(4) by auto
    have next1: "f_module q = mid \<and> lookup (rs_store st1) mid (f_fingerprint q) = Some q"
      if "q \<in> set rs" "f_fingerprint q \<notin> set (rs_seen st1)" for q
    proof -
      have "f_fingerprint q \<noteq> ?fp" using that(1) fresh by (metis imageI)
      then show ?thesis using Cons.prems(5) [of q] that st1(1) other [OF Cons.prems(3), of "f_fingerprint q"]
        by simp
    qed
    note ih = Cons.IH [OF loop inv1 Cons.prems(3) dist next1]
    have keep: "lookup (rs_store st') mid ?fp = Some ?r"
      using ih here fresh Cons.prems(3) by auto
    have rest: "lookup (rs_store st') m fp = lookup (rs_store st) m fp"
      if "ok m" "m \<noteq> mid \<or> fp \<in> set (rs_seen st) \<or> fp \<notin> f_fingerprint ` set (r # rs)" for m fp
    proof -
      have "(m, fp) \<noteq> (mid, ?fp)" using that(2) True by auto
      moreover have "m \<noteq> mid \<or> fp \<in> set (rs_seen st1) \<or> fp \<notin> f_fingerprint ` set rs"
        using that(2) st1(1) by auto
      ultimately show ?thesis using ih other [OF that(1)] that(1) by simp
    qed
    show ?thesis using ih keep rest st1 True by (simp add: aged_def)
  qed
qed

theorem Reconcile_effect:
  assumes run: "Reconcile ops newID now mi t fresh s = (s', res, None)"
    and inv: "inv s" and ok: "ok (mi_id mi)"
    and dist: "distinct (map f_fingerprint (valid_fresh fresh))"
    and own: "\<And>f r. f \<in> set (valid_fresh fresh) \<Longrightarrow> lookup s (mi_id mi) (f_fingerprint f) = Some r \<Longrightarrow>
      f_target r = t"
  shows "inv s'"
    and "\<And>fp. scan_effect mi now t fresh fp (lookup s (mi_id mi) fp) (lookup s' (mi_id mi) fp)"
    and "\<And>m fp. ok m \<Longrightarrow> m \<noteq> mi_id mi \<Longrightarrow> lookup s' m fp = lookup s m fp"
    and "rr_newly_open res = announced (lookup s (mi_id mi)) (lookup s' (mi_id mi)) fresh"
    and "rr_rejected res = rejections fresh"
    and "set (rr_resolved res) =
      {to_finding (age_record (ResolveAfterOrDefault mi) now r) | r.
         lookup s (mi_id mi) (f_fingerprint r) = Some r \<and> expires mi t fresh r}"
proof -
  let ?mid = "mi_id mi" and ?k = "ResolveAfterOrDefault mi"
  let ?st0 = "\<lparr>rs_store = s, rs_seen = [], rs_res = empty_result, rs_ids = 0\<rparr>"
  obtain existing st1 st2 where ls: "op_list_by_target ops s ?mid t = Inr existing"
    and ing: "ingest_loop ops newID now ?mid (by_fingerprint existing) fresh ?st0 = (st1, None)"
    and abs: "resolve_loop ops now ?k existing st1 = (st2, None)"
    and s': "s' = rs_store st2" and res: "res = rs_res st2"
    using run by (auto simp: Reconcile_def Let_def split: sum.splits prod.splits option.splits)
  note lset = list_set [OF inv ok ls] and ldist = list_distinct [OF inv ok ls]
  have byFP: "lookup s ?mid (f_fingerprint f) = by_fingerprint existing (f_fingerprint f)"
    if f: "f \<in> set (valid_fresh fresh)" for f
  proof (cases "lookup s ?mid (f_fingerprint f)")
    case None
    then have "\<not> (\<exists>r. by_fingerprint existing (f_fingerprint f) = Some r)"
      using by_fingerprint_Some [OF ldist] lset by auto
    then show ?thesis using None by auto
  next
    case (Some r)
    then have "r \<in> set existing \<and> f_fingerprint r = f_fingerprint f"
      using own [OF f Some] lookup_key [OF inv ok Some] lset by auto
    then have "by_fingerprint existing (f_fingerprint f) = Some r" using by_fingerprint_Some [OF ldist] by blast
    then show ?thesis using Some by simp
  qed
  have e1: "inv (rs_store st1) \<and>
    (\<forall>fp. case reported fresh fp of
        Some f \<Rightarrow> ingested ?mid now f (by_fingerprint existing fp) (lookup (rs_store st1) ?mid fp)
      | None \<Rightarrow> lookup (rs_store st1) ?mid fp = lookup s ?mid fp) \<and>
    (\<forall>m fp. ok m \<longrightarrow> m \<noteq> ?mid \<longrightarrow> lookup (rs_store st1) m fp = lookup s m fp) \<and>
    rs_seen st1 = map f_fingerprint (valid_fresh fresh) \<and>
    rr_newly_open (rs_res st1) = announced (by_fingerprint existing) (lookup (rs_store st1) ?mid) fresh \<and>
    rr_rejected (rs_res st1) = rejections fresh \<and> rr_resolved (rs_res st1) = []"
    using ingest_loop_effect [OF ing _ ok dist] inv byFP
    by (simp add: empty_result_def cong: option.case_cong)
  have rep: "reported fresh fp = None \<longleftrightarrow> fp \<notin> set (rs_seen st1)" for fp
    using e1 by (simp add: reported_None_iff)
  have unrep: "lookup (rs_store st1) ?mid fp = lookup s ?mid fp" if "reported fresh fp = None" for fp
  proof -
    have "case reported fresh fp of
        Some f \<Rightarrow> ingested ?mid now f (by_fingerprint existing fp) (lookup (rs_store st1) ?mid fp)
      | None \<Rightarrow> lookup (rs_store st1) ?mid fp = lookup s ?mid fp" using e1 by blast
    then show ?thesis using that by simp
  qed
  have old: "f_module r = ?mid \<and> lookup (rs_store st1) ?mid (f_fingerprint r) = Some r"
    if "r \<in> set existing" "f_fingerprint r \<notin> set (rs_seen st1)" for r
    using list_mem [OF inv ok ls that(1)] unrep rep that(2) by simp
  note e2 = resolve_loop_effect [OF abs conjunct1 [OF e1] ok ldist old]
  have seen_keep: "lookup s' ?mid fp = lookup (rs_store st1) ?mid fp"
    if "reported fresh fp \<noteq> None \<or> fp \<notin> f_fingerprint ` set existing" for fp
  proof -
    have "fp \<in> set (rs_seen st1) \<or> fp \<notin> f_fingerprint ` set existing" using that rep [of fp] by auto
    then show ?thesis using conjunct1 [OF conjunct2 [OF conjunct2 [OF e2]]] s' ok by simp
  qed
  show "inv s'" using e2 s' by simp
  show "lookup s' m fp = lookup s m fp" if "ok m" "m \<noteq> ?mid" for m fp
    using conjunct1 [OF conjunct2 [OF conjunct2 [OF e1]]]
      conjunct1 [OF conjunct2 [OF conjunct2 [OF e2]]] s' that by simp
  show "rr_rejected res = rejections fresh" using e1 e2 res by simp
  show "set (rr_resolved res) = {to_finding (age_record ?k now r) | r.
      lookup s ?mid (f_fingerprint r) = Some r \<and> expires mi t fresh r}"
    using e1 e2 res lset rep by (auto simp: expires_def image_iff)
  show "rr_newly_open res = announced (lookup s ?mid) (lookup s' ?mid) fresh"
  proof -
    have "announced (by_fingerprint existing) (lookup (rs_store st1) ?mid) fresh =
        announced (lookup s ?mid) (lookup s' ?mid) fresh"
      unfolding announced_def using byFP seen_keep
      by (intro map_cong filter_cong) (auto simp: reported_None_iff)
    then show ?thesis using e1 e2 res by simp
  qed
  show "scan_effect mi now t fresh fp (lookup s ?mid fp) (lookup s' ?mid fp)" for fp
  proof (cases "reported fresh fp")
    case (Some f)
    have "case reported fresh fp of
        Some f \<Rightarrow> ingested ?mid now f (by_fingerprint existing fp) (lookup (rs_store st1) ?mid fp)
      | None \<Rightarrow> lookup (rs_store st1) ?mid fp = lookup s ?mid fp" using e1 by blast
    moreover have "by_fingerprint existing fp = lookup s ?mid fp"
      using byFP reported_SomeD [OF Some] by auto
    ultimately show ?thesis using Some seen_keep [of fp] by (simp add: scan_effect_def)
  next
    case None
    show ?thesis
    proof (cases "lookup s ?mid fp")
      case None2: None
      then have "fp \<notin> f_fingerprint ` set existing" using lset by auto
      then show ?thesis using None None2 seen_keep [of fp] unrep by (simp add: scan_effect_def)
    next
      case (Some r)
      have fp: "f_fingerprint r = fp" using lookup_key [OF inv ok Some] by simp
      show ?thesis
      proof (cases "f_target r = t")
        case True
        then have "r \<in> set existing" using lset Some fp by simp
        then have "lookup s' ?mid fp = Some (aged ?k now r)" using e2 s' rep None fp by auto
        then show ?thesis using None Some True by (simp add: scan_effect_def)
      next
        case False
        have "fp \<notin> f_fingerprint ` set existing"
        proof
          assume "fp \<in> f_fingerprint ` set existing"
          then obtain q where "q \<in> set existing" "f_fingerprint q = fp" by auto
          then show False using lset Some False by auto
        qed
        then show ?thesis using None Some False seen_keep [of fp] unrep by (simp add: scan_effect_def)
      qed
    qed
  qed
qed

end

lemma ingest_loop_rejected:
  "ingest_loop ops newID now mid byFP fs st = (st', None) \<Longrightarrow>
     rr_rejected (rs_res st') = rr_rejected (rs_res st) @ rejections fs"
proof (induction fs arbitrary: st)
  case Nil
  then show ?case by simp
next
  case (Cons f fs)
  obtain st1 where step: "ingest_step ops newID now mid byFP f st = (st1, None)"
    and loop: "ingest_loop ops newID now mid byFP fs st1 = (st', None)"
    using Cons.prems by (auto split: prod.splits option.splits)
  have "rr_rejected (rs_res st1) = rr_rejected (rs_res st) @
      (case ValidateForIngest f of None \<Rightarrow> [] | Some e \<Rightarrow> [(f, e)])"
    using step by (auto simp: ingest_step_def Let_def split: option.splits sum.splits if_splits)
  then show ?case using Cons.IH [OF loop] by (simp add: rejections_Cons split: option.splits)
qed

lemma resolve_loop_rejected:
  "resolve_loop ops now k rs st = (st', None) \<Longrightarrow> rr_rejected (rs_res st') = rr_rejected (rs_res st)"
proof (induction rs arbitrary: st)
  case Nil
  then show ?case by simp
next
  case (Cons r rs)
  obtain st1 where step: "resolve_step ops now k r st = (st1, None)"
    and loop: "resolve_loop ops now k rs st1 = (st', None)"
    using Cons.prems by (auto split: prod.splits option.splits)
  have "rr_rejected (rs_res st1) = rr_rejected (rs_res st)"
    using step by (auto simp: resolve_step_def Let_def split: sum.splits if_splits)
  then show ?case using Cons.IH [OF loop] by simp
qed

lemma Reconcile_rejected:
  "Reconcile ops newID now mi t fresh s = (s', res, None) \<Longrightarrow> rr_rejected res = rejections fresh"
  by (auto simp: Reconcile_def Let_def empty_result_def dest!: ingest_loop_rejected resolve_loop_rejected
      split: sum.splits prod.splits option.splits)

context total_record_store
begin

lemma ingest_loop_total:
  "(\<And>t n. newID t n \<noteq> None) \<Longrightarrow> \<exists>st'. ingest_loop ops newID now mid byFP fs st = (st', None)"
proof (induction fs arbitrary: st)
  case Nil
  then show ?case by simp
next
  case (Cons f fs)
  have "\<exists>st1. ingest_step ops newID now mid byFP f st = (st1, None)"
  proof -
    obtain i where i: "newID now (rs_ids st) = Some i" using Cons.prems by blast
    obtain s1 where "op_upsert ops (rs_store st) (new_record mid now i (capEvidence f)) = Inr s1"
      using upsert_total by blast
    moreover have "\<exists>s2. op_upsert ops (rs_store st) (merged_record now (capEvidence f) r) = Inr s2" for r
      using upsert_total by blast
    ultimately show ?thesis using i
      by (auto simp: ingest_step_def Let_def split: option.splits sum.splits) (metis Inl_Inr_False)+
  qed
  then show ?case using Cons.IH [OF Cons.prems] by auto
qed

lemma resolve_loop_total: "\<exists>st'. resolve_loop ops now k rs st = (st', None)"
proof (induction rs arbitrary: st)
  case Nil
  then show ?case by simp
next
  case (Cons r rs)
  have "\<exists>st1. resolve_step ops now k r st = (st1, None)"
  proof -
    have "\<exists>s1. op_upsert ops (rs_store st) (age_record k now r) = Inr s1" using upsert_total by blast
    then show ?thesis by (auto simp: resolve_step_def Let_def)
  qed
  then show ?case using Cons.IH by auto
qed

lemma Reconcile_total:
  "(\<And>t n. newID t n \<noteq> None) \<Longrightarrow> \<exists>s' res. Reconcile ops newID now mi t fresh s = (s', res, None)"
proof -
  assume ids: "\<And>t n. newID t n \<noteq> None"
  obtain existing where ls: "op_list_by_target ops s (mi_id mi) t = Inr existing"
    using list_total by blast
  let ?st0 = "\<lparr>rs_store = s, rs_seen = [], rs_res = empty_result, rs_ids = 0\<rparr>"
  obtain st1 where "ingest_loop ops newID now (mi_id mi) (by_fingerprint existing) fresh ?st0 = (st1, None)"
    using ingest_loop_total [of newID, OF ids] by blast
  moreover obtain st2 where "resolve_loop ops now (ResolveAfterOrDefault mi) existing st1 = (st2, None)"
    using resolve_loop_total by blast
  ultimately show ?thesis using ls by (simp add: Reconcile_def Let_def)
qed

end

end
