(* ===== verification/Sched.thy ===== *)
theory Sched
  imports Reconcile
begin

text \<open>
  The scheduler (\<open>sched/scheduler.go\<close>): registration of collectors, targets, one scan, and
  the failure backoff of a module's loop. A collector is an interface, so it is a record of
  functions; its error type is a parameter. Contexts, worker slots and goroutines are not
  modelled: a scan that gets its slot is one step on the store. Durations are 64-bit integers
  and wrap when they are doubled.
\<close>

section \<open>Configuration and backoff\<close>

record sched_config =
  sc_workers :: int
  sc_scan_timeout :: duration
  sc_retry_base :: duration
  sc_retry_max :: duration
  sc_interval_override :: duration

definition sched_withDefaults :: "sched_config \<Rightarrow> sched_config" where
  "sched_withDefaults c0 =
     (let c1 = (if sc_workers c0 \<le> 0 then c0\<lparr>sc_workers := 8\<rparr> else c0);
          c2 = (if sc_scan_timeout c1 \<le> 0 then c1\<lparr>sc_scan_timeout := 30 * second\<rparr> else c1);
          c3 = (if sc_retry_base c2 \<le> 0 then c2\<lparr>sc_retry_base := 30 * second\<rparr> else c2)
      in if sc_retry_max c3 \<le> 0 then c3\<lparr>sc_retry_max := 15 * minute\<rparr> else c3)"

text \<open>The doubling loop, with the number of rounds left.\<close>

fun backoff_loop :: "duration \<Rightarrow> nat \<Rightarrow> duration \<Rightarrow> duration" where
  "backoff_loop rmax 0 d = (if d > rmax then rmax else d)"
| "backoff_loop rmax (Suc n) d =
     (let d' = wrap64 (d * 2) in if d' \<ge> rmax then rmax else backoff_loop rmax n d')"

definition backoffFor :: "sched_config \<Rightarrow> int \<Rightarrow> duration" where
  "backoffFor cfg consecutive =
     backoff_loop (sc_retry_max cfg) (nat (consecutive - 1)) (sc_retry_base cfg)"

section \<open>Collectors, registrations and targets\<close>

record 'e collector =
  co_describe :: module_info
  co_validate :: "string \<Rightarrow> 'e + target"
  co_collect :: "time \<Rightarrow> target \<Rightarrow> 'e + finding list"

record 'e registration =
  rg_collector :: "'e collector"
  rg_info :: module_info
  rg_targets :: "(string \<times> target) list"

record 'e scheduler =
  sd_cfg :: sched_config
  sd_modules :: "(string \<times> 'e registration) list"
  sd_started :: bool

datatype 'e sched_error = EmptyModuleID | AlreadyRegistered string | UnknownModule string
  | InvalidTarget 'e | AlreadyStarted

definition NewScheduler :: "sched_config \<Rightarrow> 'e scheduler" where
  "NewScheduler cfg = \<lparr>sd_cfg = sched_withDefaults cfg, sd_modules = [], sd_started = False\<rparr>"

definition Register :: "'e collector \<Rightarrow> 'e scheduler \<Rightarrow> 'e sched_error + 'e scheduler" where
  "Register c s =
     (let info = co_describe c
      in if mi_id info = [] then Inl EmptyModuleID
         else if map_of (sd_modules s) (mi_id info) \<noteq> None then Inl (AlreadyRegistered (mi_id info))
         else Inr (s\<lparr>sd_modules := amap_put (mi_id info)
                \<lparr>rg_collector = c, rg_info = info, rg_targets = []\<rparr> (sd_modules s)\<rparr>))"

text \<open>
  \<open>AddTarget\<close> also says whether it launches an immediate scan; the targets map is shared by
  every copy of a registration, so the update is visible in the module.
\<close>

definition AddTarget ::
  "string \<Rightarrow> string \<Rightarrow> 'e scheduler \<Rightarrow> 'e sched_error + ('e scheduler \<times> target \<times> bool)" where
  "AddTarget module raw s =
     (case map_of (sd_modules s) module of
        None \<Rightarrow> Inl (UnknownModule module)
      | Some reg \<Rightarrow>
          (case co_validate (rg_collector reg) raw of
             Inl e \<Rightarrow> Inl (InvalidTarget e)
           | Inr t \<Rightarrow>
               Inr (s\<lparr>sd_modules := amap_put module
                        (reg\<lparr>rg_targets := amap_put (t_canonical t) t (rg_targets reg)\<rparr>) (sd_modules s)\<rparr>,
                    t, sd_started s)))"

definition RemoveTarget :: "string \<Rightarrow> string \<Rightarrow> 'e scheduler \<Rightarrow> 'e scheduler" where
  "RemoveTarget module canonical s =
     (case map_of (sd_modules s) module of
        None \<Rightarrow> s
      | Some reg \<Rightarrow> s\<lparr>sd_modules := amap_put module
          (reg\<lparr>rg_targets := amap_del canonical (rg_targets reg)\<rparr>) (sd_modules s)\<rparr>)"

definition snapshotTargets :: "'e registration \<Rightarrow> target list" where
  "snapshotTargets reg = map snd (rg_targets reg)"

definition ListTargets :: "string \<Rightarrow> 'e scheduler \<Rightarrow> target list" where
  "ListTargets module s =
     (case map_of (sd_modules s) module of None \<Rightarrow> [] | Some reg \<Rightarrow> snapshotTargets reg)"

text \<open>\<open>Start\<close> launches one loop per module; the result names the modules.\<close>

definition Start :: "'e scheduler \<Rightarrow> 'e sched_error + ('e scheduler \<times> string list)" where
  "Start s = (if sd_started s then Inl AlreadyStarted
     else Inr (s\<lparr>sd_started := True\<rparr>, map fst (sd_modules s)))"

definition module_interval :: "sched_config \<Rightarrow> module_info \<Rightarrow> duration" where
  "module_interval cfg mi =
     (let i0 = mi_default_interval mi;
          i1 = (if sc_interval_override cfg > 0 then sc_interval_override cfg else i0)
      in if i1 \<le> 0 then hour else i1)"

section \<open>One scan\<close>

datatype 'e scan_error = CollectFailed 'e | ReconcileFailed reconcile_error

record sched_result =
  sr_module :: string
  sr_target :: target
  sr_reconcile :: reconcile_result

text \<open>
  The store after the scan and either the error or the result \<open>OnResult\<close> sees. The engine's
  own clock reads \<open>now\<close> as well.
\<close>

definition scanOne ::
  "'s store_ops \<Rightarrow> id_gen \<Rightarrow> time \<Rightarrow> 'e registration \<Rightarrow> target \<Rightarrow> 's \<Rightarrow> 's \<times> ('e scan_error + sched_result)" where
  "scanOne ops newID now reg t s =
     (case co_collect (rg_collector reg) now t of
        Inl e \<Rightarrow> (s, Inl (CollectFailed e))
      | Inr findings \<Rightarrow>
          (case Reconcile ops newID now (rg_info reg) (t_canonical t) findings s of
             (s', res, Some e) \<Rightarrow> (s', Inl (ReconcileFailed e))
           | (s', res, None) \<Rightarrow>
               (s', Inr \<lparr>sr_module = mi_id (rg_info reg), sr_target = t, sr_reconcile = res\<rparr>)))"

text \<open>\<open>ScanNow\<close> scans every target of the module, here one after the other.\<close>

definition ScanNow ::
  "'s store_ops \<Rightarrow> id_gen \<Rightarrow> time \<Rightarrow> string \<Rightarrow> 'e scheduler \<Rightarrow> 's \<Rightarrow> 'e sched_error + 's" where
  "ScanNow ops newID now module sched s =
     (case map_of (sd_modules sched) module of
        None \<Rightarrow> Inl (UnknownModule module)
      | Some reg \<Rightarrow> Inr (fold (\<lambda>t st. fst (scanOne ops newID now reg t st)) (snapshotTargets reg) s))"

section \<open>The failure tracker of a module's loop\<close>

record tracker =
  tk_failures :: "(string \<times> int) list"
  tk_next_ok :: "(string \<times> time) list"

definition empty_tracker :: tracker where
  "empty_tracker = \<lparr>tk_failures = [], tk_next_ok = []\<rparr>"

definition failures_of :: "tracker \<Rightarrow> string \<Rightarrow> int" where
  "failures_of tk c = (case map_of (tk_failures tk) c of None \<Rightarrow> 0 | Some n \<Rightarrow> n)"

definition next_ok_of :: "tracker \<Rightarrow> string \<Rightarrow> time" where
  "next_ok_of tk c = (case map_of (tk_next_ok tk) c of None \<Rightarrow> 0 | Some t \<Rightarrow> t)"

text \<open>The gate of a sweep at instant \<open>now\<close>, and the targets it lets through.\<close>

definition eligible :: "tracker \<Rightarrow> time \<Rightarrow> target \<Rightarrow> bool" where
  "eligible tk now t \<longleftrightarrow> \<not> now < next_ok_of tk (t_canonical t)"

definition sweep_targets :: "tracker \<Rightarrow> time \<Rightarrow> 'e registration \<Rightarrow> target list" where
  "sweep_targets tk now reg = filter (eligible tk now) (snapshotTargets reg)"

record 'e scan_failure =
  sf_target :: target
  sf_err :: "'e scan_error"
  sf_attempt :: int
  sf_next_try :: duration

text \<open>
  What a finished scan of the loop does to the tracker; \<open>canceled\<close> says whether an error is
  the cancellation of the context. The second result is what \<open>OnError\<close> sees.
\<close>

definition track_result ::
  "sched_config \<Rightarrow> ('e scan_error \<Rightarrow> bool) \<Rightarrow> time \<Rightarrow> target \<Rightarrow> 'e scan_error option \<Rightarrow> tracker \<Rightarrow>
     tracker \<times> 'e scan_failure option" where
  "track_result cfg canceled now t err tk =
     (let c = t_canonical t in
      case (case err of None \<Rightarrow> None | Some e \<Rightarrow> if canceled e then None else Some e) of
        Some e \<Rightarrow>
          let n = failures_of tk c + 1;
              backoff = backoffFor cfg n
          in (\<lparr>tk_failures = amap_put c n (tk_failures tk),
               tk_next_ok = amap_put c (now + backoff) (tk_next_ok tk)\<rparr>,
              Some \<lparr>sf_target = t, sf_err = e, sf_attempt = n, sf_next_try = backoff\<rparr>)
      | None \<Rightarrow>
          (\<lparr>tk_failures = amap_put c 0 (tk_failures tk), tk_next_ok = amap_put c 0 (tk_next_ok tk)\<rparr>, None))"

section \<open>Lemmas\<close>

lemma sched_withDefaults_pos:
  "0 < sc_retry_base (sched_withDefaults c)" "0 < sc_retry_max (sched_withDefaults c)"
  "0 < sc_workers (sched_withDefaults c)" "0 < sc_scan_timeout (sched_withDefaults c)"
  by (simp_all add: sched_withDefaults_def Let_def second_def minute_def)

lemma backoff_loop_exact:
  assumes "0 < d" "d < 2 ^ 62" "rmax \<le> 2 ^ 62"
  shows "backoff_loop rmax n d = min (d * 2 ^ n) rmax"
  using assms
proof (induction n arbitrary: d)
  case 0
  then show ?case by (simp add: min_def)
next
  case (Suc n)
  have w: "wrap64 (d * 2) = d * 2" using Suc.prems by (intro wrap64_id) auto
  show ?case
  proof (cases "rmax \<le> d * 2")
    case True
    have "d * 2 * 1 \<le> d * 2 * 2 ^ n" using Suc.prems(1) by (intro mult_left_mono) auto
    then have "rmax \<le> d * 2 ^ Suc n" using True by (simp add: mult.assoc)
    then show ?thesis using True by (simp add: w Let_def)
  next
    case False
    then have "d * 2 < 2 ^ 62" using Suc.prems(3) by simp
    then show ?thesis using False Suc.IH [of "d * 2"] Suc.prems
      by (simp add: w Let_def mult.assoc)
  qed
qed

lemma track_result_other:
  "c \<noteq> t_canonical t \<Longrightarrow> failures_of (fst (track_result cfg canceled now t err tk)) c = failures_of tk c \<and>
     next_ok_of (fst (track_result cfg canceled now t err tk)) c = next_ok_of tk c"
  by (auto simp: track_result_def Let_def failures_of_def next_ok_of_def split: option.splits)

end
