(* ===== verification/Collector.thy ===== *)
theory Collector
  imports Tenant_Engine
begin

text \<open>
  The poll-driven collector of \<open>tenant/collector.go\<close>: static metadata, target validation
  and one scan of one target. A source is an interface of the program, so \<open>src\<close> is an
  argument: it takes the provider and the domain and returns an error or a snapshot; the
  context of the call is not modelled. The clock is the value \<open>time.Now\<close> returned.
\<close>

definition Describe :: module_info where
  "Describe = \<lparr>mi_id = ModuleID, mi_name = ''TenantWatch'', mi_version = ''0.2.3'',
     mi_target_kind = ''provider:domain (m365:contoso.onmicrosoft.com)'',
     mi_default_interval = 12 * hour, mi_resolve_after = 2\<rparr>"

definition ValidateTarget :: "string \<Rightarrow> ingest_error + target" where
  "ValidateTarget raw0 =
     (let raw = trim_space raw0
      in case SplitCanonical (to_lower raw) of
           None \<Rightarrow> Inl (IngestError ''target''
             (''expected '' @ quote @ ''provider:domain'' @ quote @
              '', e.g. m365:contoso.onmicrosoft.com or gws:contoso.co.id''))
         | Some (provider, domain) \<Rightarrow>
             if provider \<noteq> ProviderM365 \<and> provider \<noteq> ProviderGWS
             then Inl (IngestError ''target'' (''provider must be m365 or gws, got '' @ provider))
             else if \<not> contains domain ''.''
             then Inl (IngestError ''target'' (''domain looks invalid: '' @ domain))
             else Inr \<lparr>t_raw = raw, t_canonical = Canonical provider domain,
                       t_meta = [(''provider'', provider), (''domain'', domain)]\<rparr>)"

datatype 'e collect_error = MalformedTarget string | SourceError 'e

type_synonym 'e source = "string \<Rightarrow> string \<Rightarrow> 'e + tenant_state"

text \<open>The defaults a collector fills in when the source left them zero.\<close>

definition complete_state :: "string \<Rightarrow> string \<Rightarrow> time \<Rightarrow> tenant_state \<Rightarrow> tenant_state" where
  "complete_state provider domain now st =
     (let st1 = (if ts_provider st = [] then st\<lparr>ts_provider := provider\<rparr> else st);
          st2 = (if ts_domain st1 = [] then st1\<lparr>ts_domain := domain\<rparr> else st1)
      in if is_zero (ts_taken_at st2) then st2\<lparr>ts_taken_at := now\<rparr> else st2)"

definition Collect :: "'e source \<Rightarrow> time \<Rightarrow> target \<Rightarrow> 'e collect_error + finding list" where
  "Collect src now t =
     (case SplitCanonical (t_canonical t) of
        None \<Rightarrow> Inl (MalformedTarget (t_canonical t))
      | Some (provider, domain) \<Rightarrow>
          (case src provider domain of
             Inl e \<Rightarrow> Inl (SourceError e)
           | Inr state \<Rightarrow> Inr (Evaluate (complete_state provider domain now state))))"

section \<open>Lemmas\<close>

lemma provider_lower:
  "p = ProviderM365 \<or> p = ProviderGWS \<Longrightarrow> to_lower p = p \<and> CHR '':'' \<notin> set p \<and> p \<noteq> []"
  by (auto simp: ProviderM365_def ProviderGWS_def lower_byte_def)

lemma ValidateTarget_Inr:
  assumes "ValidateTarget raw = Inr t"
  obtains p d where "p = ProviderM365 \<or> p = ProviderGWS" "d \<noteq> []" "contains d ''.''" "to_lower d = d"
    "t_canonical t = p @ '':'' @ d" "to_lower (trim_space raw) = p @ '':'' @ d"
    "t_raw t = trim_space raw" "t_meta t = [(''provider'', p), (''domain'', d)]"
proof -
  from assms obtain p d where sc: "SplitCanonical (to_lower (trim_space raw)) = Some (p, d)"
    and ok: "p = ProviderM365 \<or> p = ProviderGWS" "contains d ''.''"
    and t: "t_raw t = trim_space raw" "t_canonical t = Canonical p d"
      "t_meta t = [(''provider'', p), (''domain'', d)]"
    by (auto simp: ValidateTarget_def Let_def split: option.splits if_splits)
  from SplitCanonical_Some [OF sc] have eq: "to_lower (trim_space raw) = p @ '':'' @ d" and "d \<noteq> []"
    by auto
  have "to_lower (p @ '':'' @ d) = p @ '':'' @ d"
    using to_lower_idem [of "trim_space raw"] unfolding eq .
  then have low: "to_lower p = p" "to_lower d = d" by auto
  then have "t_canonical t = p @ '':'' @ d" by (simp add: t Canonical_def)
  with that ok \<open>d \<noteq> []\<close> low eq t show thesis by blast
qed

lemma Collect_canonical:
  assumes "p = ProviderM365 \<or> p = ProviderGWS" "d \<noteq> []" "t_canonical t = p @ '':'' @ d"
  shows "Collect src now t =
    (case src p d of Inl e \<Rightarrow> Inl (SourceError e) | Inr st \<Rightarrow> Inr (Evaluate (complete_state p d now st)))"
  using assms provider_lower [of p] by (simp add: Collect_def SplitCanonical_append [simplified])

text \<open>
  What the collector relies on from a source: the snapshot it returns names no other tenant
  than the one asked for.
\<close>

definition same_tenant :: "'e source \<Rightarrow> bool" where
  "same_tenant src \<longleftrightarrow> (\<forall>p d st. src p d = Inr st \<longrightarrow>
     (ts_provider st = [] \<or> ts_provider st = p) \<and> (ts_domain st = [] \<or> ts_domain st = d))"

lemma collect_targets:
  assumes "same_tenant src" "ValidateTarget raw = Inr t" "Collect src now t = Inr fs" "f \<in> set fs"
  shows "f_target f = t_canonical t \<and> ValidateForIngest f = None"
proof -
  from assms(2) obtain p d where pd: "p = ProviderM365 \<or> p = ProviderGWS" "d \<noteq> []"
    "to_lower d = d" "t_canonical t = p @ '':'' @ d" by (rule ValidateTarget_Inr)
  from assms(3) obtain st where st: "src p d = Inr st" "fs = Evaluate (complete_state p d now st)"
    by (auto simp: Collect_canonical [OF pd(1,2,4)] split: sum.splits)
  let ?st = "complete_state p d now st"
  have "ts_provider ?st = p" "ts_domain ?st = d"
    using assms(1) st(1) by (auto simp: complete_state_def Let_def same_tenant_def)
  then have "Canonical (ts_provider ?st) (ts_domain ?st) = t_canonical t"
    using pd provider_lower [of p] by (simp add: Canonical_def)
  moreover have "emitted (Canonical (ts_provider ?st) (ts_domain ?st)) ?st f"
    using assms(4) st(2) by (auto intro: Evaluate_emitted)
  ultimately have "emitted (t_canonical t) ?st f" "t_canonical t \<noteq> []" using pd by auto
  then show ?thesis
    by (intro conjI emitted_ingest [of "t_canonical t" ?st]) (auto simp: emitted_def)
qed

text \<open>The contract as an interface: whatever keeps it has its scans ingested under the target.\<close>

locale posture_source =
  fixes src :: "string \<Rightarrow> string \<Rightarrow> 'e + tenant_state"
  assumes names_tenant: "same_tenant src"
begin

lemma collected_targets:
  assumes "ValidateTarget raw = Inr t" "Collect src now t = Inr fs"
  shows "list_all (\<lambda>f. f_target f = t_canonical t \<and> ValidateForIngest f = None) fs"
  using collect_targets [OF names_tenant assms] by (simp add: list_all_iff)

lemma collected_evaluates:
  assumes "ValidateTarget raw = Inr t"
  obtains p d where "t_canonical t = p @ '':'' @ d" "p = ProviderM365 \<or> p = ProviderGWS"
    "Collect src now t =
      (case src p d of Inl e \<Rightarrow> Inl (SourceError e) | Inr st \<Rightarrow> Inr (Evaluate (complete_state p d now st)))"
  using assms by (elim ValidateTarget_Inr) (metis Collect_canonical)

end

end
