(* ===== verification/Sched_Props.thy ===== *)
theory Sched_Props
  imports Sched Collector
begin

text \<open>
  The properties of the scheduler: backoff, the failure tracker of a loop, the targets a
  reachable scheduler holds, and a scan of the tenant collector end to end.
\<close>

section \<open>Backoff\<close>

text \<open>
  The retry delay after the n-th consecutive failure is the base doubled n - 1 times,
  capped at the maximum; in particular it is positive and never wraps. The bounds of the
  configuration are below 2^62 nanoseconds (146 years).
\<close>

theorem backoff_exact:
  assumes "1 \<le> n" "sc_retry_base (sched_withDefaults cfg) < 2 ^ 62" "sc_retry_max (sched_withDefaults cfg) \<le> 2 ^ 62"
  shows "backoffFor (sched_withDefaults cfg) n =
      min (sc_retry_base (sched_withDefaults cfg) * 2 ^ nat (n - 1)) (sc_retry_max (sched_withDefaults cfg)) \<and>
    0 < backoffFor (sched_withDefaults cfg) n"
proof -
  have "backoffFor (sched_withDefaults cfg) n =
      min (sc_retry_base (sched_withDefaults cfg) * 2 ^ nat (n - 1)) (sc_retry_max (sched_withDefaults cfg))"
    unfolding backoffFor_def by (rule backoff_loop_exact [OF sched_withDefaults_pos(1) assms(2,3)])
  then show ?thesis using sched_withDefaults_pos [of cfg] by simp
qed

definition zero_cfg :: sched_config where
  "zero_cfg = \<lparr>sc_workers = 0, sc_scan_timeout = 0, sc_retry_base = 0, sc_retry_max = 0, sc_interval_override = 0\<rparr>"

lemma zero_cfg_simps [simp]:
  "sc_retry_base (sched_withDefaults zero_cfg) = 30 * second"
  "sc_retry_max (sched_withDefaults zero_cfg) = 15 * minute"
  by (simp_all add: sched_withDefaults_def zero_cfg_def)

theorem backoff_exact_witness:
  "backoffFor (sched_withDefaults zero_cfg) 3 = 120 * second \<and>
   backoffFor (sched_withDefaults zero_cfg) 1000 = 15 * minute"
proof -
  have "(30 * second) * 2 ^ nat (1000 - 1) \<ge> 15 * minute"
  proof -
    have "(2 :: int) ^ 10 \<le> 2 ^ nat (1000 - 1)" by (intro power_increasing) auto
    then have "(30 * second) * 2 ^ 10 \<le> (30 * second) * 2 ^ nat (1000 - 1)"
      by (intro mult_left_mono) (auto simp: second_def)
    then show ?thesis by (simp add: second_def minute_def)
  qed
  then show ?thesis
    using backoff_exact [of 3 zero_cfg] backoff_exact [of 1000 zero_cfg]
    by (simp add: second_def minute_def)
qed

section \<open>The failure tracker\<close>

text \<open>The finished scans of one target in order: the instant and the error, if any.\<close>

definition track_run ::
  "sched_config \<Rightarrow> ('e scan_error \<Rightarrow> bool) \<Rightarrow> target \<Rightarrow> (time \<times> 'e scan_error option) list \<Rightarrow> tracker \<Rightarrow> tracker" where
  "track_run cfg canceled t scans tk =
     fold (\<lambda>(now, err) tk. fst (track_result cfg canceled now t err tk)) scans tk"

text \<open>A scan that failed on its own, not because the loop was stopped.\<close>

definition is_failure :: "('e scan_error \<Rightarrow> bool) \<Rightarrow> time \<times> 'e scan_error option \<Rightarrow> bool" where
  "is_failure canceled scan = (case snd scan of None \<Rightarrow> False | Some e \<Rightarrow> \<not> canceled e)"

definition failure_streak :: "('e scan_error \<Rightarrow> bool) \<Rightarrow> (time \<times> 'e scan_error option) list \<Rightarrow> nat" where
  "failure_streak canceled scans = length (takeWhile (is_failure canceled) (rev scans))"

lemma track_result_failures:
  "failures_of (fst (track_result cfg canceled now t err tk)) (t_canonical t) =
     (if is_failure canceled (now, err) then failures_of tk (t_canonical t) + 1 else 0)"
  "next_ok_of (fst (track_result cfg canceled now t err tk)) (t_canonical t) =
     (if is_failure canceled (now, err)
      then now + backoffFor cfg (failures_of tk (t_canonical t) + 1) else 0)"
  by (simp_all add: track_result_def is_failure_def failures_of_def next_ok_of_def Let_def split: option.splits)

lemma track_run_failures:
  "failures_of (track_run cfg canceled t scans empty_tracker) (t_canonical t) =
     int (failure_streak canceled scans)"
proof (induction scans rule: rev_induct)
  case Nil
  then show ?case by (simp add: track_run_def failures_of_def empty_tracker_def failure_streak_def)
next
  case (snoc scan scans)
  obtain now err where scan: "scan = (now, err)" by fastforce
  have "track_run cfg canceled t (scans @ [scan]) empty_tracker =
      fst (track_result cfg canceled now t err (track_run cfg canceled t scans empty_tracker))"
    by (simp add: track_run_def scan)
  then show ?case using snoc track_result_failures(1) [of cfg canceled now t err]
    by (simp add: failure_streak_def scan)
qed

text \<open>
  Whatever the history of a target's scans, after a failed scan at instant \<open>now\<close> the
  loop skips the target until \<open>now\<close> plus the backoff of its failure streak, and after any
  other scan it is eligible at once; the other targets are not affected.
\<close>

theorem tracker_gates_failures:
  assumes "c \<noteq> t_canonical t"
  shows "eligible (track_run cfg canceled t (scans @ [(now, err)]) empty_tracker) later t =
      (if is_failure canceled (now, err)
       then now + backoffFor cfg (int (failure_streak canceled (scans @ [(now, err)]))) \<le> later
       else 0 \<le> later) \<and>
    failures_of (track_run cfg canceled t (scans @ [(now, err)]) empty_tracker) c = 0 \<and>
    next_ok_of (track_run cfg canceled t (scans @ [(now, err)]) empty_tracker) c = 0"
proof -
  let ?tk = "track_run cfg canceled t scans empty_tracker"
  have last: "track_run cfg canceled t (scans @ [(now, err)]) empty_tracker =
      fst (track_result cfg canceled now t err ?tk)"
    by (simp add: track_run_def)
  have streak: "is_failure canceled (now, err) \<Longrightarrow>
      int (failure_streak canceled (scans @ [(now, err)])) = failures_of ?tk (t_canonical t) + 1"
    by (simp add: track_run_failures failure_streak_def)
  have others: "failures_of (track_run cfg canceled t xs empty_tracker) c = 0 \<and>
      next_ok_of (track_run cfg canceled t xs empty_tracker) c = 0" for xs
  proof (induction xs rule: rev_induct)
    case Nil
    then show ?case by (simp add: track_run_def failures_of_def next_ok_of_def empty_tracker_def)
  next
    case (snoc x xs)
    obtain n e where x: "x = (n, e)" by fastforce
    have "track_run cfg canceled t (xs @ [x]) empty_tracker =
        fst (track_result cfg canceled n t e (track_run cfg canceled t xs empty_tracker))"
      by (simp add: track_run_def x)
    then show ?case using snoc track_result_other [OF assms, of cfg canceled n e] by simp
  qed
  have "eligible (track_run cfg canceled t (scans @ [(now, err)]) empty_tracker) later t =
      (if is_failure canceled (now, err)
       then now + backoffFor cfg (int (failure_streak canceled (scans @ [(now, err)]))) \<le> later
       else 0 \<le> later)"
    using track_result_failures(2) [of cfg canceled now t err ?tk] streak
    by (simp add: eligible_def last not_less)
  then show ?thesis using others [of "scans @ [(now, err)]"] by simp
qed

theorem tracker_gates_failures_witness:
  "\<not> eligible (track_run (sched_withDefaults zero_cfg) (\<lambda>_. False)
      \<lparr>t_raw = [], t_canonical = ''m365:a.b'', t_meta = []\<rparr>
      ([(5, Some (CollectFailed ()))] @ [(10, Some (CollectFailed ()))]) empty_tracker)
    (10 + 59 * second) \<lparr>t_raw = [], t_canonical = ''m365:a.b'', t_meta = []\<rparr>"
  using tracker_gates_failures [of "''other''" "\<lparr>t_raw = [], t_canonical = ''m365:a.b'', t_meta = []\<rparr>"
      "sched_withDefaults zero_cfg" "\<lambda>_. False" "[(5, Some (CollectFailed ()))]" 10 "Some (CollectFailed ())"
      "10 + 59 * second"]
  by (simp add: is_failure_def failure_streak_def backoffFor_def wrap64_def Let_def second_def minute_def numeral_2_eq_2)

section \<open>Reachable schedulers\<close>

text \<open>What callers can do to a scheduler.\<close>

inductive sched_step :: "'e scheduler \<Rightarrow> 'e scheduler \<Rightarrow> bool" where
  step_register: "Register c s = Inr s' \<Longrightarrow> sched_step s s'"
| step_add: "AddTarget module raw s = Inr (s', t, launched) \<Longrightarrow> sched_step s s'"
| step_remove: "sched_step s (RemoveTarget module canonical s)"
| step_start: "Start s = Inr (s', ids) \<Longrightarrow> sched_step s s'"

inductive sched_reachable :: "sched_config \<Rightarrow> 'e scheduler \<Rightarrow> bool" where
  reach_new: "sched_reachable cfg (NewScheduler cfg)"
| reach_step: "sched_reachable cfg s \<Longrightarrow> sched_step s s' \<Longrightarrow> sched_reachable cfg s'"

definition registration_ok :: "string \<Rightarrow> 'e registration \<Rightarrow> bool" where
  "registration_ok module reg \<longleftrightarrow>
     mi_id (co_describe (rg_collector reg)) = module \<and> module \<noteq> [] \<and> rg_info reg = co_describe (rg_collector reg) \<and>
     amap_inv (rg_targets reg) \<and>
     (\<forall>(c, t) \<in> set (rg_targets reg). c = t_canonical t \<and> (\<exists>raw. co_validate (rg_collector reg) raw = Inr t))"

definition sched_inv :: "'e scheduler \<Rightarrow> bool" where
  "sched_inv s \<longleftrightarrow> (\<forall>module reg. map_of (sd_modules s) module = Some reg \<longrightarrow> registration_ok module reg)"

lemma sched_step_inv:
  assumes "sched_step s s'" "sched_inv s"
  shows "sched_inv s'"
  using assms(1)
proof (cases rule: sched_step.cases)
  case (step_register c)
  let ?reg = "\<lparr>rg_collector = c, rg_info = co_describe c, rg_targets = []\<rparr>"
  from step_register have "mi_id (co_describe c) \<noteq> []"
    and s': "s' = s\<lparr>sd_modules := amap_put (mi_id (co_describe c)) ?reg (sd_modules s)\<rparr>"
    by (auto simp: Register_def Let_def split: if_splits)
  then have "registration_ok (mi_id (co_describe c)) ?reg" by (simp add: registration_ok_def)
  then show ?thesis using assms(2) s' by (simp add: sched_inv_def)
next
  case (step_add module raw t launched)
  then obtain reg where reg: "map_of (sd_modules s) module = Some reg"
    and t: "co_validate (rg_collector reg) raw = Inr t"
    and s': "s' = s\<lparr>sd_modules := amap_put module
        (reg\<lparr>rg_targets := amap_put (t_canonical t) t (rg_targets reg)\<rparr>) (sd_modules s)\<rparr>"
    by (auto simp: AddTarget_def split: option.splits sum.splits)
  have ok: "registration_ok module reg" using assms(2) reg by (simp add: sched_inv_def)
  have "\<forall>(c, t') \<in> set (amap_put (t_canonical t) t (rg_targets reg)).
      c = t_canonical t' \<and> (\<exists>raw. co_validate (rg_collector reg) raw = Inr t')"
  proof
    fix x assume "x \<in> set (amap_put (t_canonical t) t (rg_targets reg))"
    then have "x = (t_canonical t, t) \<or> x \<in> set (rg_targets reg)"
      using set_amap_put [of "t_canonical t" t "rg_targets reg"] by blast
    then show "case x of (c, t') \<Rightarrow> c = t_canonical t' \<and> (\<exists>raw. co_validate (rg_collector reg) raw = Inr t')"
      using ok t by (auto simp: registration_ok_def)
  qed
  then have "registration_ok module (reg\<lparr>rg_targets := amap_put (t_canonical t) t (rg_targets reg)\<rparr>)"
    using ok by (simp add: registration_ok_def)
  then show ?thesis using assms(2) s' by (simp add: sched_inv_def)
next
  case (step_remove module canonical)
  show ?thesis
  proof (cases "map_of (sd_modules s) module")
    case None
    then show ?thesis using assms(2) step_remove by (simp add: RemoveTarget_def)
  next
    case (Some reg)
    have ok: "registration_ok module reg" using assms(2) Some by (simp add: sched_inv_def)
    then have "registration_ok module (reg\<lparr>rg_targets := amap_del canonical (rg_targets reg)\<rparr>)"
      by (auto simp: registration_ok_def amap_del_def distinct_map_filter)
    then show ?thesis using assms(2) Some step_remove by (simp add: sched_inv_def RemoveTarget_def)
  qed
next
  case (step_start ids)
  then show ?thesis using assms(2) by (auto simp: Start_def sched_inv_def split: if_splits)
qed

lemma reachable_inv: "sched_reachable cfg s \<Longrightarrow> sched_inv s"
proof (induction rule: sched_reachable.induct)
  case (reach_new cfg)
  then show ?case by (simp add: sched_inv_def NewScheduler_def)
next
  case (reach_step cfg s s')
  then show ?case by (blast intro: sched_step_inv)
qed

text \<open>
  In every reachable scheduler the targets listed for a module have distinct canonical
  names and each of them was accepted by that module's collector; the module's recorded id is
  the one its collector describes. So nothing unvalidated is ever scanned, and nothing twice
  in one sweep.
\<close>

theorem reachable_targets_valid:
  assumes "sched_reachable cfg s" "map_of (sd_modules s) module = Some reg"
  shows "mi_id (co_describe (rg_collector reg)) = module \<and>
    distinct (map t_canonical (ListTargets module s)) \<and>
    (\<forall>t \<in> set (ListTargets module s). \<exists>raw. co_validate (rg_collector reg) raw = Inr t)"
proof -
  have ok: "registration_ok module reg" using reachable_inv [OF assms(1)] assms(2) by (simp add: sched_inv_def)
  have keys: "map t_canonical (map snd m) = map fst m" if "\<forall>(c, t) \<in> set m. c = t_canonical t" for m
    using that by (induction m) auto
  have "\<forall>(c, t) \<in> set (rg_targets reg). c = t_canonical t" "amap_inv (rg_targets reg)"
    using ok by (auto simp: registration_ok_def)
  then have "distinct (map t_canonical (map snd (rg_targets reg)))" by (simp only: keys)
  then show ?thesis using ok assms(2)
    by (force simp: ListTargets_def snapshotTargets_def registration_ok_def)
qed

section \<open>The tenant collector in the scheduler\<close>

datatype 'e tenant_error = BadTarget ingest_error | CollectError "'e collect_error"

definition tenant_collector :: "'e source \<Rightarrow> 'e tenant_error collector" where
  "tenant_collector src =
     \<lparr>co_describe = Describe,
      co_validate = (\<lambda>raw. case ValidateTarget raw of Inl e \<Rightarrow> Inl (BadTarget e) | Inr t \<Rightarrow> Inr t),
      co_collect = (\<lambda>now t. case Collect src now t of Inl e \<Rightarrow> Inl (CollectError e) | Inr fs \<Rightarrow> Inr fs)\<rparr>"

definition tenant_registration :: "'e source \<Rightarrow> 'e tenant_error registration" where
  "tenant_registration src = \<lparr>rg_collector = tenant_collector src, rg_info = Describe, rg_targets = []\<rparr>"

definition sample_sched :: "unit tenant_error scheduler" where
  "sample_sched = \<lparr>sd_cfg = sched_withDefaults zero_cfg,
     sd_modules = [(ModuleID, tenant_registration (\<lambda>p d. Inr empty_state))], sd_started = False\<rparr>"

lemma sample_sched_reachable: "sched_reachable zero_cfg sample_sched"
proof -
  have "Register (tenant_collector (\<lambda>p d. Inr empty_state)) (NewScheduler zero_cfg) = Inr sample_sched"
    by (simp add: Register_def Let_def NewScheduler_def sample_sched_def tenant_collector_def tenant_registration_def
        Describe_def ModuleID_def amap_put_def)
  then show ?thesis using sched_reachable.intros sched_step.intros(1) by blast
qed

theorem reachable_targets_valid_witness:
  "distinct (map t_canonical (ListTargets ModuleID sample_sched))"
  using reachable_targets_valid [OF sample_sched_reachable, of ModuleID
      "tenant_registration (\<lambda>p d. Inr empty_state)"]
  by (simp add: sample_sched_def)

text \<open>
  A scan of an accepted tenant, end to end. If the provider cannot be read, the store is
  left exactly as it was: no finding is resolved because nobody could look. If it can, the
  engine rejects none of the findings of the checks. The source names no other tenant than
  the one asked for, and ids can be made.
\<close>

theorem tenant_scan_end_to_end:
  assumes "ValidateTarget raw = Inr t" "same_tenant src" "\<forall>now n. newID now n \<noteq> None"
  shows "case scanOne mem_ops newID now (tenant_registration src) t s of
      (s', Inl e) \<Rightarrow> s' = s \<and> (\<exists>err. e = CollectFailed (CollectError (SourceError err)))
    | (s', Inr res) \<Rightarrow> sr_module res = ModuleID \<and> rr_rejected (sr_reconcile res) = [] \<and>
        (\<exists>p d st. t_canonical t = p @ '':'' @ d \<and> src p d = Inr st)"
proof -
  from assms(1) obtain p d where pd: "p = ProviderM365 \<or> p = ProviderGWS" "d \<noteq> []"
    "t_canonical t = p @ '':'' @ d" by (rule ValidateTarget_Inr)
  note coll = Collect_canonical [OF pd, of src now]
  show ?thesis
  proof (cases "src p d")
    case (Inl e)
    then show ?thesis using coll by (simp add: scanOne_def tenant_registration_def tenant_collector_def)
  next
    case (Inr st)
    let ?fs = "Evaluate (complete_state p d now st)"
    have fs: "Collect src now t = Inr ?fs" using coll Inr by simp
    have valid: "ValidateForIngest f = None" if "f \<in> set ?fs" for f
      using collect_targets [OF assms(2,1) fs that] by simp
    have rej: "rejections xs = []" if "\<And>f. f \<in> set xs \<Longrightarrow> ValidateForIngest f = None" for xs
      using that by (induction xs) (auto simp: rejections_Cons)
    obtain s' res where run: "Reconcile mem_ops newID now Describe (t_canonical t) ?fs s = (s', res, None)"
      using mem.Reconcile_total [of newID now Describe "t_canonical t" ?fs s] assms(3) by blast
    have "rr_rejected res = []" using Reconcile_rejected [OF run] rej [of ?fs] valid by simp
    then show ?thesis using fs run pd(3) Inr
      by (auto simp: scanOne_def tenant_registration_def tenant_collector_def Describe_def)
  qed
qed

theorem tenant_scan_end_to_end_witness:
  "fst (scanOne mem_ops (\<lambda>_ _. Some ''i'') 7 (tenant_registration (\<lambda>p d. Inl ()))
     \<lparr>t_raw = ''m365:a.b'', t_canonical = ''m365:a.b'',
      t_meta = [(''provider'', ''m365''), (''domain'', ''a.b'')]\<rparr> NewMemStore) = NewMemStore"
proof -
  let ?t = "\<lparr>t_raw = ''m365:a.b'', t_canonical = ''m365:a.b'',
      t_meta = [(''provider'', ''m365''), (''domain'', ''a.b'')]\<rparr>"
  have valid: "ValidateTarget ''m365:a.b'' = Inr ?t" by code_simp
  have "scanOne mem_ops (\<lambda>_ _. Some ''i'') 7 (tenant_registration (\<lambda>p d. Inl ())) ?t NewMemStore =
      (NewMemStore, Inl (CollectFailed (CollectError (SourceError ()))))"
    using Collect_canonical [of ProviderM365 "''a.b''" ?t "\<lambda>p d. Inl ()" 7]
    by (simp add: scanOne_def tenant_registration_def tenant_collector_def ProviderM365_def)
  then show ?thesis
    using tenant_scan_end_to_end [OF valid, of "\<lambda>p d. Inl ()" "\<lambda>_ _. Some ''i''" NewMemStore 7]
    by (simp add: same_tenant_def)
qed

end
