(* ===== verification/Live_Props.thy ===== *)
theory Live_Props
  imports Live_Source Provider_Props Sched_Props
begin

text \<open>
  What the live source guarantees: a snapshot never names another tenant (so the live source is
  a \<open>posture_source\<close>), where its requests and secrets go, and when a cached token is reused.
\<close>

section \<open>The live source is a posture source\<close>

lemma graph_assemble_names:
  "ts_provider (graph_assemble p d us mfa roles grants ca legacy sh log) = ProviderM365"
  "ts_domain (graph_assemble p d us mfa roles grants ca legacy sh log) = d"
  by (cases roles; cases grants; cases ca; cases legacy; cases sh; cases log;
      simp add: graph_assemble_def graph_add_sign_ins_def Let_def)+

lemma gws_assemble_names:
  "ts_provider (gws_assemble p d us log) = ProviderGWS" "ts_domain (gws_assemble p d us log) = d"
  by (cases log; simp add: gws_assemble_def gws_add_sign_ins_def gws_limit_notes_def Let_def)+

lemma live_Snapshot_names:
  assumes "fst (run_state (live_Snapshot order env cs p d) s) = Inr st"
  shows "ts_provider st = p \<and> ts_domain st = d"
proof (cases "p = ProviderM365")
  case True
  then obtain c where "fst (run_state (graph_Snapshot order (live_graph env c) d) s) = Inr st"
    using assms by (auto simp: live_Snapshot_def split: option.splits)
  then show ?thesis using True by (elim graph_Snapshot_Inr) (simp add: graph_assemble_names)
next
  case False
  then have p: "p = ProviderGWS" using assms by (auto simp: live_Snapshot_def split: if_splits)
  then obtain c where "fst (run_state (gws_Snapshot (live_gws env c) d) s) = Inr st"
    using assms False by (auto simp: live_Snapshot_def split: option.splits)
  then show ?thesis using p by (elim gws_Snapshot_Inr) (simp add: gws_assemble_names)
qed

lemma graph_assemble_domains:
  "ts_domains (graph_assemble p d us mfa roles grants ca legacy sh log) =
     (case mp_dns p of None \<Rightarrow> [] | Some r \<Rightarrow> EmailAuth r d)"
  by (cases roles; cases grants; cases ca; cases legacy; cases sh; cases log;
      simp add: graph_assemble_def graph_add_sign_ins_def add_area_def add_dns_def blank_state_def empty_state_def
        Let_def split: option.split)

lemma gws_assemble_domains:
  "ts_domains (gws_assemble p d us log) = (case gp_dns p of None \<Rightarrow> [] | Some r \<Rightarrow> EmailAuth r d)"
  by (cases log)
    (simp add: gws_assemble_def gws_add_sign_ins_def gws_limit_notes_def add_dns_def blank_state_def empty_state_def
        Let_def split: option.split)

definition live_source ::
  "(oauth_grant list \<Rightarrow> oauth_grant list) \<Rightarrow> ('w, 'k) live_env \<Rightarrow> creds \<Rightarrow> 'w live \<Rightarrow> string source" where
  "live_source order env cs s = (\<lambda>p d. fst (run_state (live_Snapshot order env cs p d) s))"

interpretation live: posture_source "live_source order env cs s" for order env cs s
  by unfold_locales (auto simp: same_tenant_def live_source_def dest: live_Snapshot_names)

section \<open>Requests\<close>

text \<open>
  An outside world that answers as it likes, from everything it was asked so far, and keeps the
  log of the requests; the clock and the files are read off the same history.
\<close>

definition logging_env ::
  "(http_request list \<Rightarrow> http_request \<Rightarrow> string + http_response) \<Rightarrow> (http_request list \<Rightarrow> time) \<Rightarrow>
   (http_request list \<Rightarrow> string \<Rightarrow> file_result) \<Rightarrow> 'k key_lib \<Rightarrow> ('k \<Rightarrow> nat list \<Rightarrow> string + string) \<Rightarrow>
   resolver option \<Rightarrow> (http_request list, 'k) live_env" where
  "logging_env answer clock files key sign dns =
     \<lparr>le_http = (\<lambda>req. State (\<lambda>log. (answer log req, log @ [req]))),
      le_now = State (\<lambda>log. (clock log, log)), le_read_file = (\<lambda>path. State (\<lambda>log. (files log path, log))),
      le_keys = key, le_rsa_sign = sign, le_dns = dns\<rparr>"

lemma asks_http: "P req \<Longrightarrow> asks (\<lambda>log. log) P 1 (le_http (logging_env answer clock files key sign dns) req)"
  by (simp add: asks_def logging_env_def)

lemma asks_quiet:
  "asks (\<lambda>log. log) P 0 (le_now (logging_env answer clock files key sign dns))"
  "asks (\<lambda>log. log) P 0 (le_read_file (logging_env answer clock files key sign dns) path)"
  by (simp_all add: asks_def logging_env_def)

lemma asks_outside: "asks (\<lambda>log. log) P k m \<Longrightarrow> asks lv_world P k (outside m)"
  by (simp add: asks_def)

lemma asks_get: "asks lv_world P 0 State_Monad.get"
  by (simp add: asks_def)

lemma asks_cached: "asks lv_world P 0 (cached (logging_env answer clock files key sign dns) k)"
  unfolding cached_def
  by (intro asks_bind_le [OF asks_get] asks_cases asks_bind_le [OF asks_outside [OF asks_quiet(1)]]) simp_all

lemma asks_store: "asks lv_world P 0 (store_token k t e)"
  by (simp add: asks_def store_token_def)

lemma asks_fresh:
  assumes "\<And>headers body. P \<lparr>hq_method = ''POST'', hq_url = endpoint, hq_headers = headers, hq_body = body\<rparr>"
  shows "asks lv_world P 1 (fresh_token (logging_env answer clock files key sign dns) k endpoint form)"
proof -
  let ?env = "logging_env answer clock files key sign dns"
  have "asks (\<lambda>log. log) P 1 (postToken ?env endpoint form)"
    unfolding postToken_def Let_def
    by (intro asks_bind_le [OF asks_http] asks_cases asks_bind_le [OF asks_quiet(1)] assms) simp_all
  note step = asks_bind_le [OF asks_outside [OF this] order_refl]
  show ?thesis
    unfolding fresh_token_def by (rule step, intro asks_cases asks_bind_le [OF asks_store]) simp_all
qed

lemma asks_bearer:
  assumes "P \<lparr>hq_method = ''GET'', hq_url = u,
    hq_headers = [(''Authorization'', ''Bearer '' @ b), (''Accept'', ''application/json'')], hq_body = []\<rparr>"
  shows "asks lv_world P 1 (outside (bearer_get (logging_env answer clock files key sign dns) u b))"
  unfolding bearer_get_def
  by (rule asks_outside, rule asks_bind_le, rule asks_http, rule assms) simp_all

text \<open>
  Where a request of a Microsoft scan may go: the token request to the login server of the
  tenant, or a read below the Graph base. Of a Google scan: a token request, or a read below one
  of the two Admin SDK bases.
\<close>

definition graph_request :: "m365_creds \<Rightarrow> http_request \<Rightarrow> bool" where
  "graph_request c r \<longleftrightarrow>
     hq_method r = ''POST'' \<and> hq_url r = ''https://login.microsoftonline.com/'' @ mc_tenant c @ ''/oauth2/v2.0/token'' \<or>
     hq_method r = ''GET'' \<and> has_prefix (hq_url r) graph_defaultBase \<and> hq_body r = []"

definition gws_request :: "http_request \<Rightarrow> bool" where
  "gws_request r \<longleftrightarrow> hq_method r = ''POST'' \<or>
     hq_method r = ''GET'' \<and> (has_prefix (hq_url r) gws_defaultBase \<or> has_prefix (hq_url r) gws_reportsBase) \<and>
     hq_body r = []"

lemma m365Token_asks:
  "asks lv_world (graph_request c) 1 (m365Token (logging_env answer clock files key sign dns) c)"
proof -
  let ?url = "''https://login.microsoftonline.com/'' @ mc_tenant c @ ''/oauth2/v2.0/token''"
  have fresh: "asks lv_world (graph_request c) (1 - 0)
      (fresh_token (logging_env answer clock files key sign dns) k ?url form)" for k form
    unfolding diff_zero by (rule asks_fresh) (simp add: graph_request_def)
  show ?thesis
    unfolding m365Token_def
    by (rule asks_bind_le [OF asks_cached zero_le]) (intro asks_option fresh asks_ret)
qed

lemma gwsToken_asks:
  "asks lv_world gws_request 1 (gwsToken (logging_env answer clock files key sign dns) c)"
proof -
  let ?env = "logging_env answer clock files key sign dns"
  have fresh: "asks lv_world gws_request (1 - 0 - 0 - 0) (fresh_token ?env k e f)" for k e f
    unfolding diff_zero by (rule asks_fresh) (simp add: gws_request_def)
  have files: "asks lv_world P n (case r of FileMissing \<Rightarrow> a | FileError e \<Rightarrow> f e | FileBytes b \<Rightarrow> g b)"
    if "asks lv_world P n a" "\<And>e. asks lv_world P n (f e)" "\<And>b. asks lv_world P n (g b)" for P n r a f g
    using that by (cases r) simp_all
  show ?thesis
    unfolding gwsToken_def
    by (rule asks_bind_le [OF asks_cached zero_le], rule asks_option,
        rule asks_bind_le [OF asks_outside [OF asks_quiet(2)] zero_le], rule files)
      (intro asks_ret asks_option asks_sum asks_bind_le [OF asks_outside [OF asks_quiet(1)] zero_le] fresh)+
qed

lemma live_graph_asks:
  "asks lv_world (graph_request c) 19
     (graph_Snapshot order (live_graph (logging_env answer clock files key sign dns) c) d)"
proof -
  let ?env = "logging_env answer clock files key sign dns"
  have "asks lv_world (graph_request c) (1 + 18) (graph_Snapshot order (live_graph ?env c) d)"
  proof (rule graph_Snapshot_asks)
    show "asks lv_world (graph_request c) 1 (mp_token (live_graph ?env c))"
      by (simp add: live_graph_def m365Token_asks [unfolded One_nat_def])
    show "asks lv_world (graph_request c) 0 (mp_now (live_graph ?env c))"
      by (simp add: live_graph_def asks_outside asks_quiet)
    show "asks lv_world (graph_request c) 1 (mp_fetch (live_graph ?env c) (graph_base (live_graph ?env c) @ path) tok)"
      for path tok
      unfolding live_graph_def graph_base_def graph_provider.simps
      by (rule asks_bearer) (simp add: graph_request_def)
  qed
  then show ?thesis by simp
qed

lemma live_gws_asks:
  "asks lv_world gws_request 12 (gws_Snapshot (live_gws (logging_env answer clock files key sign dns) c) d)"
proof -
  let ?env = "logging_env answer clock files key sign dns"
  have get: "asks lv_world gws_request 1 (gp_fetch (live_gws ?env c) (b @ path) tok)"
    if "b = gws_defaultBase \<or> b = gws_reportsBase" for b path tok
    unfolding live_gws_def gws_provider.simps by (rule asks_bearer) (use that in \<open>auto simp: gws_request_def\<close>)
  have "asks lv_world gws_request (1 + 11) (gws_Snapshot (live_gws ?env c) d)"
  proof (rule gws_Snapshot_asks)
    show "asks lv_world gws_request 1 (gp_token (live_gws ?env c))"
      by (simp add: live_gws_def gwsToken_asks [unfolded One_nat_def])
    show "asks lv_world gws_request 0 (gp_now (live_gws ?env c))"
      by (simp add: live_gws_def asks_outside asks_quiet)
    show "asks lv_world gws_request 1 (gp_fetch (live_gws ?env c)
        ((if gp_base (live_gws ?env c) = [] then gws_defaultBase else gp_base (live_gws ?env c)) @ path) tok)" for path tok
      by (rule get) (simp add: live_gws_def)
    show "asks lv_world gws_request 1 (gp_fetch (live_gws ?env c) (reportsBase (live_gws ?env c) @ path) tok)" for path tok
      by (rule get) (simp add: live_gws_def reportsBase_def)
  qed
  then show ?thesis by simp
qed

section \<open>The cache\<close>

lemma cached_run:
  "run_state (cached env k) s =
     (case lv_toks s k of
        None \<Rightarrow> (None, s)
      | Some (tok, exp) \<Rightarrow>
          (if fst (run_state (le_now env) (lv_world s)) \<le> exp - 2 * minute then Some tok else None,
           s\<lparr>lv_world := snd (run_state (le_now env) (lv_world s))\<rparr>))"
  by (auto simp: cached_def split: option.split)

lemma fresh_run:
  "run_state (fresh_token env k e f) s =
     (case run_state (postToken env e f) (lv_world s) of
        (Inl err, w) \<Rightarrow> (Inl err, s\<lparr>lv_world := w\<rparr>)
      | (Inr (tok, exp), w) \<Rightarrow> (Inr tok, s\<lparr>lv_world := w, lv_toks := (lv_toks s)(k \<mapsto> (tok, exp))\<rparr>))"
  by (auto simp: fresh_token_def store_token_def split: prod.split sum.split)

lemma m365Token_result:
  assumes "run_state (m365Token env c) s = (Inr tok, s1)"
  shows "\<exists>exp. lv_toks s1 = (lv_toks s)(m365_key c \<mapsto> (tok, exp))"
proof (cases "fst (run_state (cached env (m365_key c)) s)")
  case None
  obtain s' where c: "run_state (cached env (m365_key c)) s = (None, s')" using None by (metis prod.collapse)
  then have "lv_toks s' = lv_toks s" by (auto simp: cached_run split: option.splits if_splits)
  then show ?thesis using assms c
    by (auto simp: m365Token_def fresh_run split: prod.splits sum.splits)
next
  case (Some t)
  obtain s' where c: "run_state (cached env (m365_key c)) s = (Some t, s')" using Some by (metis prod.collapse)
  then obtain exp where "lv_toks s (m365_key c) = Some (t, exp)" "lv_toks s' = lv_toks s"
    by (auto simp: cached_run split: option.splits if_splits)
  moreover have "t = tok" "s' = s1" using assms c by (auto simp: m365Token_def)
  ultimately show ?thesis by (metis fun_upd_triv)
qed

section \<open>Properties\<close>


text \<open>
  A token is reused until two minutes before it expires: whatever token a Microsoft scan
  gets is cached under the key of its credentials, every other entry of the cache is left alone,
  and as long as the entry stands a call before that time answers it and only reads the clock.
\<close>

theorem token_reused:
  assumes "run_state (m365Token env c) s = (Inr tok, s1)"
  shows "\<exists>exp. lv_toks s1 = (lv_toks s)(m365_key c \<mapsto> (tok, exp)) \<and>
    (\<forall>s2. lv_toks s2 (m365_key c) = Some (tok, exp) \<longrightarrow>
      fst (run_state (le_now env) (lv_world s2)) \<le> exp - 2 * minute \<longrightarrow>
      run_state (m365Token env c) s2 = (Inr tok, s2\<lparr>lv_world := snd (run_state (le_now env) (lv_world s2))\<rparr>))"
proof -
  from m365Token_result [OF assms] obtain exp where "lv_toks s1 = (lv_toks s)(m365_key c \<mapsto> (tok, exp))" ..
  moreover have "run_state (m365Token env c) s2 = (Inr tok, s2\<lparr>lv_world := snd (run_state (le_now env) (lv_world s2))\<rparr>)"
    if "lv_toks s2 (m365_key c) = Some (tok, exp)" "fst (run_state (le_now env) (lv_world s2)) \<le> exp - 2 * minute" for s2
    using that by (simp add: m365Token_def cached_run)
  ultimately show ?thesis by blast
qed

text \<open>A network that grants every token for an hour, answers every read with an empty object, and no DNS.\<close>

definition sample_token_body :: string where
  "sample_token_body = (let q = (\<lambda>s. [CHR 0x22] @ s @ [CHR 0x22]) in
     ''{'' @ q ''access_token'' @ '':'' @ q ''t'' @ '','' @ q ''expires_in'' @ '':3600}'')"

definition sample_env :: "(unit, unit) live_env" where
  "sample_env =
     \<lparr>le_http = (\<lambda>req. ret (Inr \<lparr>hr_code = 200, hr_status = ''200 OK'',
        hr_body = (if hq_method req = ''POST'' then sample_token_body else ''{}'')\<rparr>)),
      le_now = ret unix_epoch, le_read_file = (\<lambda>_. ret (FileBytes ''{}'')), le_keys = \<lparr>kl_pem = Some, kl_pkcs8 = (\<lambda>_. None), kl_pkcs1 = (\<lambda>_. Inr ())\<rparr>,
      le_rsa_sign = (\<lambda>_ _. Inr ''s''), le_dns = Some (\<lambda>_. None)\<rparr>"

definition sample_creds :: m365_creds where
  "sample_creds = \<lparr>mc_domain = ''a.com'', mc_tenant = ''T'', mc_client = ''C'', mc_secret = ''S''\<rparr>"

lemma sample_token:
  "run_state (postToken sample_env e f) () = (Inr (''t'', unix_epoch + hour), ())"
proof -
  have "take (2 ^ 20) sample_token_body = sample_token_body"
    by (simp add: sample_token_body_def Let_def)
  moreover have "Unmarshal dec_token sample_token_body = Some (''t'', 3600)" by code_simp
  moreover have "token_ttl 3600 = hour" by (simp add: token_ttl_def wrap64_def time_consts)
  ultimately show ?thesis by (simp add: postToken_def sample_env_def)
qed

lemma sample_m365Token:
  "run_state (m365Token sample_env c) \<lparr>lv_toks = (\<lambda>_. None), lv_world = ()\<rparr> =
     (Inr ''t'', \<lparr>lv_toks = [m365_key c \<mapsto> (''t'', unix_epoch + hour)], lv_world = ()\<rparr>)"
  by (simp add: m365Token_def cached_run fresh_run sample_token)

theorem token_reused_witness:
  "run_state (m365Token sample_env sample_creds)
     \<lparr>lv_toks = [m365_key sample_creds \<mapsto> (''t'', unix_epoch + hour)], lv_world = ()\<rparr> =
   (Inr ''t'', \<lparr>lv_toks = [m365_key sample_creds \<mapsto> (''t'', unix_epoch + hour)], lv_world = ()\<rparr>)"
proof -
  from token_reused [OF sample_m365Token [of sample_creds]] obtain exp where
    "[m365_key sample_creds \<mapsto> (''t'', unix_epoch + hour)] = (\<lambda>_. None)(m365_key sample_creds \<mapsto> (''t'', exp))"
    and reuse: "\<forall>s2. lv_toks s2 (m365_key sample_creds) = Some (''t'', exp) \<longrightarrow>
      fst (run_state (le_now sample_env) (lv_world s2)) \<le> exp - 2 * minute \<longrightarrow>
      run_state (m365Token sample_env sample_creds) s2 =
        (Inr ''t'', s2\<lparr>lv_world := snd (run_state (le_now sample_env) (lv_world s2))\<rparr>)" by auto
  then have "exp = unix_epoch + hour" by (auto dest: fun_cong [of _ _ "m365_key sample_creds"])
  with reuse show ?thesis by (simp add: sample_env_def time_consts)
qed


definition sample_live :: "unit live" where
  "sample_live = \<lparr>lv_toks = (\<lambda>_. None), lv_world = ()\<rparr>"

lemma sample_live_snapshot:
  "\<exists>st. fst (run_state (live_Snapshot id sample_env \<lparr>cr_m365 = [sample_creds], cr_gws = []\<rparr> ProviderM365 ''a.com'')
     sample_live) = Inr st"
proof -
  let ?p = "live_graph sample_env sample_creds" and ?w = "\<lparr>lv_toks = [m365_key sample_creds \<mapsto> (''t'', unix_epoch + hour)], lv_world = ()\<rparr>"
  have get: "graph_get ?p tok path = ret (Inr ''{}'')" for tok path
  proof -
    have "take (32 * 2 ^ 20) ''{}'' = ''{}''" by simp
    then show ?thesis by (intro state_ext) (simp add: graph_get_def live_graph_def bearer_get_def sample_env_def Let_def)
  qed
  have tok: "run_state (mp_token ?p) sample_live = (Inr ''t'', ?w)"
    by (simp add: live_graph_def sample_live_def sample_m365Token)
  have users: "graph_users ?p ''t'' = ret (Inr ([], True))"
    by (simp add: graph_users_def graph_read_def get empty_body)
  have "equal_fold (mc_domain sample_creds) ''a.com''" by (simp add: sample_creds_def)
  then show ?thesis
    by (auto simp: live_Snapshot_def m365For_def graph_Snapshot_def tok users split: prod.split)
qed




end
