(* ===== verification/Notify.thy ===== *)
theory Notify
  imports Finding
begin

text \<open>
  The notification dispatcher (\<open>notify/notify.go\<close>, \<open>notify/bridge.go\<close>). Every method
  that takes the lock is one atomic step on the dispatcher's state and returns the digests it
  hands to the channels; the timer is a flag (armed or nil). Sending is a separate function
  over the outcomes of a channel's attempts. A map of pending events is insertion-ordered.
\<close>

section \<open>Events, digests and configuration\<close>

definition KindOpened :: string where "KindOpened = ''opened''"
definition KindResolved :: string where "KindResolved = ''resolved''"

record event =
  ev_kind :: string
  ev_module :: string
  ev_finding :: finding

record digest =
  dg_module :: string
  dg_opened :: "finding list"
  dg_resolved :: "finding list"
  dg_at :: time

definition digest_Empty :: "digest \<Rightarrow> bool" where
  "digest_Empty d \<longleftrightarrow> length (dg_opened d) = 0 \<and> length (dg_resolved d) = 0"

record notify_config =
  nc_flush_interval :: duration
  nc_max_batch :: int
  nc_min_severity :: severity
  nc_retries :: int
  nc_retry_delay :: duration

definition notify_withDefaults :: "notify_config \<Rightarrow> notify_config" where
  "notify_withDefaults c0 =
     (let c1 = (if nc_flush_interval c0 \<le> 0 then c0\<lparr>nc_flush_interval := 30 * second\<rparr> else c0);
          c2 = (if nc_max_batch c1 \<le> 0 then c1\<lparr>nc_max_batch := 100\<rparr> else c1);
          c3 = (if nc_retries c2 \<le> 0 then c2\<lparr>nc_retries := 3\<rparr> else c2)
      in if nc_retry_delay c3 \<le> 0 then c3\<lparr>nc_retry_delay := 5 * second\<rparr> else c3)"

definition severityRank :: "severity \<Rightarrow> int" where
  "severityRank s =
     (if s = SeverityCritical then 4 else if s = SeverityHigh then 3
      else if s = SeverityMedium then 2 else if s = SeverityLow then 1 else 0)"

section \<open>The insertion sort by severity\<close>

text \<open>
  \<open>sift j fs\<close> is the inner loop from position \<open>j\<close> downwards, \<open>sort_from i fs\<close> the outer
  loop from position \<open>i\<close> upwards with the remaining number of rounds.
\<close>

fun sift :: "nat \<Rightarrow> finding list \<Rightarrow> finding list" where
  "sift 0 fs = fs"
| "sift (Suc j) fs =
     (if severityRank (f_severity (fs ! Suc j)) > severityRank (f_severity (fs ! j))
      then sift j (fs[Suc j := fs ! j, j := fs ! Suc j])
      else fs)"

definition sortBySeverity :: "finding list \<Rightarrow> finding list" where
  "sortBySeverity fs = fold sift [1..<length fs] fs"

section \<open>The dispatcher\<close>

record dispatcher =
  dp_cfg :: notify_config
  dp_pending :: "(string \<times> event list) list"
  dp_seen :: "string list"
  dp_timer :: bool
  dp_closed :: bool

definition NewDispatcher :: "notify_config \<Rightarrow> dispatcher" where
  "NewDispatcher cfg = \<lparr>dp_cfg = notify_withDefaults cfg, dp_pending = [], dp_seen = [],
     dp_timer = False, dp_closed = False\<rparr>"

definition passesSeverity :: "notify_config \<Rightarrow> severity \<Rightarrow> bool" where
  "passesSeverity c s \<longleftrightarrow>
     (if nc_min_severity c = [] then True else severityRank s \<ge> severityRank (nc_min_severity c))"

definition build_digest :: "time \<Rightarrow> string \<times> event list \<Rightarrow> digest" where
  "build_digest now me =
     \<lparr>dg_module = fst me,
      dg_opened = sortBySeverity (map ev_finding (filter (\<lambda>e. ev_kind e = KindOpened) (snd me))),
      dg_resolved = map ev_finding (filter (\<lambda>e. ev_kind e = KindResolved) (snd me)),
      dg_at = now\<rparr>"

definition flushLocked :: "time \<Rightarrow> dispatcher \<Rightarrow> dispatcher \<times> digest list" where
  "flushLocked now d0 =
     (let d = d0\<lparr>dp_timer := False\<rparr>
      in if length (dp_pending d) = 0 then (d, [])
         else (d\<lparr>dp_pending := [], dp_seen := []\<rparr>,
               filter (\<lambda>dg. \<not> digest_Empty dg) (map (build_digest now) (dp_pending d))))"

definition event_key :: "event \<Rightarrow> string" where
  "event_key e = ev_kind e @ ''|'' @ ev_module e @ ''|'' @ f_fingerprint (ev_finding e)"

definition Enqueue :: "time \<Rightarrow> event \<Rightarrow> dispatcher \<Rightarrow> dispatcher \<times> digest list" where
  "Enqueue now e d =
     (if ev_kind e = KindOpened \<and> \<not> passesSeverity (dp_cfg d) (f_severity (ev_finding e)) then (d, [])
      else if dp_closed d then (d, [])
      else if event_key e \<in> set (dp_seen d) then (d, [])
      else
        let d1 = d\<lparr>dp_seen := event_key e # dp_seen d, dp_pending := group_step ev_module e (dp_pending d)\<rparr>;
            total = sum_list (map (\<lambda>(m, evs). int (length evs)) (dp_pending d1))
        in if total \<ge> nc_max_batch (dp_cfg d1) then flushLocked now d1
           else (d1\<lparr>dp_timer := True\<rparr>, []))"

definition Flush :: "time \<Rightarrow> dispatcher \<Rightarrow> dispatcher \<times> digest list" where
  "Flush now d = flushLocked now d"

definition Close :: "time \<Rightarrow> dispatcher \<Rightarrow> dispatcher \<times> digest list" where
  "Close now d = (case flushLocked now d of (d', dgs) \<Rightarrow> (d'\<lparr>dp_closed := True\<rparr>, dgs))"

text \<open>
  Sending with retries: \<open>send n\<close> is the outcome of attempt \<open>n\<close> (\<open>None\<close> when it
  succeeds). The result is the number of attempts made and, when all failed, the error that
  \<open>OnSendError\<close> observes.
\<close>

function send_from :: "(nat \<Rightarrow> 'e option) \<Rightarrow> nat \<Rightarrow> nat \<Rightarrow> 'e option \<Rightarrow> nat \<times> 'e option" where
  "send_from send retries attempt err =
     (if attempt < retries then
        (case send attempt of
           None \<Rightarrow> (Suc attempt, None)
         | Some e \<Rightarrow> send_from send retries (Suc attempt) (Some e))
      else (attempt, err))"
  by pat_completeness auto
termination
  by (relation "measure (\<lambda>(send, retries, attempt, err). retries - attempt)") auto

declare send_from.simps [simp del]

definition sendWithRetry :: "notify_config \<Rightarrow> (nat \<Rightarrow> 'e option) \<Rightarrow> nat \<times> 'e option" where
  "sendWithRetry cfg send = send_from send (nat (nc_retries cfg)) 0 None"

text \<open>What the scheduler hook enqueues for one reconcile result (\<open>BindScheduler\<close>).\<close>

definition result_events :: "string \<Rightarrow> finding list \<Rightarrow> finding list \<Rightarrow> event list" where
  "result_events module newly resolved =
     map (\<lambda>f. \<lparr>ev_kind = KindOpened, ev_module = module, ev_finding = f\<rparr>) newly @
     map (\<lambda>f. \<lparr>ev_kind = KindResolved, ev_module = module, ev_finding = f\<rparr>) resolved"

fun enqueue_all :: "time \<Rightarrow> event list \<Rightarrow> dispatcher \<Rightarrow> dispatcher \<times> digest list" where
  "enqueue_all now [] d = (d, [])"
| "enqueue_all now (e # es) d =
     (case Enqueue now e d of (d1, out1) \<Rightarrow>
      (case enqueue_all now es d1 of (d2, out2) \<Rightarrow> (d2, out1 @ out2)))"

section \<open>The insertion sort is a stable sort\<close>

abbreviation rank_of :: "finding \<Rightarrow> int" where
  "rank_of f \<equiv> severityRank (f_severity f)"

text \<open>Placing an element after everything that ranks at least as high.\<close>

definition place :: "finding \<Rightarrow> finding list \<Rightarrow> finding list" where
  "place x ys = takeWhile (\<lambda>y. rank_of x \<le> rank_of y) ys @ x # dropWhile (\<lambda>y. rank_of x \<le> rank_of y) ys"

lemma place_snoc_small:
  assumes "sorted (map (\<lambda>f. - rank_of f) (ys @ [y]))" "rank_of x \<le> rank_of y"
  shows "place x (ys @ [y]) = ys @ [y, x]"
proof -
  have "rank_of x \<le> rank_of z" if "z \<in> set (ys @ [y])" for z
    using assms that by (auto simp: sorted_append)
  then have "takeWhile (\<lambda>z. rank_of x \<le> rank_of z) (ys @ [y]) = ys @ [y]"
    "dropWhile (\<lambda>z. rank_of x \<le> rank_of z) (ys @ [y]) = []"
    by (simp_all add: takeWhile_eq_all_conv dropWhile_eq_Nil_conv)
  then show ?thesis by (simp only: place_def) simp
qed

lemma place_snoc_large:
  assumes "rank_of y < rank_of x"
  shows "place x (ys @ [y]) = place x ys @ [y]"
proof (cases "\<forall>z \<in> set ys. rank_of x \<le> rank_of z")
  case True
  then show ?thesis using assms
    by (simp add: place_def takeWhile_append2 dropWhile_append2 takeWhile_eq_all_conv [THEN iffD2]
        dropWhile_eq_Nil_conv [THEN iffD2])
next
  case False
  then obtain z where "z \<in> set ys" "\<not> rank_of x \<le> rank_of z" by blast
  then show ?thesis by (simp add: place_def takeWhile_append1 dropWhile_append1)
qed

lemma sift_place:
  "sorted (map (\<lambda>f. - rank_of f) ys) \<Longrightarrow> sift (length ys) (ys @ x # zs) = place x ys @ zs"
proof (induction ys arbitrary: zs rule: rev_induct)
  case Nil
  then show ?case by (simp add: place_def)
next
  case (snoc y ys)
  have sy: "sorted (map (\<lambda>f. - rank_of f) ys)" using snoc.prems by (simp add: sorted_append)
  have nth: "((ys @ [y]) @ x # zs) ! Suc (length ys) = x" "((ys @ [y]) @ x # zs) ! length ys = y"
    by (simp_all add: nth_append)
  have swap: "((ys @ [y]) @ x # zs)[Suc (length ys) := y, length ys := x] = ys @ x # y # zs"
    by (simp add: list_update_append)
  show ?case
  proof (cases "rank_of x > rank_of y")
    case True
    then have "sift (length (ys @ [y])) ((ys @ [y]) @ x # zs) = sift (length ys) (ys @ x # y # zs)"
      using nth swap by simp
    also have "\<dots> = place x ys @ y # zs" by (rule snoc.IH [OF sy])
    finally show ?thesis using place_snoc_large [OF True] by simp
  next
    case False
    then have "sift (length (ys @ [y])) ((ys @ [y]) @ x # zs) = (ys @ [y]) @ x # zs" using nth by simp
    then show ?thesis using place_snoc_small [OF snoc.prems] False by simp
  qed
qed

lemma place_sorted:
  assumes "sorted (map (\<lambda>f. - rank_of f) ys)"
  shows "sorted (map (\<lambda>f. - rank_of f) (place x ys))"
  using assms
proof (induction ys rule: rev_induct)
  case Nil
  then show ?case by (simp add: place_def)
next
  case (snoc y ys)
  show ?case
  proof (cases "rank_of x \<le> rank_of y")
    case True
    then show ?thesis using place_snoc_small [OF snoc.prems True] snoc.prems by (auto simp: sorted_append)
  next
    case False
    have "set (place x ys) = insert x (set ys)"
      by (metis (no_types, lifting) Un_insert_right list.simps(15) place_def set_append
          takeWhile_dropWhile_id)
    then show ?thesis using False snoc by (auto simp: sorted_append place_snoc_large)
  qed
qed

lemma place_filter:
  assumes "sorted (map (\<lambda>f. - rank_of f) ys)"
  shows "filter (\<lambda>f. rank_of f = k) (place x ys) = filter (\<lambda>f. rank_of f = k) (ys @ [x])"
  using assms
proof (induction ys rule: rev_induct)
  case Nil
  then show ?case by (simp add: place_def)
next
  case (snoc y ys)
  show ?case
  proof (cases "rank_of x \<le> rank_of y")
    case True
    then show ?thesis using place_snoc_small [OF snoc.prems True] by simp
  next
    case False
    then show ?thesis using snoc by (auto simp: place_snoc_large sorted_append)
  qed
qed

lemma mset_place [simp]: "mset (place x ys) = add_mset x (mset ys)"
proof -
  have "mset ys = mset (takeWhile (\<lambda>y. rank_of x \<le> rank_of y) ys) +
      mset (dropWhile (\<lambda>y. rank_of x \<le> rank_of y) ys)"
    by (metis mset_append takeWhile_dropWhile_id)
  then show ?thesis by (simp add: place_def)
qed

lemma length_place [simp]: "length (place x ys) = Suc (length ys)"
  by (metis mset_place size_add_mset size_mset)

lemma fold_sift:
  "i \<le> length fs \<Longrightarrow> 0 < i \<Longrightarrow> \<exists>ys. fold sift [1..<i] fs = ys @ drop i fs \<and> length ys = i \<and>
     sorted (map (\<lambda>f. - rank_of f) ys) \<and> mset ys = mset (take i fs) \<and>
     (\<forall>k. filter (\<lambda>f. rank_of f = k) ys = filter (\<lambda>f. rank_of f = k) (take i fs))"
proof (induction i)
  case 0
  then show ?case by simp
next
  case (Suc i)
  show ?case
  proof (cases "i = 0")
    case True
    then show ?thesis using Suc.prems by (cases fs) auto
  next
    case False
    then obtain ys where ys: "fold sift [1..<i] fs = ys @ drop i fs" "length ys = i"
      "sorted (map (\<lambda>f. - rank_of f) ys)" "mset ys = mset (take i fs)"
      "\<forall>k. filter (\<lambda>f. rank_of f = k) ys = filter (\<lambda>f. rank_of f = k) (take i fs)"
      using Suc by auto
    have d: "drop i fs = fs ! i # drop (Suc i) fs" using Suc.prems by (simp add: Cons_nth_drop_Suc)
    have t: "take (Suc i) fs = take i fs @ [fs ! i]" using Suc.prems by (simp add: take_Suc_conv_app_nth)
    have "fold sift [1..<Suc i] fs = sift i (ys @ drop i fs)" using False ys(1) by simp
    also have "\<dots> = place (fs ! i) ys @ drop (Suc i) fs"
      using sift_place [OF ys(3), of "fs ! i"] ys(2) d by simp
    finally show ?thesis using ys t place_filter [OF ys(3)] place_sorted [OF ys(3)]
      by (intro exI [of _ "place (fs ! i) ys"]) simp
  qed
qed

lemma sortBySeverity_stable: "sortBySeverity fs = sort_key (\<lambda>f. - rank_of f) fs"
proof (cases "fs = []")
  case True
  then show ?thesis by (simp add: sortBySeverity_def)
next
  case False
  then obtain ys where "fold sift [1..<length fs] fs = ys" "sorted (map (\<lambda>f. - rank_of f) ys)"
    "mset ys = mset fs" "\<forall>k. filter (\<lambda>f. rank_of f = k) ys = filter (\<lambda>f. rank_of f = k) fs"
    using fold_sift [of "length fs" fs] by auto
  moreover have "filter (\<lambda>f. rank_of a = rank_of f) fs' = filter (\<lambda>f. rank_of f = rank_of a) fs'" for a fs'
    by (rule filter_cong) auto
  ultimately show ?thesis unfolding sortBySeverity_def
    by (intro properties_for_sort_key [symmetric]) auto
qed

section \<open>The dispatcher's invariant\<close>

abbreviation pend_events :: "dispatcher \<Rightarrow> event list" where
  "pend_events d \<equiv> concat (map snd (dp_pending d))"

text \<open>
  The dedup set is exactly the keys of the pending events, no two of which share a key; the
  batch is below its bound; the timer is armed exactly while something is pending; a closed
  dispatcher holds nothing.
\<close>

definition dispatcher_inv :: "dispatcher \<Rightarrow> bool" where
  "dispatcher_inv d \<longleftrightarrow>
     amap_inv (dp_pending d) \<and>
     (\<forall>(m, evs) \<in> set (dp_pending d). evs \<noteq> [] \<and> (\<forall>e \<in> set evs. ev_module e = m)) \<and>
     set (dp_seen d) = event_key ` set (pend_events d) \<and>
     distinct (map event_key (pend_events d)) \<and>
     int (length (pend_events d)) < nc_max_batch (dp_cfg d) \<and>
     (dp_timer d \<longleftrightarrow> dp_pending d \<noteq> []) \<and>
     (dp_closed d \<longrightarrow> dp_pending d = []) \<and>
     0 < nc_max_batch (dp_cfg d) \<and> 0 < nc_retries (dp_cfg d)"

lemma notify_withDefaults_pos:
  "0 < nc_max_batch (notify_withDefaults c)" "0 < nc_retries (notify_withDefaults c)"
  "0 < nc_flush_interval (notify_withDefaults c)" "0 < nc_retry_delay (notify_withDefaults c)"
  by (simp_all add: notify_withDefaults_def Let_def second_def)

lemma dispatcher_inv_new: "dispatcher_inv (NewDispatcher cfg)"
  by (simp add: dispatcher_inv_def NewDispatcher_def notify_withDefaults_pos)

lemma mset_group_step:
  "mset (concat (map snd (group_step key x m))) = add_mset x (mset (concat (map snd m)))"
proof -
  have "mset (concat (map snd (amap_upd k (\<lambda>old. (case old of None \<Rightarrow> [] | Some l \<Rightarrow> l) @ [x]) m))) =
      add_mset x (mset (concat (map snd m)))" for k
    by (induction k "\<lambda>old. (case old of None \<Rightarrow> [] | Some l \<Rightarrow> l) @ [x]" m rule: amap_upd.induct) auto
  then show ?thesis by (simp add: group_step_def)
qed

lemma set_group_step:
  "set (concat (map snd (group_step key x m))) = insert x (set (concat (map snd m)))"
  by (metis mset_group_step set_mset_add_mset_insert set_mset_mset)

lemma group_step_entries:
  "\<forall>(k, evs) \<in> set m. evs \<noteq> [] \<and> (\<forall>e \<in> set evs. key e = k) \<Longrightarrow>
     \<forall>(k, evs) \<in> set (group_step key x m). evs \<noteq> [] \<and> (\<forall>e \<in> set evs. key e = k)"
proof -
  have "\<forall>(k, evs) \<in> set m. evs \<noteq> [] \<and> (\<forall>e \<in> set evs. key e = k) \<Longrightarrow> key x = k0 \<Longrightarrow>
      \<forall>(k, evs) \<in> set (amap_upd k0 (\<lambda>old. (case old of None \<Rightarrow> [] | Some l \<Rightarrow> l) @ [x]) m).
        evs \<noteq> [] \<and> (\<forall>e \<in> set evs. key e = k)" for k0
    by (induction k0 "\<lambda>old. (case old of None \<Rightarrow> [] | Some l \<Rightarrow> l) @ [x]" m rule: amap_upd.induct) auto
  then show "\<forall>(k, evs) \<in> set m. evs \<noteq> [] \<and> (\<forall>e \<in> set evs. key e = k) \<Longrightarrow> ?thesis"
    by (simp add: group_step_def)
qed

lemma pend_total: "sum_list (map (\<lambda>(m, evs). int (length evs)) p) = int (length (concat (map snd p)))"
  by (induction p) (auto simp: case_prod_beta)

lemma flushLocked_simps [simp]:
  "dp_pending (fst (flushLocked now d)) = []" "dp_timer (fst (flushLocked now d)) = False"
  "dp_closed (fst (flushLocked now d)) = dp_closed d" "dp_cfg (fst (flushLocked now d)) = dp_cfg d"
  by (simp_all add: flushLocked_def Let_def)

lemma flushLocked_seen: "dp_pending d \<noteq> [] \<or> dp_seen d = [] \<Longrightarrow> dp_seen (fst (flushLocked now d)) = []"
  by (auto simp: flushLocked_def Let_def)

lemma flushLocked_inv:
  assumes "dp_pending d \<noteq> [] \<or> dp_seen d = []" "0 < nc_max_batch (dp_cfg d)" "0 < nc_retries (dp_cfg d)"
  shows "dispatcher_inv (fst (flushLocked now d))"
  using assms flushLocked_seen [OF assms(1)] by (simp add: dispatcher_inv_def)

lemma inv_seen_pending: "dispatcher_inv d \<Longrightarrow> dp_pending d \<noteq> [] \<or> dp_seen d = []"
  by (auto simp: dispatcher_inv_def)

lemma Flush_inv: "dispatcher_inv d \<Longrightarrow> dispatcher_inv (fst (Flush now d))"
  unfolding Flush_def by (rule flushLocked_inv [OF inv_seen_pending]) (auto simp: dispatcher_inv_def)

lemma Close_flush:
  "fst (Close now d) = (fst (flushLocked now d))\<lparr>dp_closed := True\<rparr>"
  "snd (Close now d) = snd (flushLocked now d)"
  by (simp_all add: Close_def case_prod_beta)

lemma Close_inv: "dispatcher_inv d \<Longrightarrow> dispatcher_inv (fst (Close now d))"
  using Flush_inv [of d now] by (simp add: Close_flush Flush_def dispatcher_inv_def)

text \<open>An event is dropped, completes a batch, or joins the window.\<close>

definition joined :: "event \<Rightarrow> dispatcher \<Rightarrow> dispatcher" where
  "joined e d = d\<lparr>dp_seen := event_key e # dp_seen d, dp_pending := group_step ev_module e (dp_pending d)\<rparr>"

lemma joined_simps [simp]:
  "dp_pending (joined e d) = group_step ev_module e (dp_pending d)"
  "dp_seen (joined e d) = event_key e # dp_seen d" "dp_cfg (joined e d) = dp_cfg d"
  "dp_closed (joined e d) = dp_closed d"
  by (simp_all add: joined_def)

definition refused :: "event \<Rightarrow> dispatcher \<Rightarrow> bool" where
  "refused e d \<longleftrightarrow> ev_kind e = KindOpened \<and> \<not> passesSeverity (dp_cfg d) (f_severity (ev_finding e))"

lemma Enqueue_unfold:
  "Enqueue now e d =
     (if refused e d \<or> dp_closed d \<or> event_key e \<in> set (dp_seen d) then (d, [])
      else if nc_max_batch (dp_cfg d) \<le> int (length (pend_events (joined e d)))
      then flushLocked now (joined e d)
      else ((joined e d)\<lparr>dp_timer := True\<rparr>, []))"
  by (simp add: Enqueue_def Let_def pend_total refused_def joined_def)

lemma Enqueue_inv: "dispatcher_inv d \<Longrightarrow> dispatcher_inv (fst (Enqueue now e d))"
proof -
  assume inv: "dispatcher_inv d"
  have ne: "group_step ev_module e (dp_pending d) \<noteq> []"
    using set_group_step [of ev_module e "dp_pending d"] by auto
  have pos: "0 < nc_max_batch (dp_cfg d)" "0 < nc_retries (dp_cfg d)" using inv by (auto simp: dispatcher_inv_def)
  have keys: "event_key ` set (pend_events (joined e d)) = insert (event_key e) (set (dp_seen d))"
    using set_group_step [of ev_module e "dp_pending d"] inv by (simp add: dispatcher_inv_def)
  have dist: "distinct (map event_key (pend_events (joined e d)))" if "event_key e \<notin> set (dp_seen d)"
  proof -
    have "mset (map event_key (pend_events (joined e d))) = mset (event_key e # map event_key (pend_events d))"
      by (simp add: mset_group_step)
    moreover have "distinct (event_key e # map event_key (pend_events d))"
      using inv that by (auto simp: dispatcher_inv_def)
    ultimately show ?thesis using mset_eq_imp_distinct_iff by blast
  qed
  have amap: "amap_inv (group_step ev_module e (dp_pending d))"
    using inv by (simp add: dispatcher_inv_def group_step_def)
  have "dispatcher_inv ((joined e d)\<lparr>dp_timer := True\<rparr>)"
    if "\<not> dp_closed d" "event_key e \<notin> set (dp_seen d)"
      "int (length (pend_events (joined e d))) < nc_max_batch (dp_cfg d)"
    using that keys dist amap ne pos group_step_entries [of "dp_pending d" ev_module e] inv
    by (simp add: dispatcher_inv_def)
  moreover have "dispatcher_inv (fst (flushLocked now (joined e d)))"
    using flushLocked_inv [of "joined e d" now] ne pos by simp
  ultimately show ?thesis using inv by (simp add: Enqueue_unfold)
qed

section \<open>Sequences of steps\<close>

datatype dispatch_op = Enq event | FlushNow | CloseNow

fun dispatch_step :: "time \<Rightarrow> dispatch_op \<Rightarrow> dispatcher \<Rightarrow> dispatcher \<times> digest list" where
  "dispatch_step now (Enq e) d = Enqueue now e d"
| "dispatch_step now FlushNow d = Flush now d"
| "dispatch_step now CloseNow d = Close now d"

text \<open>The lock serialises the steps: a run is a list of steps, each with its instant.\<close>

fun dispatch_run :: "(time \<times> dispatch_op) list \<Rightarrow> dispatcher \<Rightarrow> dispatcher \<times> digest list" where
  "dispatch_run [] d = (d, [])"
| "dispatch_run ((now, op) # ops) d =
     (case dispatch_step now op d of (d1, out1) \<Rightarrow>
      (case dispatch_run ops d1 of (d2, out2) \<Rightarrow> (d2, out1 @ out2)))"

lemma dispatch_step_inv: "dispatcher_inv d \<Longrightarrow> dispatcher_inv (fst (dispatch_step now op d))"
  by (cases op) (auto intro: Enqueue_inv Flush_inv Close_inv)

lemma dispatch_run_inv: "dispatcher_inv d \<Longrightarrow> dispatcher_inv (fst (dispatch_run ops d))"
proof (induction ops d rule: dispatch_run.induct)
  case (2 now op ops d)
  then show ?case using dispatch_step_inv [of d now op] by (auto split: prod.splits)
qed simp

lemma dispatch_step_cfg [simp]: "dp_cfg (fst (dispatch_step now op d)) = dp_cfg d"
  by (cases op)
    (auto simp: Enqueue_def Flush_def Close_def flushLocked_def Let_def split: prod.splits)

text \<open>What a list of digests announces: kind, module and finding.\<close>

definition announced_by :: "digest list \<Rightarrow> (string \<times> string \<times> finding) set" where
  "announced_by dgs = (\<Union>dg \<in> set dgs.
     (\<lambda>f. (KindOpened, dg_module dg, f)) ` set (dg_opened dg) \<union>
     (\<lambda>f. (KindResolved, dg_module dg, f)) ` set (dg_resolved dg))"

lemma announced_by_append [simp]: "announced_by (xs @ ys) = announced_by xs \<union> announced_by ys"
  by (simp add: announced_by_def)

lemma announced_by_Nil [simp]: "announced_by [] = {}"
  by (simp add: announced_by_def)

definition event_triple :: "event \<Rightarrow> string \<times> string \<times> finding" where
  "event_triple e = (ev_kind e, ev_module e, ev_finding e)"

abbreviation known_kind :: "event \<Rightarrow> bool" where
  "known_kind e \<equiv> ev_kind e = KindOpened \<or> ev_kind e = KindResolved"

lemma kinds_distinct [simp]: "KindOpened \<noteq> KindResolved" "KindResolved \<noteq> KindOpened"
  by (simp_all add: KindOpened_def KindResolved_def)

lemma set_sortBySeverity [simp]: "set (sortBySeverity fs) = set fs"
  by (simp add: sortBySeverity_stable)

text \<open>A flush announces exactly the pending events.\<close>

lemma flush_announces:
  assumes "\<forall>(m, evs) \<in> set (dp_pending d). \<forall>e \<in> set evs. ev_module e = m"
  shows "announced_by (snd (flushLocked now d)) = event_triple ` {e \<in> set (pend_events d). known_kind e}"
proof -
  have one: "announced_by [build_digest now (m, evs)] = event_triple ` {e \<in> set evs. known_kind e}"
    if "\<forall>e \<in> set evs. ev_module e = m" for m evs
  proof -
    have kind: "(\<lambda>f. (k, m, f)) ` ev_finding ` {e \<in> set evs. ev_kind e = k} =
        event_triple ` {e \<in> set evs. ev_kind e = k}" for k
      unfolding image_image using that by (intro image_cong) (auto simp: event_triple_def)
    have "announced_by [build_digest now (m, evs)] =
        event_triple ` {e \<in> set evs. ev_kind e = KindOpened} \<union> event_triple ` {e \<in> set evs. ev_kind e = KindResolved}"
      using kind [of KindOpened] kind [of KindResolved] by (simp add: announced_by_def build_digest_def)
    then show ?thesis by blast
  qed
  have build: "announced_by (map (build_digest now) p) =
      event_triple ` {e \<in> set (concat (map snd p)). known_kind e}"
    if "\<forall>(m, evs) \<in> set p. \<forall>e \<in> set evs. ev_module e = m" for p
    using that
  proof (induction p)
    case Nil
    then show ?case by simp
  next
    case (Cons x p)
    obtain m evs where x: "x = (m, evs)" by fastforce
    have "announced_by (map (build_digest now) (x # p)) =
        announced_by [build_digest now (m, evs)] \<union> announced_by (map (build_digest now) p)"
      using announced_by_append [of "[build_digest now x]" "map (build_digest now) p"] x by simp
    also have "\<dots> = event_triple ` {e \<in> set evs. known_kind e} \<union>
        event_triple ` {e \<in> set (concat (map snd p)). known_kind e}"
      by (subst one, use Cons x in simp, subst Cons.IH, use Cons x in auto)
    also have "\<dots> = event_triple ` ({e \<in> set evs. known_kind e} \<union> {e \<in> set (concat (map snd p)). known_kind e})"
      by (rule image_Un [symmetric])
    also have "{e \<in> set evs. known_kind e} \<union> {e \<in> set (concat (map snd p)). known_kind e} =
        {e \<in> set (concat (map snd (x # p))). known_kind e}"
      using x by auto
    finally show ?case .
  qed
  have "announced_by (filter (\<lambda>dg. \<not> digest_Empty dg) dgs) = announced_by dgs" for dgs
  proof (induction dgs)
    case (Cons dg dgs)
    then show ?case by (simp add: announced_by_def digest_Empty_def)
  qed simp
  then show ?thesis using build [OF assms] by (simp add: flushLocked_def Let_def)
qed

end
