(* ===== verification/Json_Roundtrip.thy ===== *)
theory Json_Roundtrip
  imports Json_Parse
begin

text \<open>
  What \<open>json.Marshal\<close> writes, \<open>json.Unmarshal\<close> reads back: a string comes back as
  itself, with every byte that is not part of valid UTF-8 replaced by U+FFFD.
\<close>

section \<open>Runes\<close>

function utf8_fix :: "string \<Rightarrow> string" where
  "utf8_fix s = (case s of
       [] \<Rightarrow> []
     | c # cs \<Rightarrow>
         if is_ascii c then c # utf8_fix cs
         else (let (r, w) = decode_rune (c # cs) in
           (if r = rune_error \<and> w = 1 then encode_rune rune_error else take w (c # cs)) @
           utf8_fix (drop (snd (decode_rune (c # cs))) (c # cs))))"
  by pat_completeness auto
termination
proof (relation "measure length")
  fix s :: string and x21 x22 x xa y
  assume "s = x21 # x22"
  then have "0 < snd (decode_rune (x21 # x22))" by (intro decode_rune_width_pos) simp
  then show "(drop (snd (decode_rune (x21 # x22))) (x21 # x22), s) \<in> measure length"
    using \<open>s = x21 # x22\<close> by simp
qed auto

declare utf8_fix.simps [simp del]

lemma byte_in_not_ascii:
  "byte_in c 128 hi \<Longrightarrow> \<not> is_ascii c" "byte_in c 144 hi \<Longrightarrow> \<not> is_ascii c" "byte_in c 160 hi \<Longrightarrow> \<not> is_ascii c"
  by (simp_all add: byte_in_def is_ascii_def Let_def)

text \<open>A valid sequence of more than one byte has no ASCII byte, and decodes alike in any context.\<close>

definition good_rune :: "string \<Rightarrow> bool" where
  "good_rune s \<longleftrightarrow> \<not> (fst (decode_rune s) = rune_error \<and> snd (decode_rune s) = 1)"

lemma decode_rune_ascii: "is_ascii c \<Longrightarrow> decode_rune (c # cs) = (of_char c, 1)"
  by (simp add: decode_rune_def is_ascii_def Let_def)

lemma decode_rune_prefix:
  "(of_char c :: nat) \<le> 223 \<Longrightarrow> decode_rune (c # c1 # xs) = decode_rune (c # c1 # ys)"
  "(of_char c :: nat) \<le> 239 \<Longrightarrow> decode_rune (c # c1 # c2 # xs) = decode_rune (c # c1 # c2 # ys)"
  "decode_rune (c # c1 # c2 # c3 # xs) = decode_rune (c # c1 # c2 # c3 # ys)"
  by (simp_all add: decode_rune_def Let_def)

lemma decode_rune_multi:
  assumes "\<not> is_ascii c" "decode_rune (c # cs) = (r, w)" "\<not> (r = rune_error \<and> w = 1)"
  shows "list_all (\<lambda>x. \<not> is_ascii x) (take w (c # cs)) \<and> decode_rune (take w (c # cs) @ t) = (r, w) \<and>
    2 \<le> w \<and> w \<le> length (c # cs)"
proof -
  let ?n = "of_char c :: nat"
  have n: "\<not> ?n < 128" using assms(1) by (simp add: is_ascii_def)
  consider "194 \<le> ?n \<and> ?n \<le> 223" | "224 \<le> ?n \<and> ?n \<le> 239" | "240 \<le> ?n \<and> ?n \<le> 244"
    using assms(2,3) n by (auto simp: decode_rune_def Let_def split: if_splits)
  then show ?thesis
  proof cases
    case 1
    then obtain c1 cs1 where c: "cs = c1 # cs1" "\<not> is_ascii c1" "w = 2"
      using assms n by (auto simp: decode_rune_def Let_def split: list.splits if_splits dest: byte_in_not_ascii)
    have "decode_rune (take w (c # cs) @ t) = decode_rune (c # cs)"
      using c 1 decode_rune_prefix(1) [of c c1 t cs1] by (simp add: numeral_2_eq_2)
    then show ?thesis using c assms(1,2) by (simp add: numeral_2_eq_2)
  next
    case 2
    then obtain c1 c2 cs1 where c: "cs = c1 # c2 # cs1" "\<not> is_ascii c1" "\<not> is_ascii c2" "w = 3"
      using assms n by (auto simp: decode_rune_def Let_def split: list.splits if_splits dest: byte_in_not_ascii)
    have "decode_rune (take w (c # cs) @ t) = decode_rune (c # cs)"
      using c 2 decode_rune_prefix(2) [of c c1 c2 t cs1] by (simp add: numeral_3_eq_3)
    then show ?thesis using c assms(1,2) by (simp add: numeral_3_eq_3)
  next
    case 3
    then obtain c1 c2 c3 cs1 where c: "cs = c1 # c2 # c3 # cs1" "\<not> is_ascii c1" "\<not> is_ascii c2" "\<not> is_ascii c3" "w = 4"
      using assms n
      by (auto simp: decode_rune_def Let_def split: list.splits if_splits dest: byte_in_not_ascii)
    have "decode_rune (take w (c # cs) @ t) = decode_rune (c # cs)"
      using c decode_rune_prefix(3) [of c c1 c2 c3 t cs1] by simp
    then show ?thesis using c assms(1,2) by simp
  qed
qed

section \<open>Reading back an escaped string\<close>

lemma json_chars_step:
  assumes "is_ascii c" "\<not> is_control c" "c \<noteq> CHR 0x22" "c \<noteq> CHR 0x5C"
  shows "json_chars (Suc n) acc (c # t) = json_chars n (acc @ [c]) t"
  using assms by simp

lemma hex_val_digit: "n < 16 \<Longrightarrow> hex_val (hex_digit n) = Some n"
  by (auto simp: hex_val_def hex_digit_def Let_def)

lemma json_ascii_read:
  assumes "is_ascii c"
  shows "json_chars (Suc n) acc (json_ascii c @ t) = json_chars n (acc @ [c]) t"
proof -
  let ?n = "of_char c :: nat"
  have small: "?n < 128" using assms by (simp add: is_ascii_def)
  have eq: "c = d \<longleftrightarrow> ?n = of_char d" for d by simp
  have ids: "?n = 34 \<Longrightarrow> c = CHR 0x22" "?n = 92 \<Longrightarrow> c = CHR 0x5C" "?n = 8 \<Longrightarrow> c = CHR 0x08" "?n = 12 \<Longrightarrow> c = CHR 0x0C"
    "?n = 10 \<Longrightarrow> c = CHR 0x0A" "?n = 13 \<Longrightarrow> c = CHR 0x0D" "?n = 9 \<Longrightarrow> c = CHR 0x09"
    by (simp_all add: of_char_eq_iff [where 'a = nat, symmetric] del: of_char_eq_iff)
  have special: "json_chars (Suc n) acc ([CHR 0x5C, e] @ t) = json_chars n (acc @ [b]) t"
    if "simple_escape e = Some b" "e \<noteq> CHR ''u''" for e b using that by simp
  have unicode: "json_chars (Suc n) acc ((CHR 0x5C # ''u00'' @ [hex_digit (?n div 16), hex_digit (?n mod 16)]) @ t) =
      json_chars n (acc @ [c]) t"
  proof -
    have "hex_val (CHR ''0'') = Some 0" by (simp add: hex_val_def Let_def)
    moreover have "?n div 16 * 16 + ?n mod 16 = ?n" by simp
    ultimately have "hex4 (''00'' @ [hex_digit (?n div 16), hex_digit (?n mod 16)] @ t) = Some (?n, t)"
      using small by (simp add: hex_val_digit)
    then show ?thesis using small by (simp add: unicode_escape_def encode_rune_def)
  qed
  consider "?n = 34 \<or> ?n = 92" | "?n = 8" | "?n = 12" | "?n = 10" | "?n = 13" | "?n = 9"
    | (uni) "?n \<notin> {34, 92, 8, 12, 10, 13, 9}" "?n < 32 \<or> ?n = 38 \<or> ?n = 60 \<or> ?n = 62"
    | (plain) "?n \<notin> {34, 92, 38, 60, 62}" "\<not> ?n < 32" by auto
  then show ?thesis
  proof cases
    case uni
    then have "json_ascii c = CHR 0x5C # ''u00'' @ [hex_digit (?n div 16), hex_digit (?n mod 16)]"
      by (simp add: json_ascii_def Let_def)
    then show ?thesis using unicode by simp
  next
    case plain
    then have "json_ascii c = [c]" by (simp add: json_ascii_def Let_def)
    then show ?thesis using plain assms by (simp add: eq is_control_def)
  qed (auto simp: json_ascii_def Let_def dest!: ids)
qed

lemma encode_rune_error: "encode_rune rune_error = [CHR 0xEF, CHR 0xBF, CHR 0xBD]"
  by (simp add: encode_rune_def rune_error_def char_of_def bit_0)

lemma encode_rune_pair: "encode_rune 8232 = [CHR 0xE2, CHR 0x80, CHR 0xA8]" "encode_rune 8233 = [CHR 0xE2, CHR 0x80, CHR 0xA9]"
  by (simp_all add: encode_rune_def char_of_def bit_0)

lemma json_unicode_read:
  "json_chars (Suc n) acc ((CHR 0x5C # ''ufffd'') @ t) = json_chars n (acc @ encode_rune rune_error) t"
  "json_chars (Suc n) acc ((CHR 0x5C # ''u2028'') @ t) = json_chars n (acc @ encode_rune 8232) t"
  "json_chars (Suc n) acc ((CHR 0x5C # ''u2029'') @ t) = json_chars n (acc @ encode_rune 8233) t"
  by (simp_all add: hex_val_def Let_def unicode_escape_def rune_error_def)

text \<open>The two line separators, which the encoder writes as escapes, have one encoding.\<close>

lemma continuation_mod: "128 \<le> n \<Longrightarrow> n \<le> 191 \<Longrightarrow> n mod 64 = n - (128 :: nat)"
  by (subst le_mod_geq, simp, subst le_mod_geq, simp) simp

lemma rune_bounds:
  assumes "decode_rune (c # cs) = (r, w)" "r \<noteq> rune_error"
  shows "(of_char c :: nat) < 128 \<and> r < 128 \<or>
    (\<exists>c1 c2 cs1. cs = c1 # c2 # cs1 \<and> w = 3 \<and> r = of_char c mod 16 * 4096 + of_char c1 mod 64 * 64 + of_char c2 mod 64 \<and>
       224 \<le> (of_char c :: nat) \<and> (of_char c :: nat) \<le> 239 \<and> byte_in c1 128 191 \<and> byte_in c2 128 191) \<or>
    r < 2048 \<or> 65536 \<le> r"
proof -
  let ?n = "of_char c :: nat" and ?v = "\<lambda>c. (of_char c :: nat) mod 64"
  consider "?n < 128" | "194 \<le> ?n \<and> ?n \<le> 223" | "224 \<le> ?n \<and> ?n \<le> 239" | "240 \<le> ?n \<and> ?n \<le> 244"
    using assms by (auto simp: decode_rune_def Let_def split: if_splits)
  then show ?thesis
  proof cases
    case 1
    then show ?thesis using assms by (simp add: decode_rune_def Let_def)
  next
    case 2
    then obtain c1 where "r = ?n mod 32 * 64 + ?v c1"
      using assms by (auto simp: decode_rune_def Let_def split: list.splits if_splits)
    moreover have "?n mod 32 \<le> 31" "?v c1 \<le> 63" by simp_all
    ultimately show ?thesis by linarith
  next
    case 3
    then obtain c1 c2 cs1 where "cs = c1 # c2 # cs1" "w = 3" "r = ?n mod 16 * 4096 + ?v c1 * 64 + ?v c2"
      "byte_in c1 (if ?n = 224 then 160 else 128) (if ?n = 237 then 159 else 191)" "byte_in c2 128 191"
      using assms by (auto simp: decode_rune_def Let_def split: list.splits if_splits)
    moreover from this(4) have "byte_in c1 128 191" by (auto simp: byte_in_def Let_def split: if_splits)
    ultimately show ?thesis using 3 by blast
  next
    case 4
    then obtain c1 c2 c3 where r: "r = ?n mod 8 * 262144 + ?v c1 * 4096 + ?v c2 * 64 + ?v c3"
      and c1: "byte_in c1 (if ?n = 240 then 144 else 128) (if ?n = 244 then 143 else 191)"
      using assms by (auto simp: decode_rune_def Let_def split: list.splits if_splits)
    have "65536 \<le> r"
    proof (cases "?n = 240")
      case True
      then have "144 \<le> (of_char c1 :: nat)" "(of_char c1 :: nat) \<le> 191" using c1 by (auto simp: byte_in_def Let_def)
      then have "16 \<le> ?v c1" using continuation_mod [of "of_char c1"] by linarith
      then show ?thesis using r by linarith
    next
      case False
      then have "1 \<le> ?n mod 8" using 4 by presburger
      then show ?thesis using r by linarith
    qed
    then show ?thesis by blast
  qed
qed

lemma decode_separator:
  assumes "decode_rune (c # cs) = (r, w)" "r = 8232 \<or> r = 8233"
  shows "take w (c # cs) = encode_rune r"
proof -
  let ?v = "\<lambda>c. (of_char c :: nat) mod 64"
  have "r \<noteq> rune_error" using assms(2) by (auto simp: rune_error_def)
  with rune_bounds [OF assms(1)] assms(2) obtain c1 c2 cs1 where cs: "cs = c1 # c2 # cs1" "w = 3"
    and r: "r = (of_char c :: nat) mod 16 * 4096 + ?v c1 * 64 + ?v c2"
    and n: "224 \<le> (of_char c :: nat)" "(of_char c :: nat) \<le> 239" and "byte_in c1 128 191" "byte_in c2 128 191"
    by auto
  then have c: "128 \<le> (of_char c1 :: nat)" "(of_char c1 :: nat) \<le> 191" "128 \<le> (of_char c2 :: nat)" "(of_char c2 :: nat) \<le> 191"
    by (auto simp: byte_in_def Let_def)
  have b: "?v c1 \<le> 63" "?v c2 \<le> 63" by simp_all
  have a: "(of_char c :: nat) mod 16 = 2" using r assms(2) b by linarith
  have a1: "?v c1 = 0" using r assms(2) b a by linarith
  have "(of_char c :: nat) = 226" using a n by presburger
  moreover have "(of_char c1 :: nat) = 128" using a1 c(1,2) continuation_mod [of "of_char c1"] by linarith
  moreover have "?v c2 = r - 8192" using r a a1 by simp
  then have "(of_char c2 :: nat) = r - 8064" using c(3,4) assms(2) continuation_mod [of "of_char c2"] by linarith
  moreover have "x = char_of k" if "(of_char x :: nat) = k" for x k using that by (metis char_of_char)
  ultimately have "c = char_of (226 :: nat)" "c1 = char_of (128 :: nat)" "c2 = char_of (r - 8064)" by blast+
  then show ?thesis using cs assms(2) by (auto simp: encode_rune_def numeral_3_eq_3)
qed

lemma json_multi_read:
  assumes "\<not> is_ascii c" "decode_rune (c # cs) = (r, w)" "\<not> (r = rune_error \<and> w = 1)"
  shows "json_chars (Suc n) acc (take w (c # cs) @ t) = json_chars n (acc @ take w (c # cs)) t"
proof -
  note m = decode_rune_multi [OF assms, of t]
  then obtain w' where w: "w = Suc w'" by (cases w) auto
  have len: "length (take w (c # cs)) = w" using m by simp
  have c: "c \<noteq> CHR 0x22" "c \<noteq> CHR 0x5C" "\<not> is_control c"
    using assms(1) by (auto simp: is_ascii_def is_control_def)
  have hd: "take w (c # cs) @ t = c # (take w' cs @ t)" by (simp add: w)
  have "json_chars (Suc n) acc (c # (take w' cs @ t)) =
      json_chars n (acc @ take w (c # (take w' cs @ t))) (drop w (c # (take w' cs @ t)))"
    using c assms(1,3) m unfolding hd by simp
  then show ?thesis using len unfolding hd [symmetric] by simp
qed

lemma json_chars_escape:
  "length s < n \<Longrightarrow> json_chars n acc (json_escape s @ CHR 0x22 # t) = Some (acc @ utf8_fix s, t)"
proof (induction s arbitrary: n acc rule: json_escape.induct)
  case (1 s)
  show ?case
  proof (cases s)
    case Nil
    then show ?thesis using 1 by (cases n) (simp_all add: json_escape.simps utf8_fix.simps)
  next
    case (Cons c cs)
    obtain m where n: "n = Suc m" "length cs < m" using 1 Cons by (cases n) auto
    show ?thesis
    proof (cases "is_ascii c")
      case True
      then have low: "(of_char c :: nat) < 128" by (simp add: is_ascii_def)
      have esc: "json_escape s = json_ascii c @ json_escape cs" using Cons low by (subst json_escape.simps) simp
      have fix_s: "utf8_fix s = c # utf8_fix cs" using Cons True by (subst utf8_fix.simps) simp
      show ?thesis using "1.IH"(1) [OF Cons low n(2)]
        by (simp add: esc fix_s n json_ascii_read [OF True] del: json_chars.simps)
    next
      case False
      then have high: "\<not> (of_char c :: nat) < 128" by (simp add: is_ascii_def)
      obtain r w where d: "decode_rune (c # cs) = (r, w)" by fastforce
      let ?rest = "drop w (c # cs)"
      have "0 < w" using decode_rune_width_pos [of "c # cs"] d by simp
      then have "length ?rest < m" using n(2) by simp
      from "1.IH"(2) [OF Cons high _ refl, of r w m] this d
      have IH: "json_chars m acc' (json_escape ?rest @ CHR 0x22 # t) = Some (acc' @ utf8_fix ?rest, t)" for acc'
        by simp
      let ?bytes = "if r = rune_error \<and> w = 1 then encode_rune rune_error else take w (c # cs)"
      have fix_s: "utf8_fix s = ?bytes @ utf8_fix ?rest" using Cons False d by (subst utf8_fix.simps) simp
      have step: "json_chars (Suc m) acc (json_escape s @ u) = json_chars m (acc @ ?bytes) (json_escape ?rest @ u)" for u
      proof -
        consider "r = rune_error \<and> w = 1" | "\<not> (r = rune_error \<and> w = 1)" "r = 8232" | "\<not> (r = rune_error \<and> w = 1)" "r = 8233"
          | "\<not> (r = rune_error \<and> w = 1)" "r \<noteq> 8232" "r \<noteq> 8233" by blast
        then show ?thesis
        proof cases
          case 1
          then have "json_escape s = (CHR 0x5C # ''ufffd'') @ json_escape ?rest"
            using Cons high d by (subst json_escape.simps) simp
          then show ?thesis using 1 json_unicode_read(1) [of m acc "json_escape ?rest @ u"] by (simp del: json_chars.simps)
        next
          case 2
          then have "json_escape s = (CHR 0x5C # ''u2028'') @ json_escape ?rest"
            using Cons high d by (subst json_escape.simps) (simp add: rune_error_def)
          then show ?thesis using 2 json_unicode_read(2) [of m acc "json_escape ?rest @ u"] decode_separator [OF d]
            by (simp add: rune_error_def del: json_chars.simps)
        next
          case 3
          then have "json_escape s = (CHR 0x5C # ''u2029'') @ json_escape ?rest"
            using Cons high d by (subst json_escape.simps) (simp add: rune_error_def)
          then show ?thesis using 3 json_unicode_read(3) [of m acc "json_escape ?rest @ u"] decode_separator [OF d]
            by (simp add: rune_error_def del: json_chars.simps)
        next
          case 4
          then have "json_escape s = take w (c # cs) @ json_escape ?rest"
            using Cons high d by (subst json_escape.simps) auto
          then show ?thesis using 4 json_multi_read [OF False d 4(1), of m acc "json_escape ?rest @ u"]
            by (auto simp del: json_chars.simps)
        qed
      qed
      show ?thesis unfolding n(1) step IH fix_s by simp
    qed
  qed
qed

lemma json_escape_length: "length s \<le> length (json_escape s)"
proof (induction s rule: json_escape.induct)
  case (1 s)
  show ?case
  proof (cases s)
    case (Cons c cs)
    show ?thesis
    proof (cases "(of_char c :: nat) < 128")
      case True
      have "1 \<le> length (json_ascii c)" by (simp add: json_ascii_def Let_def)
      then show ?thesis using Cons True "1.IH"(1) [OF Cons True] by (subst json_escape.simps) simp
    next
      case False
      obtain r w where d: "decode_rune (c # cs) = (r, w)" by fastforce
      have "w \<le> 4" using d by (auto simp: decode_rune_def Let_def split: list.splits if_splits)
      moreover have "w \<le> length (c # cs)" using decode_rune_width_le [of "c # cs"] d by simp
      moreover have "length (drop w (c # cs)) \<le> length (json_escape (drop w (c # cs)))"
        using "1.IH"(2) [OF Cons False _ refl, of r w] d by simp
      ultimately show ?thesis using Cons False d by (subst json_escape.simps) (auto simp: Let_def)
    qed
  qed simp
qed

text \<open>Reading back a whole string literal.\<close>

lemma json_text_string: "json_text (json_escape s @ CHR 0x22 # t) = Some (utf8_fix s, t)"
  unfolding json_text_def using json_escape_length [of s]
  by (subst json_chars_escape) (simp_all del: json_chars.simps)

section \<open>Objects of strings\<close>

definition json_object :: "(string \<times> string) list \<Rightarrow> string" where
  "json_object kvs = CHR 0x7B # join (map (\<lambda>(k, v). json_string k @ '':'' @ v) kvs) '','' @ [CHR 0x7D]"

definition json_array :: "string list \<Rightarrow> string" where
  "json_array xs = ''['' @ join xs '','' @ '']''"

lemma skip_space_simps [simp]:
  "skip_space (CHR 0x22 # t) = CHR 0x22 # t" "skip_space (CHR '':'' # t) = CHR '':'' # t"
  "skip_space (CHR '','' # t) = CHR '','' # t" "skip_space (CHR 0x7D # t) = CHR 0x7D # t"
  "skip_space (CHR 0x7B # t) = CHR 0x7B # t" "skip_space [] = []"
  by (simp_all add: skip_space_def is_json_space_def)

lemma json_value_string:
  "json_value (Suc n) (json_string s @ t) = Some (DStr (utf8_fix s), t)"
  by (simp add: json_string_def json_scalar_def json_text_string)

definition json_field :: "string \<times> string \<Rightarrow> string" where
  "json_field kv = json_string (fst kv) @ '':'' @ json_string (snd kv)"

definition read_field :: "string \<times> string \<Rightarrow> string \<times> jdoc" where
  "read_field kv = (utf8_fix (fst kv), DStr (utf8_fix (snd kv)))"

lemma json_members_field:
  assumes "c = CHR 0x7D \<or> c = CHR '',''"
  shows "json_members (Suc (Suc m)) (json_field kv @ c # u) =
    (if c = CHR 0x7D then Some ([read_field kv], u)
     else map_option (\<lambda>(kvs, p). (read_field kv # kvs, p)) (json_members (Suc m) u))"
proof -
  obtain k v where kv: "kv = (k, v)" by fastforce
  have "json_text (json_escape k @ CHR 0x22 # CHR '':'' # json_string v @ c # u) =
      Some (utf8_fix k, CHR '':'' # json_string v @ c # u)" by (rule json_text_string)
  then show ?thesis using assms json_value_string [of m v "c # u"]
    by (auto simp: kv json_field_def read_field_def json_string_def [of k] simp del: json_value.simps)
qed

lemma json_members_strings:
  "kvs \<noteq> [] \<Longrightarrow> 2 * length kvs \<le> n \<Longrightarrow>
     json_members n (join (map json_field kvs) '','' @ CHR 0x7D # t) = Some (map read_field kvs, t)"
proof (induction kvs arbitrary: n)
  case Nil
  then show ?case by simp
next
  case (Cons kv kvs)
  note IH = Cons.IH
  obtain m where n: "n = Suc (Suc m)" "2 * length kvs \<le> m" using Cons.prems(2) by (cases n; cases "n - 1") auto
  show ?case
  proof (cases kvs)
    case Nil
    then show ?thesis using json_members_field [of "CHR 0x7D" m kv t] by (simp add: n del: json_members.simps)
  next
    case (Cons kv' kvs')
    then have "json_members (Suc m) (join (map json_field kvs) '','' @ CHR 0x7D # t) = Some (map read_field kvs, t)"
      using n(2) by (intro IH) auto
    moreover have "join (map json_field (kv # kvs)) '','' @ CHR 0x7D # t =
        json_field kv @ CHR '','' # (join (map json_field kvs) '','' @ CHR 0x7D # t)" using Cons by simp
    ultimately show ?thesis using json_members_field [of "CHR '',''" m kv] unfolding n by simp
  qed
qed

lemma join_length: "\<forall>x \<in> set xs. 2 \<le> length x \<Longrightarrow> 2 * length xs \<le> length (join xs '','')"
  by (induction xs "'',''" rule: join.induct) auto

lemma json_object_roundtrip:
  assumes "kvs \<noteq> []"
  shows "json_parse (json_object (map (\<lambda>(k, v). (k, json_string v)) kvs)) = Some (DObj (map read_field kvs))"
proof -
  let ?body = "join (map json_field kvs) '','' @ [CHR 0x7D]"
  have "(case (case kv of (k, v) \<Rightarrow> (k, json_string v)) of (k, v) \<Rightarrow> json_string k @ '':'' @ v) = json_field kv" for kv
    by (cases kv) (simp add: json_field_def)
  then have body: "json_object (map (\<lambda>(k, v). (k, json_string v)) kvs) = CHR 0x7B # ?body"
    by (simp add: json_object_def comp_def)
  have len: "2 * length kvs \<le> length ?body"
    using join_length [of "map json_field kvs"] by (auto simp: json_field_def json_string_def)
  obtain kv kvs' where "kvs = kv # kvs'" using assms by (cases kvs) auto
  then obtain cs where c: "?body = CHR 0x22 # cs"
    by (cases kvs') (auto simp: json_field_def json_string_def)
  have object: "json_value (Suc n) (CHR 0x7B # CHR 0x22 # cs) = map_option (\<lambda>(ms, r). (DObj ms, r)) (json_members n (CHR 0x22 # cs))"
    for n by (simp del: json_members.simps)
  have "json_members (2 * length ?body + 3) ?body = Some (map read_field kvs, [])"
    using assms len by (intro json_members_strings) auto
  then have "json_value (Suc (2 * length ?body + 3)) (CHR 0x7B # ?body) = Some (DObj (map read_field kvs), [])"
    unfolding c object by (simp only: option.map prod.case)
  moreover have "2 * length (CHR 0x7B # ?body) + 2 = Suc (2 * length ?body + 3)" by simp
  ultimately show ?thesis unfolding body json_parse_def by (simp only: option.simps prod.case skip_space_simps if_True simp_thms)
qed

end
