(* ===== verification/Channels.thy ===== *)
theory Channels
  imports Notify Http Json_Roundtrip
begin

text \<open>
  Rendering and delivery of a digest (\<open>notify/format.go\<close>, \<open>notify/channels.go\<close>,
  \<open>notify/hfs.go\<close>, \<open>hfsbridge/hfsbridge.go\<close>). The HTTP client, the clock, the local time
  zone, the host and the connection of a syslog channel are one environment. The Hexward
  Finding Schema library (\<open>hexward-core\<close>) is not part of the repository: building an event and
  a sink are arguments.
\<close>

record 'w chan_env =
  ce_http :: "http_request \<Rightarrow> ('w, string + http_response) state"
  ce_now :: "('w, time) state"
  ce_zone :: "time \<Rightarrow> int"
  ce_hostname :: "string option"
  ce_pid :: nat
  ce_dial :: "string \<Rightarrow> string \<Rightarrow> ('w, string option) state"
  ce_write :: "string \<Rightarrow> ('w, string option) state"

section \<open>The shared text rendering\<close>

definition severityBadge :: "severity \<Rightarrow> string" where
  "severityBadge s =
     (if s = SeverityCritical then [CHR 0xF0, CHR 0x9F, CHR 0x9F, CHR 0xA5] @ '' CRITICAL''
      else if s = SeverityHigh then [CHR 0xF0, CHR 0x9F, CHR 0x9F, CHR 0xA7] @ '' HIGH''
      else if s = SeverityMedium then [CHR 0xF0, CHR 0x9F, CHR 0x9F, CHR 0xA8] @ '' MEDIUM''
      else if s = SeverityLow then [CHR 0xF0, CHR 0x9F, CHR 0x9F, CHR 0xA6] @ '' LOW''
      else [CHR 0xE2, CHR 0xAC, CHR 0x9C] @ '' INFO'')"

definition productName :: "string \<Rightarrow> string" where
  "productName m =
     (if m = ''certwatch'' then ''CertWatch'' else if m = ''asm'' then ''Attack Surface Monitor''
      else if m = ''decoy'' then ''Decoy'' else if m = ''patchlight'' then ''Patchlight''
      else if m = ''tenantwatch'' then ''TenantWatch'' else m)"

abbreviation newline :: string where "newline \<equiv> [CHR 0x0A]"

definition format_opened :: "finding \<Rightarrow> string" where
  "format_opened f = newline @ severityBadge (f_severity f) @ '' '' @ f_target f @ newline @ ''  '' @ f_title f @
     newline @ ''  '' @ right_arrow @ '' '' @ f_remediation f @ newline"

definition format_resolved :: "finding \<Rightarrow> string" where
  "format_resolved f = ''  '' @ [CHR 0xE2, CHR 0x80, CHR 0xA2] @ '' '' @ f_target f @ '' '' @ em_dash @ '' '' @
     f_title f @ newline"

definition trim_right_newlines :: "string \<Rightarrow> string" where
  "trim_right_newlines s = rev (dropWhile (\<lambda>c. c = CHR 0x0A) (rev s))"

definition FormatText :: "digest \<Rightarrow> string" where
  "FormatText d =
     (let n = length (dg_opened d);
          b1 = (if n > 0 then productName (dg_module d) @ '' '' @ em_dash @ '' '' @ nat_str n @ '' new finding(s)'' @ newline @
                  concat (map format_opened (dg_opened d)) else []);
          m = length (dg_resolved d);
          b2 = (if m > 0 then (if length b1 > 0 then newline else []) @ [CHR 0xE2, CHR 0x9C, CHR 0x85] @ '' '' @
                  nat_str m @ '' finding(s) resolved'' @ newline @ concat (map format_resolved (dg_resolved d)) else [])
      in trim_right_newlines (b1 @ b2))"

section \<open>JSON over HTTP\<close>

text \<open>A time in its zone, as \<open>json.Marshal\<close> writes it: RFC 3339 with up to nine decimals.\<close>

definition zone_suffix :: "int \<Rightarrow> string" where
  "zone_suffix off =
     (if off = 0 then ''Z''
      else (if off < 0 then ''-'' else ''+'') @ pad_int 2 (\<bar>off\<bar> div 3600) @ '':'' @ pad_int 2 (\<bar>off\<bar> mod 3600 div 60))"

definition nano_suffix :: "int \<Rightarrow> string" where
  "nano_suffix ns = (if ns = 0 then [] else
     ''.'' @ rev (dropWhile (\<lambda>c. c = CHR ''0'') (rev (pad_int 9 ns))))"

definition marshal_time :: "(time \<Rightarrow> int) \<Rightarrow> time \<Rightarrow> string option" where
  "marshal_time zone t =
     (let local = t + zone t * second;
          y = fst (civil (local div day));
          base = rfc3339 local
      in if y < 0 \<or> y > 9999 then None
         else Some ([CHR 0x22] @ take (length base - 1) base @ nano_suffix (local mod second) @ zone_suffix (zone t) @
                    [CHR 0x22]))"

definition webhook_finding :: "finding \<Rightarrow> string option" where
  "webhook_finding f =
     map_option (\<lambda>ev. json_object
         ([(''target'', json_string (f_target f)), (''check'', json_string (f_check f)),
           (''severity'', json_string (f_severity f)), (''title'', json_string (f_title f)),
           (''remediation'', json_string (f_remediation f))] @ ev))
       (case f_evidence f of
          None \<Rightarrow> Some []
        | Some kvs \<Rightarrow> if kvs = [] then Some []
                      else map_option (\<lambda>s. [(''evidence'', s)]) (json_marshal (JMap kvs)))"

definition webhook_list :: "string \<Rightarrow> finding list \<Rightarrow> (string \<times> string) list option" where
  "webhook_list key fs =
     (if fs = [] then Some [] else map_option (\<lambda>ss. [(key, json_array ss)]) (those (map webhook_finding fs)))"

definition webhook_payload :: "(time \<Rightarrow> int) \<Rightarrow> digest \<Rightarrow> string option" where
  "webhook_payload zone d = do {
     at \<leftarrow> marshal_time zone (dg_at d);
     opened \<leftarrow> webhook_list ''opened'' (dg_opened d);
     resolved \<leftarrow> webhook_list ''resolved'' (dg_resolved d);
     Some (json_object ([(''version'', ''1''), (''module'', json_string (dg_module d)), (''at'', at)] @ opened @ resolved)) }"

text \<open>The POST the three HTTP channels share, with the name their error carries.\<close>

definition post_json ::
  "'w chan_env \<Rightarrow> string \<Rightarrow> string \<Rightarrow> (string \<times> string) list \<Rightarrow> string option \<Rightarrow> ('w, string option) state" where
  "post_json env channel url headers body = (case body of
     None \<Rightarrow> ret (Some json_error)
   | Some b \<Rightarrow> do {
       r \<leftarrow> ce_http env \<lparr>hq_method = ''POST'', hq_url = url,
              hq_headers = (''Content-Type'', ''application/json'') # headers, hq_body = b\<rparr>;
       ret (case r of
         Inl e \<Rightarrow> Some e
       | Inr resp \<Rightarrow> if hr_code resp < 200 \<or> hr_code resp > 299
                     then Some (channel @ '' returned '' @ hr_status resp) else None) })"

definition webhook_Send :: "'w chan_env \<Rightarrow> string \<Rightarrow> string \<Rightarrow> digest \<Rightarrow> ('w, string option) state" where
  "webhook_Send env url secret d =
     post_json env ''webhook'' url
       (if secret \<noteq> [] then [(''X-Hexward-Token'', secret), (''X-Sentinel-Token'', secret)] else [])
       (webhook_payload (ce_zone env) d)"

definition slack_Send :: "'w chan_env \<Rightarrow> string \<Rightarrow> digest \<Rightarrow> ('w, string option) state" where
  "slack_Send env url d =
     post_json env ''slack'' url [] (Some (json_object [(''text'', json_string (FormatText d))]))"

definition telegram_Send :: "'w chan_env \<Rightarrow> string \<Rightarrow> string \<Rightarrow> string \<Rightarrow> digest \<Rightarrow> ('w, string option) state" where
  "telegram_Send env token chat base0 d =
     (let base = (if base0 = [] then ''https://api.telegram.org'' else base0)
      in post_json env ''telegram'' (base @ ''/bot'' @ token @ ''/sendMessage'') []
           (Some (json_object [(''chat_id'', json_string chat), (''text'', json_string (FormatText d))])))"

section \<open>Addresses\<close>

text \<open>\<open>net.ParseIP\<close> as a test: four decimal octets, or a colon form without a zone.\<close>

definition ipv4_octet :: "string \<Rightarrow> bool" where
  "ipv4_octet s \<longleftrightarrow> s \<noteq> [] \<and> list_all is_digit s \<and> length s \<le> 3 \<and> (length s > 1 \<longrightarrow> hd s \<noteq> CHR ''0'') \<and>
     digits_val s \<le> 255"

definition is_ipv4 :: "string \<Rightarrow> bool" where
  "is_ipv4 s \<longleftrightarrow> (let parts = split_on (CHR ''.'') s in length parts = 4 \<and> list_all ipv4_octet parts)"

definition hex_run :: "string \<Rightarrow> string" where
  "hex_run s = takeWhile (\<lambda>c. hex_val c \<noteq> None) s"

text \<open>
  The groups of an IPv6 address from byte \<open>2 * (8 - n)\<close> on, with \<open>n\<close> groups left and
  whether an ellipsis was seen.
\<close>

fun ipv6_groups :: "nat \<Rightarrow> bool \<Rightarrow> string \<Rightarrow> bool" where
  "ipv6_groups 0 ell s = False"
| "ipv6_groups (Suc n) ell s =
     (let h = hex_run s; off = length h; rest = drop off s
      in if off = 0 \<or> off > 4 then False
         else (case rest of
             [] \<Rightarrow> if n = 0 then \<not> ell else ell
           | c # cs \<Rightarrow>
               if c = CHR ''.'' then
                 (ell \<or> n = 1) \<and> n \<ge> 1 \<and> is_ipv4 s \<and> (if n = 1 then \<not> ell else ell)
               else if c \<noteq> CHR '':'' \<or> cs = [] then False
               else (case cs of
                   [] \<Rightarrow> False
                 | d # ds \<Rightarrow>
                     if d = CHR '':'' then
                       (if ell then False
                        else if ds = [] then n \<ge> 1
                        else n \<ge> 1 \<and> ipv6_groups n True ds)
                     else n \<ge> 1 \<and> ipv6_groups n ell cs)))"

definition is_ipv6 :: "string \<Rightarrow> bool" where
  "is_ipv6 s \<longleftrightarrow>
     (if CHR ''%'' \<in> set s then False
      else if has_prefix s ''::'' then (drop 2 s = [] \<or> ipv6_groups 8 True (drop 2 s))
      else ipv6_groups 8 False s)"

fun is_ip :: "string \<Rightarrow> bool" where
  "is_ip s = (case List.find (\<lambda>c. c = CHR ''.'' \<or> c = CHR '':'' \<or> c = CHR ''%'') s of
     None \<Rightarrow> False
   | Some c \<Rightarrow> if c = CHR ''.'' then is_ipv4 s else if c = CHR '':'' then is_ipv6 s else False)"

lemma is_ip_examples:
  "is_ip ''203.0.113.7''" "\<not> is_ip ''203.0.113''" "\<not> is_ip ''203.0.113.07''" "\<not> is_ip ''203.0.113.256''"
  "is_ip ''2001:db8::1''" "is_ip ''::''" "is_ip ''::ffff:1.2.3.4''" "\<not> is_ip ''1::2::3''" "\<not> is_ip ''fe80::1%eth0''"
  "is_ip ''1:2:3:4:5:6:7:8''" "\<not> is_ip ''1:2:3:4:5:6:7::8''" "\<not> is_ip ''a.com''"
  by code_simp+

section \<open>Syslog lines\<close>

definition syslogSeverity :: "string \<Rightarrow> nat" where
  "syslogSeverity sev = (let s = to_lower sev in
     if s = ''critical'' then 2 else if s = ''high'' then 3 else if s = ''medium'' then 4
     else if s = ''low'' then 5 else 6)"

definition statusWord :: "bool \<Rightarrow> string" where
  "statusWord resolved = (if resolved then ''resolved'' else ''open'')"

definition evidence_ip_keys :: "string list" where
  "evidence_ip_keys = [''source_ip'', ''src_ip'', ''src'', ''actor'', ''client_ip'', ''ip'']"

definition ip_at :: "(string \<times> jval) list \<Rightarrow> string \<Rightarrow> string option" where
  "ip_at ev key = (case map_of ev key of
     Some (JStr s) \<Rightarrow> if is_ip (trim_space s) then Some (trim_space s) else None
   | _ \<Rightarrow> None)"

definition evidenceIP :: "evidence \<Rightarrow> string" where
  "evidenceIP ev =
     (case List.find (\<lambda>o'. o' \<noteq> None) (map (ip_at (case ev of None \<Rightarrow> [] | Some kvs \<Rightarrow> kvs)) evidence_ip_keys) of
        Some (Some ip) \<Rightarrow> ip | _ \<Rightarrow> [])"

text \<open>
  \<open>strings.Map\<close> with the function of \<open>sanitizeSyslog\<close>: line breaks and NUL become blanks,
  and a byte that is not part of valid UTF-8 becomes the replacement character. The three
  characters are ASCII, so mapping the bytes of the valid text maps its runes.
\<close>

definition syslog_map :: "string \<Rightarrow> string" where
  "syslog_map s = map (\<lambda>c. if c = CHR 0x0A \<or> c = CHR 0x0D \<or> c = CHR 0x00 then CHR '' '' else c) (utf8_fix s)"

definition sanitizeSyslog :: "string \<Rightarrow> string" where
  "sanitizeSyslog s0 = (let s = syslog_map s0 in if length s > 1600 then take 1600 s @ ellipsis else s)"

definition syslogMessage :: "string \<Rightarrow> finding \<Rightarrow> bool \<Rightarrow> string" where
  "syslogMessage module f resolved =
     sanitizeSyslog
       ((if resolved then ''RESOLVED: '' else []) @ f_title f @
        '' | product='' @ module @ '' severity='' @ f_severity f @ '' check='' @ f_check f @ '' target='' @ f_target f @
        '' status='' @ statusWord resolved @
        (if evidenceIP (f_evidence f) \<noteq> [] then '' src='' @ evidenceIP (f_evidence f) else []))"

record syslog_channel =
  sy_addr :: string
  sy_network :: string
  sy_hostname :: string
  sy_tag :: string
  sy_facility :: int

definition month_name :: "int \<Rightarrow> string" where
  "month_name m =
     (if m = 1 then ''Jan'' else if m = 2 then ''Feb'' else if m = 3 then ''Mar'' else if m = 4 then ''Apr''
      else if m = 5 then ''May'' else if m = 6 then ''Jun'' else if m = 7 then ''Jul'' else if m = 8 then ''Aug''
      else if m = 9 then ''Sep'' else if m = 10 then ''Oct'' else if m = 11 then ''Nov'' else ''Dec'')"

text \<open>The layout \<open>time.Stamp\<close>, \<open>"Jan _2 15:04:05"\<close>, of a local time.\<close>

definition time_stamp :: "(time \<Rightarrow> int) \<Rightarrow> time \<Rightarrow> string" where
  "time_stamp zone t =
     (let local = t + zone t * second;
          (y, m, d) = civil (local div day);
          s = (local mod day) div second
      in month_name m @ '' '' @ (if d < 10 then '' '' else []) @ itoa d @ '' '' @
         pad_int 2 (s div 3600) @ '':'' @ pad_int 2 (s mod 3600 div 60) @ '':'' @ pad_int 2 (s mod 60))"

definition syslog_frame :: "int \<Rightarrow> string \<Rightarrow> string \<Rightarrow> string \<Rightarrow> nat \<Rightarrow> string \<Rightarrow> string" where
  "syslog_frame pri ts host tag pid msg =
     ''<'' @ itoa pri @ ''>'' @ ts @ '' '' @ host @ '' '' @ tag @ ''['' @ nat_str pid @ '']: '' @ msg @ newline"

definition syslog_host :: "'w chan_env \<Rightarrow> syslog_channel \<Rightarrow> string" where
  "syslog_host env c =
     (if sy_hostname c \<noteq> [] then sy_hostname c
      else case ce_hostname env of Some h \<Rightarrow> if h \<noteq> [] then h else ''-'' | None \<Rightarrow> ''-'')"

definition syslog_lines :: "'w chan_env \<Rightarrow> syslog_channel \<Rightarrow> digest \<Rightarrow> ('w, string list) state" where
  "syslog_lines env c d = do {
     stamp \<leftarrow> (if is_zero (dg_at d) then ce_now env else ret (dg_at d));
     let host = syslog_host env c;
         tag = (if sy_tag c = [] then dg_module d else sy_tag c);
         facility = (if sy_facility c = 0 then 16 else sy_facility c);
         frame = (\<lambda>pri. syslog_frame pri (time_stamp (ce_zone env) stamp) host tag (ce_pid env))
     in ret (map (\<lambda>f. frame (facility * 8 + int (syslogSeverity (f_severity f))) (syslogMessage (dg_module d) f False))
               (dg_opened d) @
             map (\<lambda>f. frame (facility * 8 + 5) (syslogMessage (dg_module d) f True)) (dg_resolved d)) }"

fun write_lines :: "'w chan_env \<Rightarrow> string list \<Rightarrow> ('w, string option) state" where
  "write_lines env [] = ret None"
| "write_lines env (l # ls) = do {
     r \<leftarrow> ce_write env l;
     case r of Some e \<Rightarrow> ret (Some e) | None \<Rightarrow> write_lines env ls }"

definition syslog_Send :: "'w chan_env \<Rightarrow> syslog_channel \<Rightarrow> digest \<Rightarrow> ('w, string option) state" where
  "syslog_Send env c d =
     (if digest_Empty d then ret None
      else do {
        r \<leftarrow> ce_dial env (if sy_network c = [] then ''udp'' else sy_network c) (sy_addr c);
        case r of
          Some e \<Rightarrow> ret (Some e)
        | None \<Rightarrow> do { ls \<leftarrow> syslog_lines env c d; write_lines env ls } })"

section \<open>Hexward Finding Schema events\<close>

record hfs_source =
  hs_id :: string
  hs_fingerprint :: string
  hs_check :: string
  hs_title :: string
  hs_target :: string
  hs_severity :: string
  hs_status :: finding_status
  hs_remediation :: string
  hs_first_seen :: time
  hs_last_seen :: time
  hs_resolved_at :: "time option"
  hs_group :: "string option"
  hs_evidence :: evidence

definition hfs_Source :: "finding \<Rightarrow> hfs_source" where
  "hfs_Source f =
     \<lparr>hs_id = f_id f, hs_fingerprint = f_fingerprint f, hs_check = f_check f, hs_title = f_title f,
      hs_target = f_target f, hs_severity = f_severity f, hs_status = f_status f,
      hs_remediation = f_remediation f, hs_first_seen = f_first_seen f, hs_last_seen = f_last_seen f,
      hs_resolved_at = f_resolved_at f, hs_group = f_group f, hs_evidence = f_evidence f\<rparr>"

record hfs_meta =
  hm_product :: string

text \<open>\<open>new\<close> is \<open>hfs.New\<close> with the options applied; the metadata may have further fields.\<close>

definition hfs_Events ::
  "(string \<Rightarrow> 'm hfs_meta_scheme \<Rightarrow> hfs_source \<Rightarrow> time \<Rightarrow> 'ev) \<Rightarrow> 'w chan_env \<Rightarrow> 'm hfs_meta_scheme \<Rightarrow> digest \<Rightarrow>
   ('w, 'ev list) state" where
  "hfs_Events new env meta0 d = do {
     at \<leftarrow> (if is_zero (dg_at d) then ce_now env else ret (dg_at d));
     let meta = (if hm_product meta0 = [] then meta0\<lparr>hm_product := dg_module d\<rparr> else meta0)
     in ret (map (\<lambda>f. new KindOpened meta (hfs_Source f) at) (dg_opened d) @
             map (\<lambda>f. new KindResolved meta (hfs_Source f) at) (dg_resolved d)) }"

definition hfs_Send ::
  "(string \<Rightarrow> 'm hfs_meta_scheme \<Rightarrow> hfs_source \<Rightarrow> time \<Rightarrow> 'ev) \<Rightarrow> ('ev list \<Rightarrow> ('w, string option) state) \<Rightarrow>
   'w chan_env \<Rightarrow> 'm hfs_meta_scheme \<Rightarrow> digest \<Rightarrow> ('w, string option) state" where
  "hfs_Send new sink env meta d =
     (if digest_Empty d then ret None else do { evs \<leftarrow> hfs_Events new env meta d; sink evs })"

end
