(* ===== verification/Channels_Props.thy ===== *)
theory Channels_Props
  imports Channels
begin

text \<open>
  What the channels guarantee: a syslog digest is one bounded line per finding, and the text
  sent to the chat channels is read back as it was rendered.
\<close>

section \<open>Syslog\<close>

definition breaks :: "char set" where
  "breaks = {CHR 0x0A, CHR 0x0D, CHR 0x00}"

lemma syslogMessage_clean: "set (syslogMessage m f r) \<inter> breaks = {}" "length (syslogMessage m f r) \<le> 1603"
  by (auto simp: syslogMessage_def sanitizeSyslog_def syslog_map_def breaks_def Let_def dest: in_set_takeD split: if_splits)

lemma nat_str_clean: "set (nat_str n) \<inter> breaks = {}"
proof (induction n rule: nat_str.induct)
  case (1 n)
  have digit: "char_of (48 + k) \<notin> breaks" if "k < 10" for k :: nat
  proof
    assume b: "char_of (48 + k) \<in> breaks"
    have "(of_char c :: nat) \<in> {10, 13, 0}" if "c \<in> breaks" for c using that by (auto simp: breaks_def)
    from this [OF b] show False using that by simp
  qed
  show ?case
  proof (cases "n < 10")
    case True
    then show ?thesis using digit [of n] by (subst nat_str.simps) simp
  next
    case False
    then show ?thesis using 1 digit [of "n mod 10"] by (subst nat_str.simps) simp
  qed
qed

lemma itoa_clean: "set (itoa i) \<inter> breaks = {}"
  using nat_str_clean by (auto simp: itoa_def breaks_def)

lemma pad_int_clean: "set (pad_int w i) \<inter> breaks = {}"
  using nat_str_clean by (auto simp: pad_int_def Let_def breaks_def)

lemma time_stamp_clean: "set (time_stamp zone t) \<inter> breaks = {}"
proof -
  have "set (month_name m) \<inter> breaks = {}" for m by (simp add: month_name_def breaks_def)
  then show ?thesis
    using itoa_clean pad_int_clean
    by (auto simp: time_stamp_def Let_def breaks_def split: prod.splits)
qed

lemma syslog_frame_one_line:
  assumes "set host \<inter> breaks = {}" "set tag \<inter> breaks = {}" "set msg \<inter> breaks = {}" "set ts \<inter> breaks = {}"
  shows "\<exists>body. syslog_frame pri ts host tag pid msg = body @ newline \<and> set body \<inter> breaks = {}"
proof -
  let ?body = "''<'' @ itoa pri @ ''>'' @ ts @ '' '' @ host @ '' '' @ tag @ ''['' @ nat_str pid @ '']: '' @ msg"
  have "syslog_frame pri ts host tag pid msg = ?body @ newline" by (simp add: syslog_frame_def)
  moreover have "set ?body \<inter> breaks = {}"
    using assms itoa_clean [of pri] nat_str_clean [of pid] by (auto simp: breaks_def)
  ultimately show ?thesis by blast
qed

section \<open>Properties\<close>

text \<open>
  C32. A syslog digest is framed safely, whatever its findings hold: one line per finding, opened
  ones first, each line ending in the only line break (or NUL) it has, and a message of at most
  1603 bytes. The host and the tag come from the configuration and must be free of breaks.
\<close>

theorem syslog_one_line_per_finding:
  assumes "set (syslog_host env c) \<inter> breaks = {}"
    and "set (if sy_tag c = [] then dg_module d else sy_tag c) \<inter> breaks = {}"
  shows "let ls = fst (run_state (syslog_lines env c d) w) in
    length ls = length (dg_opened d) + length (dg_resolved d) \<and>
    list_all (\<lambda>l. \<exists>pri msg. l = syslog_frame pri (time_stamp (ce_zone env)
        (if is_zero (dg_at d) then fst (run_state (ce_now env) w) else dg_at d)) (syslog_host env c)
        (if sy_tag c = [] then dg_module d else sy_tag c) (ce_pid env) msg \<and> length msg \<le> 1603 \<and>
      (\<exists>body. l = body @ newline \<and> set body \<inter> breaks = {})) ls"
proof -
  let ?frame = "\<lambda>pri. syslog_frame pri (time_stamp (ce_zone env)
      (if is_zero (dg_at d) then fst (run_state (ce_now env) w) else dg_at d)) (syslog_host env c)
      (if sy_tag c = [] then dg_module d else sy_tag c) (ce_pid env)"
  let ?fac = "if sy_facility c = 0 then 16 else sy_facility c"
  have ls: "fst (run_state (syslog_lines env c d) w) =
      map (\<lambda>f. ?frame (?fac * 8 + int (syslogSeverity (f_severity f))) (syslogMessage (dg_module d) f False)) (dg_opened d) @
      map (\<lambda>f. ?frame (?fac * 8 + 5) (syslogMessage (dg_module d) f True)) (dg_resolved d)"
    by (simp add: syslog_lines_def Let_def split: prod.split)
  have line: "\<exists>pri' msg. ?frame pri (syslogMessage m f r) = ?frame pri' msg \<and> length msg \<le> 1603 \<and>
      (\<exists>body. ?frame pri (syslogMessage m f r) = body @ newline \<and> set body \<inter> breaks = {})" for pri m f r
    by (rule exI [of _ pri], rule exI [of _ "syslogMessage m f r"])
      (use syslogMessage_clean(2) [of m f r]
        syslog_frame_one_line [OF assms syslogMessage_clean(1) time_stamp_clean] in blast)
  define ok where "ok l \<longleftrightarrow> (\<exists>pri msg. l = ?frame pri msg \<and> length msg \<le> 1603 \<and>
      (\<exists>body. l = body @ newline \<and> set body \<inter> breaks = {}))" for l
  have "list_all ok (map (\<lambda>f. ?frame (pri f) (syslogMessage m f r)) fs)" for pri m r fs
    unfolding list_all_iff set_map ball_simps(9) ok_def by (intro ballI line)
  note all = this
  have "list_all ok (fst (run_state (syslog_lines env c d) w))"
    unfolding ls list_all_append by (intro conjI; rule all)
  then show ?thesis unfolding ok_def Let_def by (simp add: ls)
qed

definition hostile_digest :: digest where
  "hostile_digest = \<lparr>dg_module = ''tenantwatch'', dg_opened =
     [\<lparr>f_fingerprint = ''x'', f_target = ''m365:a.b'', f_check = ''tenant.risky-oauth'',
       f_title = ''App'' @ newline @ ''<0>fake: line'', f_severity = SeverityHigh, f_remediation = ''Revoke'',
       f_evidence = None, f_id = ''i'', f_module = ''tenantwatch'', f_status = StatusOpen, f_group = None,
       f_first_seen = 0, f_last_seen = 0, f_resolved_at = None\<rparr>],
     dg_resolved = [], dg_at = unix_epoch\<rparr>"

theorem syslog_one_line_per_finding_witness:
  "length (fst (run_state (syslog_lines
     \<lparr>ce_http = (\<lambda>_. ret (Inl [])), ce_now = ret 0, ce_zone = (\<lambda>_. 0), ce_hostname = Some ''box'', ce_pid = 7,
       ce_dial = (\<lambda>_ _. ret None), ce_write = (\<lambda>_. ret None)\<rparr>
     \<lparr>sy_addr = ''127.0.0.1:5514'', sy_network = ''tcp'', sy_hostname = [], sy_tag = [], sy_facility = 0\<rparr>
     hostile_digest) ())) = 1"
proof -
  let ?env = "\<lparr>ce_http = (\<lambda>_. ret (Inl [])), ce_now = ret 0, ce_zone = (\<lambda>_. 0), ce_hostname = Some ''box'', ce_pid = 7,
       ce_dial = (\<lambda>_ _. ret None), ce_write = (\<lambda>_. ret None)\<rparr> :: unit chan_env"
  let ?c = "\<lparr>sy_addr = ''127.0.0.1:5514'', sy_network = ''tcp'', sy_hostname = [], sy_tag = [], sy_facility = 0\<rparr>"
  have "set (syslog_host ?env ?c) \<inter> breaks = {}" by (simp add: syslog_host_def breaks_def)
  moreover have "set (if sy_tag ?c = [] then dg_module hostile_digest else sy_tag ?c) \<inter> breaks = {}"
    by (simp add: hostile_digest_def breaks_def)
  ultimately have "length (fst (run_state (syslog_lines ?env ?c hostile_digest) ())) =
      length (dg_opened hostile_digest) + length (dg_resolved hostile_digest)"
    using syslog_one_line_per_finding [of ?env ?c hostile_digest "()"] by (simp only: Let_def)
  then show ?thesis by (simp add: hostile_digest_def)
qed

text \<open>
  C37. A chat message arrives as it was rendered. Slack and Telegram each send one POST, to the
  configured address, whose body the decoder reads back as an object with the rendering of the
  digest as its text (invalid UTF-8 replaced), beside the chat id for Telegram.
\<close>

theorem chat_text_read_back:
  "let env' = env\<lparr>ce_http := (\<lambda>req. State (\<lambda>log. (answer log req, log @ [req])))\<rparr>;
       slack = snd (run_state (slack_Send env' url d) []);
       telegram = snd (run_state (telegram_Send env' token chat base d) [])
   in map (\<lambda>r. (hq_method r, hq_url r, json_parse (hq_body r))) slack =
        [(''POST'', url, Some (DObj [(''text'', DStr (utf8_fix (FormatText d)))]))] \<and>
      map (\<lambda>r. (hq_method r, hq_url r, json_parse (hq_body r))) telegram =
        [(''POST'', (if base = [] then ''https://api.telegram.org'' else base) @ ''/bot'' @ token @ ''/sendMessage'',
          Some (DObj [(''chat_id'', DStr (utf8_fix chat)), (''text'', DStr (utf8_fix (FormatText d)))]))]"
proof -
  have keys: "utf8_fix ''text'' = ''text''" "utf8_fix ''chat_id'' = ''chat_id''" by code_simp+
  show ?thesis
    using json_object_roundtrip [of "[(''text'', FormatText d)]"]
      json_object_roundtrip [of "[(''chat_id'', chat), (''text'', FormatText d)]"]
    by (simp add: read_field_def keys slack_Send_def telegram_Send_def post_json_def Let_def)
qed

end
