(* ===== verification/Channel_Flags.thy ===== *)
theory Channel_Flags
  imports Channels
begin

text \<open>
  From the command line to the channels (\<open>cmd/tenantwatch/channels.go\<close>): \<open>build\<close> turns the
  flags into the list of channels or refuses them. The sinks are those of the Hexward library;
  its file reader, TLS set-up, validation and evidence modes are arguments.
\<close>

record channel_flags =
  cf_webhook :: string
  cf_webhook_format :: string
  cf_webhook_secret_file :: string
  cf_syslog_addr :: string
  cf_syslog_network :: string
  cf_syslog_format :: string
  cf_syslog_rfc :: int
  cf_syslog_ca_file :: string
  cf_export_file :: string
  cf_hec_url :: string
  cf_hec_token_file :: string
  cf_hec_index :: string
  cf_hec_ca_file :: string
  cf_evidence :: string

definition default_flags :: channel_flags where
  "default_flags =
     \<lparr>cf_webhook = [], cf_webhook_format = ''v1'', cf_webhook_secret_file = [], cf_syslog_addr = [],
      cf_syslog_network = ''udp'', cf_syslog_format = ''kv'', cf_syslog_rfc = 5424, cf_syslog_ca_file = [],
      cf_export_file = [], cf_hec_url = [], cf_hec_token_file = [], cf_hec_index = [], cf_hec_ca_file = [],
      cf_evidence = ''redacted''\<rparr>"

datatype 'tls sink =
    SinkWebhook string string
  | SinkSyslog string string string int "'tls option"
  | SinkFile string
  | SinkHEC string string string "'tls option"

datatype ('tls, 'mode) channel =
    ChanWebhook string string
  | ChanSyslog syslog_channel
  | ChanHFS "'tls sink" 'mode

record ('tls, 'mode) sink_lib =
  sl_parse_mode :: "string \<Rightarrow> 'mode option"
  sl_read_secret :: "string \<Rightarrow> string + string"
  sl_split_host :: "string \<Rightarrow> string"
  sl_tls_config :: "string \<Rightarrow> string \<Rightarrow> string + 'tls"
  sl_validate :: "'tls sink \<Rightarrow> string option"
  sl_endpoint :: "string \<Rightarrow> string option"

text \<open>The four blocks of \<open>build\<close>; each gives the channels it appends, or the error it returns.\<close>

definition build_webhook ::
  "('tls, 'mode) sink_lib \<Rightarrow> 'mode \<Rightarrow> channel_flags \<Rightarrow> string + ('tls, 'mode) channel list" where
  "build_webhook lib mode c =
     (if cf_webhook c = [] then Inr []
      else case (if cf_webhook_secret_file c = [] then Inr [] else sl_read_secret lib (cf_webhook_secret_file c)) of
          Inl e \<Rightarrow> Inl (''-webhook-secret-file: '' @ e)
        | Inr secret \<Rightarrow>
            if cf_webhook_format c = [] \<or> cf_webhook_format c = ''v1'' then Inr [ChanWebhook (cf_webhook c) secret]
            else if cf_webhook_format c = ''v2'' then Inr [ChanHFS (SinkWebhook (cf_webhook c) secret) mode]
            else Inl (''-webhook-format '' @ go_quote (cf_webhook_format c) @ '': want v1 or v2''))"

definition build_syslog ::
  "('tls, 'mode) sink_lib \<Rightarrow> 'mode \<Rightarrow> channel_flags \<Rightarrow> string + ('tls, 'mode) channel list" where
  "build_syslog lib mode c =
     (if cf_syslog_addr c = [] then Inr []
      else if cf_syslog_format c = [] \<or> cf_syslog_format c = ''kv'' then
        (if cf_syslog_network c \<noteq> ''udp'' \<and> cf_syslog_network c \<noteq> ''tcp''
         then Inl (''-syslog-network '' @ go_quote (cf_syslog_network c) @
                   '' with -syslog-format kv: want udp or tcp (tls needs json or cef)'')
         else Inr [ChanSyslog \<lparr>sy_addr = cf_syslog_addr c, sy_network = cf_syslog_network c, sy_hostname = [],
                     sy_tag = [], sy_facility = 0\<rparr>])
      else if cf_syslog_format c = ''json'' \<or> cf_syslog_format c = ''cef'' then
        (case (if cf_syslog_network c = ''tls''
               then map_sum id Some (sl_tls_config lib (cf_syslog_ca_file c) (sl_split_host lib (cf_syslog_addr c)))
               else Inr None) of
           Inl e \<Rightarrow> Inl (''-syslog-ca-file: '' @ e)
         | Inr tls \<Rightarrow>
             (let s = SinkSyslog (cf_syslog_addr c) (cf_syslog_network c) (cf_syslog_format c) (cf_syslog_rfc c) tls
              in case sl_validate lib s of Some e \<Rightarrow> Inl e | None \<Rightarrow> Inr [ChanHFS s mode]))
      else Inl (''-syslog-format '' @ go_quote (cf_syslog_format c) @ '': want kv, json or cef''))"

definition build_file :: "'mode \<Rightarrow> channel_flags \<Rightarrow> ('tls, 'mode) channel list" where
  "build_file mode c = (if cf_export_file c = [] then [] else [ChanHFS (SinkFile (cf_export_file c)) mode])"

definition build_hec ::
  "('tls, 'mode) sink_lib \<Rightarrow> 'mode \<Rightarrow> channel_flags \<Rightarrow> string + ('tls, 'mode) channel list" where
  "build_hec lib mode c =
     (if cf_hec_url c = [] then Inr []
      else if cf_hec_token_file c = [] then Inl ''-hec-url needs -hec-token-file''
      else case sl_read_secret lib (cf_hec_token_file c) of
          Inl e \<Rightarrow> Inl (''-hec-token-file: '' @ e)
        | Inr tok \<Rightarrow>
            (case sl_endpoint lib (cf_hec_url c) of
               Some e \<Rightarrow> Inl (''-hec-url: '' @ e)
             | None \<Rightarrow>
                 (case (if cf_hec_ca_file c = [] then Inr None
                        else map_sum id Some (sl_tls_config lib (cf_hec_ca_file c) [])) of
                    Inl e \<Rightarrow> Inl (''-hec-ca-file: '' @ e)
                  | Inr tls \<Rightarrow> Inr [ChanHFS (SinkHEC (cf_hec_url c) tok (cf_hec_index c) tls) mode])))"

definition build_channels :: "('tls, 'mode) sink_lib \<Rightarrow> channel_flags \<Rightarrow> string + ('tls, 'mode) channel list" where
  "build_channels lib c =
     (case sl_parse_mode lib (cf_evidence c) of
        None \<Rightarrow> Inl (''-export-evidence '' @ go_quote (cf_evidence c) @ '': want redacted or none'')
      | Some mode \<Rightarrow>
          (case build_webhook lib mode c of
             Inl e \<Rightarrow> Inl e
           | Inr a \<Rightarrow>
               (case build_syslog lib mode c of
                  Inl e \<Rightarrow> Inl e
                | Inr b \<Rightarrow>
                    (case build_hec lib mode c of
                       Inl e \<Rightarrow> Inl e
                     | Inr d \<Rightarrow> Inr (a @ b @ build_file mode c @ d)))))"

text \<open>
  When \<open>build\<close> succeeds there is one channel for each of the webhook, the syslog
  collector, the export file and the event collector that is set, and no other; a plain-text
  syslog channel is never asked for over TLS.
\<close>

lemma flags_build_each_channel:
  assumes "build_channels lib c = Inr chans"
  shows "length chans = length (filter (\<lambda>a. a \<noteq> []) [cf_webhook c, cf_syslog_addr c, cf_export_file c, cf_hec_url c]) \<and>
    list_all (\<lambda>ch. case ch of ChanSyslog s \<Rightarrow> sy_network s = ''udp'' \<or> sy_network s = ''tcp'' | _ \<Rightarrow> True) chans"
proof -
  from assms obtain mode a b d where parts: "build_webhook lib mode c = Inr a" "build_syslog lib mode c = Inr b"
    "build_hec lib mode c = Inr d" "chans = a @ b @ build_file mode c @ d"
    by (auto simp: build_channels_def split: option.splits sum.splits)
  let ?ok = "list_all (\<lambda>ch. case ch of ChanSyslog s \<Rightarrow> sy_network s = ''udp'' \<or> sy_network s = ''tcp'' | _ \<Rightarrow> True)"
  have "length a = (if cf_webhook c = [] then 0 else 1) \<and> ?ok a"
    using parts(1) by (auto simp: build_webhook_def split: sum.splits if_splits)
  moreover have "length b = (if cf_syslog_addr c = [] then 0 else 1) \<and> ?ok b"
    using parts(2) by (auto simp: build_syslog_def Let_def split: sum.splits if_splits option.splits)
  moreover have "length d = (if cf_hec_url c = [] then 0 else 1) \<and> ?ok d"
    using parts(3) by (auto simp: build_hec_def split: sum.splits if_splits option.splits)
  ultimately show ?thesis unfolding parts(4) by (auto simp: build_file_def)
qed

definition plain_lib :: "(unit, unit) sink_lib" where
  "plain_lib = \<lparr>sl_parse_mode = (\<lambda>_. Some ()), sl_read_secret = (\<lambda>_. Inr ''s''), sl_split_host = id,
     sl_tls_config = (\<lambda>_ _. Inr ()), sl_validate = (\<lambda>_. None), sl_endpoint = (\<lambda>_. None)\<rparr>"

end
