(* ===== verification/Notify_Props.thy ===== *)
theory Notify_Props
  imports Notify
begin

text \<open>
  The properties of the notification dispatcher: order, batching, deduplication, delivery and
  retries.
\<close>

section \<open>Delivery\<close>

text \<open>An announcement is identified by its kind, its module and the fingerprint.\<close>

definition event_id :: "event \<Rightarrow> string \<times> string \<times> string" where
  "event_id e = (ev_kind e, ev_module e, f_fingerprint (ev_finding e))"

abbreviation triple_id :: "string \<times> string \<times> finding \<Rightarrow> string \<times> string \<times> string" where
  "triple_id \<equiv> \<lambda>(k, m, f). (k, m, f_fingerprint f)"

text \<open>The events the program makes: a known kind, and no bar in the module's name.\<close>

definition plain_event :: "event \<Rightarrow> bool" where
  "plain_event e \<longleftrightarrow> (ev_kind e = KindOpened \<or> ev_kind e = KindResolved) \<and> CHR ''|'' \<notin> set (ev_module e)"

lemma event_key_inj:
  assumes "plain_event e" "plain_event e'" "event_key e = event_key e'"
  shows "event_id e = event_id e'"
proof -
  have "CHR ''|'' \<notin> set (ev_kind e)" "CHR ''|'' \<notin> set (ev_kind e')"
    using assms(1,2) by (auto simp: plain_event_def KindOpened_def KindResolved_def)
  then show ?thesis using assms by (simp add: event_key_def event_id_def plain_event_def sep_inj)
qed

text \<open>The events of a list of steps that pass the severity filter.\<close>

definition accepted :: "notify_config \<Rightarrow> (time \<times> dispatch_op) list \<Rightarrow> event set" where
  "accepted cfg ops = {e. \<exists>now. (now, Enq e) \<in> set ops \<and>
     (ev_kind e = KindOpened \<longrightarrow> passesSeverity cfg (f_severity (ev_finding e)))}"

lemma accepted_Cons:
  "accepted cfg ((now, op) # ops) =
     (case op of Enq e \<Rightarrow> (if ev_kind e = KindOpened \<and> \<not> passesSeverity cfg (f_severity (ev_finding e))
                          then {} else {e}) | _ \<Rightarrow> {}) \<union> accepted cfg ops"
  by (auto simp: accepted_def split: dispatch_op.splits)

abbreviation plain_ops :: "(time \<times> dispatch_op) list \<Rightarrow> bool" where
  "plain_ops ops \<equiv> list_all (\<lambda>(now, op). case op of Enq e \<Rightarrow> plain_event e | FlushNow \<Rightarrow> True | CloseNow \<Rightarrow> False) ops"

lemma flush_ids:
  assumes "dispatcher_inv d" "\<forall>e \<in> set (pend_events d). plain_event e"
  shows "announced_by (snd (flushLocked now d)) = event_triple ` set (pend_events d)"
proof -
  have "{e \<in> set (pend_events d). known_kind e} = set (pend_events d)"
    using assms(2) by (auto simp: plain_event_def)
  moreover have "\<forall>(m, evs) \<in> set (dp_pending d). \<forall>e \<in> set evs. ev_module e = m"
    using assms(1) by (auto simp: dispatcher_inv_def)
  ultimately show ?thesis using flush_announces [of d now] by simp
qed

lemma triple_id_event: "triple_id ` event_triple ` E = event_id ` E"
  by (auto simp: event_triple_def event_id_def image_iff)

text \<open>One step: what was pending or comes in is announced or pending afterwards.\<close>

lemma step_delivery:
  assumes "dispatcher_inv d" "\<not> dp_closed d" "\<forall>e \<in> set (pend_events d). plain_event e"
    "plain_ops [(now, op)]" "dispatch_step now op d = (d', out)"
  shows "\<not> dp_closed d' \<and> (\<forall>e \<in> set (pend_events d'). plain_event e) \<and>
    event_id ` set (pend_events d') \<union> triple_id ` announced_by out =
      event_id ` (set (pend_events d) \<union> accepted (dp_cfg d) [(now, op)]) \<and>
    set (pend_events d') \<subseteq> set (pend_events d) \<union> accepted (dp_cfg d) [(now, op)] \<and>
    announced_by out \<subseteq> event_triple ` (set (pend_events d) \<union> accepted (dp_cfg d) [(now, op)])"
proof (cases op)
  case FlushNow
  then have "d' = fst (flushLocked now d)" "out = snd (flushLocked now d)"
    using assms(5) by (simp_all add: Flush_def)
  then show ?thesis using flush_ids [OF assms(1,3)] assms(2) FlushNow triple_id_event [of "set (pend_events d)"]
    by (simp add: accepted_Cons accepted_def)
next
  case CloseNow
  then show ?thesis using assms(4) by simp
next
  case (Enq e)
  have plain: "plain_event e" using assms(4) Enq by simp
  have acc: "accepted (dp_cfg d) [(now, op)] = (if refused e d then {} else {e})"
    using Enq by (auto simp: accepted_def refused_def)
  have run: "(d', out) =
     (if refused e d \<or> event_key e \<in> set (dp_seen d) then (d, [])
      else if nc_max_batch (dp_cfg d) \<le> int (length (pend_events (joined e d)))
      then flushLocked now (joined e d)
      else ((joined e d)\<lparr>dp_timer := True\<rparr>, []))"
    using assms(2,5) Enq by (simp add: Enqueue_unfold)
  have pend: "set (pend_events (joined e d)) = insert e (set (pend_events d))"
    using set_group_step [of ev_module e "dp_pending d"] by simp
  show ?thesis
  proof (cases "refused e d")
    case True
    then have "d' = d" "out = []" using run by simp_all
    then show ?thesis using True assms(2,3) acc by simp
  next
    case False
    note acc1 = acc [unfolded if_not_P [OF False]]
    show ?thesis
    proof (cases "event_key e \<in> set (dp_seen d)")
      case True
      then have same: "d' = d" "out = []" using run by simp_all
      have "event_key e \<in> event_key ` set (pend_events d)"
        using True assms(1) by (simp only: dispatcher_inv_def)
      then obtain e' where e': "e' \<in> set (pend_events d)" "event_key e' = event_key e" by (metis imageE)
      then have "event_id e = event_id e'" using event_key_inj [OF plain] assms(3) by metis
      then have "event_id e \<in> event_id ` set (pend_events d)" using e'(1) by blast
      then show ?thesis using same assms(2,3) unfolding acc1 by auto
    next
      case fresh: False
      show ?thesis
      proof (cases "nc_max_batch (dp_cfg d) \<le> int (length (pend_events (joined e d)))")
        case True
        then have d': "d' = fst (flushLocked now (joined e d))" "out = snd (flushLocked now (joined e d))"
          using run False fresh by (metis fst_conv snd_conv)+
        have "\<forall>(m, evs) \<in> set (dp_pending (joined e d)). \<forall>x \<in> set evs. ev_module x = m"
          using group_step_entries [of "dp_pending d" ev_module e] assms(1) by (auto simp: dispatcher_inv_def)
        moreover have "{x \<in> set (pend_events (joined e d)). known_kind x} = set (pend_events (joined e d))"
          using assms(3) plain unfolding pend by (auto simp: plain_event_def)
        ultimately have "announced_by out = event_triple ` insert e (set (pend_events d))"
          using flush_announces [of "joined e d" now] d'(2) pend by simp
        then show ?thesis using d' assms(2) triple_id_event [of "insert e (set (pend_events d))"]
          unfolding acc1 by simp
      next
        case arm: False
        then have d': "d' = (joined e d)\<lparr>dp_timer := True\<rparr>" "out = []" using run False fresh by simp_all
        then have "set (pend_events d') = insert e (set (pend_events d))" using pend by simp
        then show ?thesis using d' assms(2,3) plain unfolding acc1 by auto
      qed
    qed
  qed
qed

lemma chain_sets:
  "A = B \<union> C \<Longrightarrow> B \<union> D = E \<union> F \<Longrightarrow> A \<union> D = E \<union> (F \<union> C)"
  by blast

lemma run_delivery:
  assumes "dispatcher_inv d" "\<not> dp_closed d" "\<forall>e \<in> set (pend_events d). plain_event e"
    "plain_ops ops" "dispatch_run ops d = (d', out)"
  shows "dispatcher_inv d' \<and> \<not> dp_closed d' \<and> (\<forall>e \<in> set (pend_events d'). plain_event e) \<and>
    event_id ` set (pend_events d') \<union> triple_id ` announced_by out =
      event_id ` (set (pend_events d) \<union> accepted (dp_cfg d) ops) \<and>
    set (pend_events d') \<subseteq> set (pend_events d) \<union> accepted (dp_cfg d) ops \<and>
    announced_by out \<subseteq> event_triple ` (set (pend_events d) \<union> accepted (dp_cfg d) ops)"
  using assms
proof (induction ops arbitrary: d out)
  case Nil
  then show ?case by (auto simp: accepted_def)
next
  case (Cons o1 ops)
  obtain now op where o1: "o1 = (now, op)" by fastforce
  obtain d1 out1 out2 where s1: "dispatch_step now op d = (d1, out1)"
    and r2: "dispatch_run ops d1 = (d', out2)" and out: "out = out1 @ out2"
    using Cons.prems(5) o1 by (auto split: prod.splits)
  have plain1: "plain_ops [(now, op)]" and plain2: "plain_ops ops" using Cons.prems(4) o1 by simp_all
  note st = step_delivery [OF Cons.prems(1-3) plain1 s1]
  have inv1: "dispatcher_inv d1" using dispatch_step_inv [OF Cons.prems(1), of now op] s1 by simp
  have cfg: "dp_cfg d1 = dp_cfg d" using dispatch_step_cfg [of now op d] s1 by simp
  have ih: "dispatcher_inv d' \<and> \<not> dp_closed d' \<and> (\<forall>e \<in> set (pend_events d'). plain_event e) \<and>
    event_id ` set (pend_events d') \<union> triple_id ` announced_by out2 =
      event_id ` (set (pend_events d1) \<union> accepted (dp_cfg d) ops) \<and>
    set (pend_events d') \<subseteq> set (pend_events d1) \<union> accepted (dp_cfg d) ops \<and>
    announced_by out2 \<subseteq> event_triple ` (set (pend_events d1) \<union> accepted (dp_cfg d) ops)"
    using Cons.IH [OF inv1 _ _ plain2 r2] st cfg by simp
  have acc: "accepted (dp_cfg d) (o1 # ops) = accepted (dp_cfg d) [(now, op)] \<union> accepted (dp_cfg d) ops"
    using o1 by (auto simp: accepted_def)
  have "(event_id ` set (pend_events d') \<union> triple_id ` announced_by out2) \<union> triple_id ` announced_by out1 =
      event_id ` set (pend_events d) \<union>
        (event_id ` accepted (dp_cfg d) [(now, op)] \<union> event_id ` accepted (dp_cfg d) ops)"
  proof (rule chain_sets)
    show "event_id ` set (pend_events d') \<union> triple_id ` announced_by out2 =
        event_id ` set (pend_events d1) \<union> event_id ` accepted (dp_cfg d) ops"
      using ih unfolding image_Un by (elim conjE)
    show "event_id ` set (pend_events d1) \<union> triple_id ` announced_by out1 =
        event_id ` set (pend_events d) \<union> event_id ` accepted (dp_cfg d) [(now, op)]"
      using st unfolding image_Un by (elim conjE)
  qed
  then have ids: "event_id ` set (pend_events d') \<union> triple_id ` announced_by out =
      event_id ` (set (pend_events d) \<union> accepted (dp_cfg d) (o1 # ops))"
    unfolding out announced_by_append acc by (simp only: image_Un Un_ac)
  have sub: "set (pend_events d') \<subseteq> set (pend_events d) \<union> accepted (dp_cfg d) (o1 # ops)"
    using ih st unfolding acc by blast
  have "announced_by out \<subseteq> event_triple ` (set (pend_events d) \<union> accepted (dp_cfg d) (o1 # ops))"
  proof -
    have "announced_by out2 \<subseteq> event_triple ` (set (pend_events d1) \<union> accepted (dp_cfg d) ops)" using ih by blast
    also have "\<dots> \<subseteq> event_triple ` (set (pend_events d) \<union> accepted (dp_cfg d) (o1 # ops))"
      using st unfolding acc by (intro image_mono) blast
    finally have "announced_by out2 \<subseteq> event_triple ` (set (pend_events d) \<union> accepted (dp_cfg d) (o1 # ops))" .
    moreover have "announced_by out1 \<subseteq> event_triple ` (set (pend_events d) \<union> accepted (dp_cfg d) (o1 # ops))"
      using st unfolding acc by blast
    ultimately show ?thesis unfolding out announced_by_append by simp
  qed
  then show ?case using ih ids sub by simp
qed

lemma dispatch_run_append:
  "dispatch_run (xs @ ys) d =
     (case dispatch_run xs d of (d1, out1) \<Rightarrow> (case dispatch_run ys d1 of (d2, out2) \<Rightarrow> (d2, out1 @ out2)))"
proof (induction xs d rule: dispatch_run.induct)
  case (2 now op ops d)
  then show ?case by (auto split: prod.splits)
qed (simp split: prod.splits)

section \<open>Properties\<close>

text \<open>
  The insertion sort of a digest is a stable sort by descending severity: the swaps
  compute \<open>sort_key\<close> of the negated rank.
\<close>

theorem sortBySeverity_is_stable_sort:
  "sortBySeverity fs = sort_key (\<lambda>f. - severityRank (f_severity f)) fs"
  by (rule sortBySeverity_stable)

text \<open>
  C18. After any interleaving of enqueues, timer flushes and closes on a new dispatcher: the
  dedup set is exactly the keys of the pending events and no key is pending twice, fewer than
  the configured batch are pending, the timer is armed exactly while something is pending (so
  no event waits for nothing), and a closed dispatcher holds nothing.
\<close>

theorem dispatcher_always_wellformed:
  "dispatcher_inv (fst (dispatch_run ops (NewDispatcher cfg)))"
  by (rule dispatch_run_inv [OF dispatcher_inv_new])

text \<open>
  C19. Nothing is lost and nothing is made up: however enqueues and flushes interleave, once
  the dispatcher is closed the digests have announced exactly the (kind, module, fingerprint)
  of the events that pass the severity filter, and every finding in a digest is the finding of
  such an event, under its kind and module. The events carry one of the two kinds and a module
  name without a bar, as the program's do.
\<close>

theorem close_delivers:
  assumes "plain_ops ops"
  shows "(\<lambda>(k, m, f). (k, m, f_fingerprint f)) `
      announced_by (snd (dispatch_run (ops @ [(t, CloseNow)]) (NewDispatcher cfg))) =
      event_id ` accepted (notify_withDefaults cfg) ops \<and>
    announced_by (snd (dispatch_run (ops @ [(t, CloseNow)]) (NewDispatcher cfg))) \<subseteq>
      event_triple ` accepted (notify_withDefaults cfg) ops"
proof -
  let ?d0 = "NewDispatcher cfg"
  have new: "\<not> dp_closed ?d0" "pend_events ?d0 = []" "dp_cfg ?d0 = notify_withDefaults cfg"
    by (simp_all add: NewDispatcher_def)
  obtain d1 out1 where run: "dispatch_run ops ?d0 = (d1, out1)" by fastforce
  have rd: "dispatcher_inv d1 \<and> \<not> dp_closed d1 \<and> (\<forall>e \<in> set (pend_events d1). plain_event e) \<and>
    event_id ` set (pend_events d1) \<union> triple_id ` announced_by out1 =
      event_id ` (set (pend_events ?d0) \<union> accepted (dp_cfg ?d0) ops) \<and>
    set (pend_events d1) \<subseteq> set (pend_events ?d0) \<union> accepted (dp_cfg ?d0) ops \<and>
    announced_by out1 \<subseteq> event_triple ` (set (pend_events ?d0) \<union> accepted (dp_cfg ?d0) ops)"
    by (rule run_delivery [OF dispatcher_inv_new _ _ assms run]) (simp_all add: new)
  have out: "snd (dispatch_run (ops @ [(t, CloseNow)]) ?d0) = out1 @ snd (flushLocked t d1)"
    by (simp add: dispatch_run_append run Close_flush case_prod_beta)
  have fl: "announced_by (snd (flushLocked t d1)) = event_triple ` set (pend_events d1)"
    using rd by (intro flush_ids) (elim conjE, assumption)+
  have "triple_id ` announced_by (snd (dispatch_run (ops @ [(t, CloseNow)]) ?d0)) =
      triple_id ` announced_by out1 \<union> event_id ` set (pend_events d1)"
    unfolding out announced_by_append fl image_Un triple_id_event ..
  also have "\<dots> = event_id ` accepted (notify_withDefaults cfg) ops"
    using rd by (simp add: new Un_commute)
  finally have ids: "triple_id ` announced_by (snd (dispatch_run (ops @ [(t, CloseNow)]) ?d0)) =
      event_id ` accepted (notify_withDefaults cfg) ops" .
  have "set (pend_events d1) \<subseteq> accepted (notify_withDefaults cfg) ops"
    "announced_by out1 \<subseteq> event_triple ` accepted (notify_withDefaults cfg) ops"
    using rd by (simp_all add: new)
  then have "announced_by (snd (dispatch_run (ops @ [(t, CloseNow)]) ?d0)) \<subseteq>
      event_triple ` accepted (notify_withDefaults cfg) ops"
    unfolding out announced_by_append fl by (intro Un_least image_mono)
  with ids show ?thesis by simp
qed

definition sample_note :: event where
  "sample_note = \<lparr>ev_kind = KindResolved, ev_module = ''m'',
     ev_finding = collected ''fp'' ''t'' ''c'' ''title'' SeverityHigh ''fix'' []\<rparr>"

definition sample_cfg :: notify_config where
  "sample_cfg = \<lparr>nc_flush_interval = 0, nc_max_batch = 2, nc_min_severity = [], nc_retries = 0, nc_retry_delay = 0\<rparr>"

theorem close_delivers_witness:
  "triple_id ` announced_by (snd (dispatch_run ([(1, Enq sample_note), (2, Enq sample_note)] @ [(3, CloseNow)])
     (NewDispatcher sample_cfg))) = {(KindResolved, ''m'', ''fp'')}"
proof -
  have "plain_ops [(1, Enq sample_note), (2, Enq sample_note)]"
    by (simp add: plain_event_def sample_note_def)
  moreover have "event_id ` accepted (notify_withDefaults sample_cfg) [(1, Enq sample_note), (2, Enq sample_note)] =
      {(KindResolved, ''m'', ''fp'')}"
    by (auto simp: accepted_Cons accepted_def [of _ "[]"] event_id_def sample_note_def)
  ultimately show ?thesis
    using close_delivers [of "[(1, Enq sample_note), (2, Enq sample_note)]" 3 sample_cfg] by simp
qed

lemma send_from_outcome:
  "attempt \<le> retries \<Longrightarrow> (\<forall>i < attempt. send i \<noteq> None) \<Longrightarrow> (attempt = 0 \<longrightarrow> err = None) \<Longrightarrow>
     (0 < attempt \<longrightarrow> err = send (attempt - 1)) \<Longrightarrow>
     (case send_from send retries attempt err of (n, res) \<Rightarrow>
        n \<le> retries \<and>
        (if \<exists>i < retries. send i = None
         then res = None \<and> send (n - 1) = None \<and> 0 < n \<and> (\<forall>i < n - 1. send i \<noteq> None)
         else n = retries \<and> (0 < retries \<longrightarrow> res = send (retries - 1) \<and> res \<noteq> None)))"
proof (induction send retries attempt err rule: send_from.induct)
  case (1 send retries attempt err)
  show ?case
  proof (cases "attempt < retries")
    case True
    show ?thesis
    proof (cases "send attempt")
      case None
      then show ?thesis using True 1(3) by (subst send_from.simps) auto
    next
      case (Some e)
      have "send_from send retries attempt err = send_from send retries (Suc attempt) (Some e)"
        using True Some by (subst send_from.simps) simp
      then show ?thesis using 1(1) [OF True Some] True 1(3) Some by (simp add: less_Suc_eq)
    qed
  next
    case False
    then have "attempt = retries" using 1(2) by simp
    then have "send_from send retries attempt err = (retries, err)" by (subst send_from.simps) simp
    moreover have "\<not> (\<exists>i < retries. send i = None)" using 1(3) \<open>attempt = retries\<close> by blast
    ultimately show ?thesis using 1(3,5) \<open>attempt = retries\<close> by auto
  qed
qed

text \<open>
  A digest is tried at most as often as configured, stopping at the first attempt that
  succeeds; an error is reported exactly when every attempt failed, and it is the last one's.
\<close>

theorem sendWithRetry_outcome:
  "case sendWithRetry (notify_withDefaults cfg) send of (n, res) \<Rightarrow>
     (let retries = nat (nc_retries (notify_withDefaults cfg)) in
      0 < n \<and> n \<le> retries \<and>
      (if \<exists>i < retries. send i = None
       then res = None \<and> send (n - 1) = None \<and> (\<forall>i < n - 1. send i \<noteq> None)
       else n = retries \<and> res = send (retries - 1) \<and> res \<noteq> None))"
proof -
  define r where "r = nat (nc_retries (notify_withDefaults cfg))"
  have pos: "0 < r" using notify_withDefaults_pos(2) [of cfg] by (simp add: r_def)
  obtain n res where run: "send_from send r 0 None = (n, res)" by fastforce
  have "case send_from send r 0 None of (n, res) \<Rightarrow> n \<le> r \<and>
        (if \<exists>i < r. send i = None
         then res = None \<and> send (n - 1) = None \<and> 0 < n \<and> (\<forall>i < n - 1. send i \<noteq> None)
         else n = r \<and> (0 < r \<longrightarrow> res = send (r - 1) \<and> res \<noteq> None))"
    by (rule send_from_outcome) (simp_all only: le0 less_nat_zero_code, simp_all)
  then have out: "n \<le> r \<and>
        (if \<exists>i < r. send i = None
         then res = None \<and> send (n - 1) = None \<and> 0 < n \<and> (\<forall>i < n - 1. send i \<noteq> None)
         else n = r \<and> (0 < r \<longrightarrow> res = send (r - 1) \<and> res \<noteq> None))"
    unfolding run prod.case .
  have "0 < n \<and> n \<le> r \<and>
      (if \<exists>i < r. send i = None
       then res = None \<and> send (n - 1) = None \<and> (\<forall>i < n - 1. send i \<noteq> None)
       else n = r \<and> res = send (r - 1) \<and> res \<noteq> None)"
  proof (cases "\<exists>i < r. send i = None")
    case True
    then show ?thesis using out by (simp only: if_True) blast
  next
    case False
    then show ?thesis using out pos by (simp only: if_False) blast
  qed
  then show ?thesis unfolding sendWithRetry_def r_def [symmetric] Let_def run prod.case .
qed

theorem sendWithRetry_outcome_witness:
  "sendWithRetry (notify_withDefaults sample_cfg) (\<lambda>i. if i = 1 then None else Some ()) = (2, None)"
proof -
  have r: "nat (nc_retries (notify_withDefaults sample_cfg)) = 3"
    by (simp add: notify_withDefaults_def sample_cfg_def)
  obtain n res where run: "sendWithRetry (notify_withDefaults sample_cfg) (\<lambda>i. if i = 1 then None else Some ()) = (n, res)"
    by fastforce
  have "\<exists>i < (3 :: nat). (if i = 1 then None else Some ()) = None" by (intro exI [of _ "1 :: nat"]) simp
  then have "res = None \<and> (if n - 1 = 1 then None else Some ()) = None"
    using sendWithRetry_outcome [of sample_cfg "\<lambda>i. if i = 1 then None else Some ()"]
    unfolding run prod.case r Let_def by simp
  then have "n = 2 \<and> res = None" by (simp split: if_splits)
  then show ?thesis using run by simp
qed

end
