(* ===== verification/Sqlite_Store.thy ===== *)
theory Sqlite_Store
  imports Store Json_Parse
begin

text \<open>
  The SQLite store of \<open>store/sqlite.go\<close>. A table is the list of its rows in rowid order; the
  statements of the source are translated, with the unique constraints they rely on:
  \<open>findings.id\<close> is the primary key and \<open>(module, fingerprint)\<close> is unique. The clause
  \<open>ON CONFLICT(module, fingerprint)\<close> is tried before the other constraints. A time column
  gives back the instant it was given. Of the errors a database can return, the violated
  constraint is modelled.
\<close>

section \<open>Evidence\<close>

text \<open>
  Reading evidence back. Every number becomes a \<open>float64\<close>: an integer of at most 53 bits is
  kept, for any other literal \<open>flt\<close> is the literal the nearest float is encoded as
  (\<open>strconv\<close>; \<open>None\<close> when it is out of range).
\<close>

type_synonym float_reader = "string \<Rightarrow> string option"

definition read_number :: "float_reader \<Rightarrow> string \<Rightarrow> string option" where
  "read_number flt l =
     (case int_literal l of
        Some n \<Rightarrow> if \<bar>n\<bar> \<le> 2 ^ 53 \<and> itoa n = l then Some l else flt l
      | None \<Rightarrow> flt l)"

text \<open>A Go map filled from the members of an object: the last value of a key stays.\<close>

definition go_map :: "(string \<times> 'a) list \<Rightarrow> (string \<times> 'a) list" where
  "go_map kvs = fold (\<lambda>(k, v). amap_put k v) kvs []"

primrec any_value :: "float_reader \<Rightarrow> jdoc \<Rightarrow> jval option" where
  "any_value flt DNull = Some JNull"
| "any_value flt (DBool b) = Some (JBool b)"
| "any_value flt (DNum l) = map_option JFloat (read_number flt l)"
| "any_value flt (DStr s) = Some (JStr s)"
| "any_value flt (DArr xs) = map_option JList (those (map (any_value flt) xs))"
| "any_value flt (DObj kvs) = map_option (\<lambda>fs. JMap (go_map fs))
     (those (map (\<lambda>(k, ov). map_option (Pair k) ov) (map (map_prod id (any_value flt)) kvs)))"

definition unreadable_evidence :: "(string \<times> jval) list" where
  "unreadable_evidence = [(''_error'', JStr ''stored evidence unreadable'')]"

definition read_evidence :: "float_reader \<Rightarrow> string \<Rightarrow> evidence" where
  "read_evidence flt s =
     (case Option.bind (json_parse s) (any_value flt) of
        Some (JMap kvs) \<Rightarrow> Some kvs
      | Some JNull \<Rightarrow> None
      | _ \<Rightarrow> Some unreadable_evidence)"

definition marshalEvidence :: "evidence \<Rightarrow> store_error + string option" where
  "marshalEvidence ev =
     (case ev of
        None \<Rightarrow> Inr None
      | Some kvs \<Rightarrow> (case json_marshal (JMap kvs) of
            None \<Rightarrow> Inl (StoreError ''marshal evidence'')
          | Some b \<Rightarrow> Inr (Some b)))"

section \<open>The table of findings\<close>

record row =
  row_id :: string
  row_fingerprint :: string
  row_module :: string
  row_target :: string
  row_check :: string
  row_title :: string
  row_severity :: string
  row_status :: string
  row_remediation :: string
  row_evidence :: "string option"
  row_group :: "string option"
  row_first_seen :: time
  row_last_seen :: time
  row_resolved_at :: "time option"
  row_absent_streak :: int

record sqlite =
  db_findings :: "row list"
  db_targets :: "(string \<times> string \<times> string) list"

text \<open>\<open>migrate\<close> on an empty database; on a migrated one it changes nothing.\<close>

definition new_sqlite :: sqlite where
  "new_sqlite = \<lparr>db_findings = [], db_targets = []\<rparr>"

definition row_values :: "store_rec \<Rightarrow> string option \<Rightarrow> row" where
  "row_values r ev =
     \<lparr>row_id = f_id r, row_fingerprint = f_fingerprint r, row_module = f_module r,
      row_target = f_target r, row_check = f_check r, row_title = f_title r,
      row_severity = f_severity r, row_status = f_status r, row_remediation = f_remediation r,
      row_evidence = ev, row_group = f_group r, row_first_seen = f_first_seen r,
      row_last_seen = f_last_seen r, row_resolved_at = f_resolved_at r,
      row_absent_streak = r_absent_streak r\<rparr>"

definition row_key :: "row \<Rightarrow> string \<times> string" where
  "row_key x = (row_module x, row_fingerprint x)"

text \<open>\<open>DO UPDATE SET\<close>: the columns taken from the excluded row.\<close>

definition do_update :: "row \<Rightarrow> row \<Rightarrow> row" where
  "do_update new old = old\<lparr>
     row_title := row_title new, row_severity := row_severity new, row_status := row_status new,
     row_remediation := row_remediation new, row_evidence := row_evidence new,
     row_group := row_group new, row_last_seen := row_last_seen new,
     row_resolved_at := row_resolved_at new, row_absent_streak := row_absent_streak new\<rparr>"

definition insert_or_update :: "row \<Rightarrow> row list \<Rightarrow> store_error + row list" where
  "insert_or_update x rows =
     (if row_key x \<in> row_key ` set rows
      then Inr (map (\<lambda>y. if row_key y = row_key x then do_update x y else y) rows)
      else if row_id x \<in> row_id ` set rows
      then Inl (StoreError ''UNIQUE constraint failed: findings.id'')
      else Inr (rows @ [x]))"

definition sql_Upsert :: "sqlite \<Rightarrow> store_rec \<Rightarrow> store_error + sqlite" where
  "sql_Upsert db r =
     (case marshalEvidence (f_evidence r) of
        Inl e \<Rightarrow> Inl e
      | Inr ev \<Rightarrow> map_sum id (\<lambda>rows. db\<lparr>db_findings := rows\<rparr>)
          (insert_or_update (row_values r ev) (db_findings db)))"

section \<open>Reading rows\<close>

definition scanRecord :: "float_reader \<Rightarrow> row \<Rightarrow> store_rec" where
  "scanRecord flt x =
     \<lparr>f_fingerprint = row_fingerprint x, f_target = row_target x, f_check = row_check x,
      f_title = row_title x, f_severity = row_severity x, f_remediation = row_remediation x,
      f_evidence = (case row_evidence x of
          None \<Rightarrow> None | Some s \<Rightarrow> if s = [] then None else read_evidence flt s),
      f_id = row_id x, f_module = row_module x, f_status = row_status x, f_group = row_group x,
      f_first_seen = row_first_seen x, f_last_seen = row_last_seen x,
      f_resolved_at = row_resolved_at x, r_absent_streak = row_absent_streak x\<rparr>"

definition sql_ListByTarget :: "float_reader \<Rightarrow> sqlite \<Rightarrow> string \<Rightarrow> string \<Rightarrow> store_error + store_rec list" where
  "sql_ListByTarget flt db module target = Inr (map (scanRecord flt)
     (filter (\<lambda>x. row_module x = module \<and> row_target x = target) (db_findings db)))"

definition sql_ListOpen :: "float_reader \<Rightarrow> sqlite \<Rightarrow> string \<Rightarrow> store_rec list" where
  "sql_ListOpen flt db module = map (scanRecord flt)
     (filter (\<lambda>x. row_module x = module \<and> row_status x = StatusOpen) (db_findings db))"

definition sql_Get :: "float_reader \<Rightarrow> sqlite \<Rightarrow> string \<Rightarrow> string \<Rightarrow> store_rec option" where
  "sql_Get flt db module fingerprint = map_option (scanRecord flt)
     (List.find (\<lambda>x. row_key x = (module, fingerprint)) (db_findings db))"

text \<open>\<open>ORDER BY last_seen DESC\<close>; rows of one instant in rowid order.\<close>

definition sql_ListAll :: "float_reader \<Rightarrow> sqlite \<Rightarrow> string \<Rightarrow> store_rec list" where
  "sql_ListAll flt db module = map (scanRecord flt)
     (sort_key (\<lambda>x. - row_last_seen x) (filter (\<lambda>x. row_module x = module) (db_findings db)))"

definition sql_ops :: "float_reader \<Rightarrow> sqlite store_ops" where
  "sql_ops flt = \<lparr>op_list_by_target = sql_ListByTarget flt, op_upsert = sql_Upsert\<rparr>"

section \<open>Retention\<close>

definition prunable :: "time \<Rightarrow> row \<Rightarrow> bool" where
  "prunable cutoff x \<longleftrightarrow> row_status x = StatusResolved \<and>
     (case row_resolved_at x of None \<Rightarrow> False | Some t \<Rightarrow> t < cutoff)"

definition PruneResolvedBefore :: "time \<Rightarrow> sqlite \<Rightarrow> nat \<times> sqlite" where
  "PruneResolvedBefore cutoff db =
     (length (filter (prunable cutoff) (db_findings db)),
      db\<lparr>db_findings := filter (\<lambda>x. \<not> prunable cutoff x) (db_findings db)\<rparr>)"

section \<open>Saved targets\<close>

definition sql_SaveTarget :: "string \<Rightarrow> string \<Rightarrow> string \<Rightarrow> sqlite \<Rightarrow> sqlite" where
  "sql_SaveTarget module raw canonical db =
     (if list_ex (\<lambda>(m, r, c). m = module \<and> c = canonical) (db_targets db) then db
      else db\<lparr>db_targets := db_targets db @ [(module, raw, canonical)]\<rparr>)"

definition sql_DeleteTarget :: "string \<Rightarrow> string \<Rightarrow> sqlite \<Rightarrow> sqlite" where
  "sql_DeleteTarget module canonical db =
     db\<lparr>db_targets := filter (\<lambda>(m, r, c). \<not> (m = module \<and> c = canonical)) (db_targets db)\<rparr>"

definition sql_ListSavedTargets :: "string \<Rightarrow> sqlite \<Rightarrow> string list" where
  "sql_ListSavedTargets module db =
     map (\<lambda>(m, r, c). r) (filter (\<lambda>(m, r, c). m = module) (db_targets db))"

end
