(* ===== verification/Json_Marshal.thy ===== *)
theory Json_Marshal
  imports Json_Roundtrip
begin

text \<open>
  What \<open>json.Marshal\<close> writes, \<open>json.Unmarshal\<close> reads: for every value the decoder
  recovers its document, with the bytes that are not UTF-8 replaced.
\<close>

section \<open>Numbers\<close>

text \<open>The bytes that can follow a value inside a document.\<close>

definition stops :: "string \<Rightarrow> bool" where
  "stops t \<longleftrightarrow> (case t of [] \<Rightarrow> True | c # _ \<Rightarrow> c \<in> {CHR '','', CHR 0x5D, CHR 0x7D})"

lemma stops_simps [simp]: "stops []" "stops (CHR '','' # t)" "stops (CHR 0x5D # t)" "stops (CHR 0x7D # t)"
  by (simp_all add: stops_def)

lemma stops_cases:
  assumes "stops t"
  obtains "t = []" | c u where "t = c # u" "c \<in> {CHR '','', CHR 0x5D, CHR 0x7D}"
  using assms by (cases t) (auto simp: stops_def)

lemma digits_stop: "digits s = Some (ds, r) \<Longrightarrow> stops t \<Longrightarrow> digits (s @ t) = Some (ds, r @ t)"
proof -
  assume a: "digits s = Some (ds, r)" "stops t"
  have t: "takeWhile is_digit t = [] \<and> dropWhile is_digit t = t"
    using a(2) by (rule stops_cases) (auto simp: is_digit_def)
  show ?thesis
  proof (cases "\<forall>c \<in> set s. is_digit c")
    case True
    then have "takeWhile is_digit (s @ t) = s" "dropWhile is_digit (s @ t) = t"
      using t by (simp_all add: takeWhile_append2 dropWhile_append2)
    moreover have "takeWhile is_digit s = s" "dropWhile is_digit s = []"
      using True by (simp_all add: takeWhile_eq_all_conv)
    ultimately show ?thesis using a(1)
      by (auto simp: digits_def simp del: takeWhile_eq_all_conv dropWhile_eq_Nil_conv split: if_splits)
  next
    case False
    then obtain c where "c \<in> set s" "\<not> is_digit c" by blast
    then have "takeWhile is_digit (s @ t) = takeWhile is_digit s"
      "dropWhile is_digit (s @ t) = dropWhile is_digit s @ t"
      by (simp_all add: takeWhile_append1 dropWhile_append1)
    then show ?thesis using a(1) by (auto simp: digits_def split: if_splits)
  qed
qed

lemma json_int_part_stop:
  "json_int_part s = Some (x, r) \<Longrightarrow> stops t \<Longrightarrow> json_int_part (s @ t) = Some (x, r @ t)"
  using digits_stop [of s x r t] by (cases s) (auto simp: json_int_part_def split: if_splits)

lemma json_frac_stop: "json_frac s = Some (x, r) \<Longrightarrow> stops t \<Longrightarrow> json_frac (s @ t) = Some (x, r @ t)"
proof (cases s)
  case Nil
  assume "json_frac s = Some (x, r)" "stops t"
  then show ?thesis using Nil by (auto simp: json_frac_def elim: stops_cases)
next
  case (Cons c cs)
  assume "json_frac s = Some (x, r)" "stops t"
  then show ?thesis using Cons digits_stop [of cs] by (auto simp: json_frac_def split: if_splits)
qed

lemma json_exp_stop: "json_exp s = Some (x, r) \<Longrightarrow> stops t \<Longrightarrow> json_exp (s @ t) = Some (x, r @ t)"
proof (cases s)
  case Nil
  assume "json_exp s = Some (x, r)" "stops t"
  then show ?thesis using Nil by (auto simp: json_exp_def elim: stops_cases)
next
  case (Cons c cs)
  assume a: "json_exp s = Some (x, r)" "stops t"
  show ?thesis
  proof (cases cs)
    case Nil
    then show ?thesis using a Cons by (auto simp: json_exp_def digits_def split: if_splits)
  next
    case (Cons d ds)
    then show ?thesis using a \<open>s = c # cs\<close> digits_stop [OF _ a(2), of cs] digits_stop [OF _ a(2), of ds]
      by (auto simp: json_exp_def split: if_splits)
  qed
qed

definition json_sign :: "string \<Rightarrow> string \<times> string" where
  "json_sign s = (case s of c # cs \<Rightarrow> if c = CHR ''-'' then (''-'', cs) else ([], s) | [] \<Rightarrow> ([], s))"

lemma json_number_parts:
  "json_number s = (case json_sign s of (neg, s0) \<Rightarrow>
     (case json_int_part s0 of None \<Rightarrow> None
      | Some (i, s1) \<Rightarrow> (case json_frac s1 of None \<Rightarrow> None
        | Some (f, s2) \<Rightarrow> (case json_exp s2 of None \<Rightarrow> None
          | Some (e, s3) \<Rightarrow> Some (neg @ i @ f @ e, s3)))))"
  unfolding json_number_def json_sign_def Let_def by (rule refl)

lemma json_number_stop:
  assumes "json_number s = Some (x, r)" "stops t"
  shows "json_number (s @ t) = Some (x, r @ t)"
proof -
  obtain neg s0 where n: "json_sign s = (neg, s0)" by fastforce
  obtain i s1 f s2 e s3 where p: "json_int_part s0 = Some (i, s1)" "json_frac s1 = Some (f, s2)"
      "json_exp s2 = Some (e, s3)" "x = neg @ i @ f @ e" "r = s3"
    using assms(1) n by (auto simp: json_number_parts split: option.splits)
  have "s \<noteq> []" using p(1) n by (cases s) (auto simp: json_sign_def json_int_part_def)
  then have "json_sign (s @ t) = (neg, s0 @ t)" using n by (cases s) (auto simp: json_sign_def split: if_splits)
  then show ?thesis
    using p json_int_part_stop [OF p(1) assms(2)] json_frac_stop [OF p(2) assms(2)] json_exp_stop [OF p(3) assms(2)]
    by (simp add: json_number_parts)
qed

text \<open>A literal the decoder reads whole.\<close>

definition number_lit :: "string \<Rightarrow> bool" where
  "number_lit l \<longleftrightarrow> json_number l = Some (l, [])"

lemma nat_str_digits: "list_all is_digit (nat_str n)"
  using nat_str_chars by (auto simp: list_all_iff is_digit_def Let_def)

lemma nat_str_head: "0 < n \<Longrightarrow> hd (nat_str n) \<noteq> CHR ''0''"
proof (induction n rule: nat_str.induct)
  case (1 n)
  show ?case
  proof (cases "n < 10")
    case True
    have "(of_char (char_of (48 + n) :: char) :: nat) = 48 + n" using True by simp
    moreover have "(of_char (CHR ''0'') :: nat) = 48" by simp
    ultimately have "char_of (48 + n) \<noteq> CHR ''0''" using 1(2) by (metis add_cancel_left_right less_numeral_extra(3))
    then show ?thesis using True by (simp add: nat_str.simps [of n])
  next
    case False
    then show ?thesis using 1(1) by (simp add: nat_str.simps [of n] hd_append)
  qed
qed

lemma nat_str_read: "json_int_part (nat_str n) = Some (nat_str n, [])"
proof -
  obtain c cs where c: "nat_str n = c # cs" by (cases "nat_str n") auto
  have ds: "digits (nat_str n) = Some (nat_str n, [])"
    using nat_str_digits [of n] by (simp add: digits_def list_all_iff takeWhile_eq_all_conv [THEN iffD2])
  have "cs = []" if "c = CHR ''0''"
    using that c nat_str_head [of n] by (cases "n = 0") (auto simp: nat_str.simps [of 0])
  then show ?thesis using c ds by (auto simp: json_int_part_def)
qed

lemma number_itoa: "number_lit (itoa i)"
proof -
  have "json_sign (nat_str n) = ([], nat_str n)" for n
    using nat_str_digits [of n] by (cases "nat_str n") (auto simp: json_sign_def is_digit_def)
  then have "json_sign (itoa i) = (if i < 0 then (''-'', nat_str (nat (- i))) else ([], nat_str (nat i)))"
    by (simp add: itoa_def json_sign_def)
  then show ?thesis
    by (simp add: number_lit_def json_number_parts nat_str_read json_frac_def json_exp_def itoa_def)
qed

lemma number_head:
  assumes "number_lit (c # cs)"
  shows "c = CHR ''-'' \<or> is_digit c"
proof -
  have "json_sign (c # cs) = ([], c # cs)" if "c \<noteq> CHR ''-''" using that by (simp add: json_sign_def)
  moreover have "is_digit c" if "json_int_part (c # cs) \<noteq> None"
    using that by (auto simp: json_int_part_def digits_def is_digit_def split: if_splits)
  ultimately show ?thesis using assms
    by (cases "c = CHR ''-''"; cases "json_int_part (c # cs)") (auto simp: number_lit_def json_number_parts)
qed

lemma number_not_Nil: "\<not> number_lit []"
  by (simp add: number_lit_def json_number_parts json_sign_def json_int_part_def)

section \<open>Reading a value back\<close>

text \<open>
  \<open>reads b d\<close>: in any document, with twice its length of fuel, the text \<open>b\<close> is read as
  \<open>d\<close>; it does not start with a blank or a closing bracket.
\<close>

definition starts :: "string \<Rightarrow> bool" where
  "starts b \<longleftrightarrow> (case b of [] \<Rightarrow> False | c # _ \<Rightarrow> \<not> is_json_space c \<and> c \<noteq> CHR 0x5D)"

definition reads :: "string \<Rightarrow> jdoc \<Rightarrow> bool" where
  "reads b d \<longleftrightarrow> starts b \<and>
     (\<forall>n t. stops t \<longrightarrow> 2 * length b + 1 \<le> n \<longrightarrow> json_value n (b @ t) = Some (d, t))"

lemma readsD: "reads b d \<Longrightarrow> stops t \<Longrightarrow> 2 * length b + 1 \<le> n \<Longrightarrow> json_value n (b @ t) = Some (d, t)"
  by (simp add: reads_def)

lemma starts_skip: "starts b \<Longrightarrow> skip_space (b @ t) = b @ t"
  by (cases b) (auto simp: starts_def skip_space_def)

lemma reads_scalar:
  assumes "starts b" "hd b \<noteq> CHR 0x5B" "hd b \<noteq> CHR 0x7B"
    and "\<And>t. stops t \<Longrightarrow> json_scalar (b @ t) = Some (d, t)"
  shows "reads b d"
  unfolding reads_def
proof (intro conjI allI impI assms(1))
  fix n t assume "stops t" "2 * length b + 1 \<le> n"
  then obtain m where "n = Suc m" by (cases n) auto
  then show "json_value n (b @ t) = Some (d, t)"
    using assms(2,3) assms(4) [OF \<open>stops t\<close>] starts_skip [OF assms(1), of t] assms(1)
    by (cases b) (auto simp: starts_def)
qed

lemma reads_number:
  assumes "number_lit l"
  shows "reads l (DNum l)"
proof -
  obtain c cs where l: "l = c # cs" using assms number_not_Nil by (cases l) auto
  have c: "c = CHR ''-'' \<or> is_digit c" using number_head assms l by simp
  show ?thesis
  proof (rule reads_scalar)
    show "starts l" using c by (auto simp: l starts_def is_json_space_def is_digit_def)
    show "hd l \<noteq> CHR 0x5B" "hd l \<noteq> CHR 0x7B" using c by (auto simp: l is_digit_def)
    fix t :: string assume "stops t"
    then have "json_number (l @ t) = Some (l, t)"
      using json_number_stop [of l l "[]" t] assms by (simp add: number_lit_def)
    then show "json_scalar (l @ t) = Some (DNum l, t)"
      using c by (auto simp: l json_scalar_def is_digit_def)
  qed
qed

lemma reads_string: "reads (json_string s) (DStr (utf8_fix s))"
proof (rule reads_scalar)
  fix t :: string
  show "json_scalar (json_string s @ t) = Some (DStr (utf8_fix s), t)"
    by (simp add: json_string_def json_scalar_def json_text_string)
qed (simp_all add: json_string_def starts_def is_json_space_def)

lemma reads_constants: "reads ''null'' DNull" "reads ''true'' (DBool True)" "reads ''false'' (DBool False)"
  by (rule reads_scalar; simp add: starts_def is_json_space_def json_scalar_def)+

section \<open>Arrays and objects\<close>

lemma reads_elements:
  "list_all2 reads bs ds \<Longrightarrow> bs \<noteq> [] \<Longrightarrow> 2 * length (join bs '','') + 2 \<le> n \<Longrightarrow>
     json_elements n (join bs '','' @ CHR 0x5D # t) = Some (ds, t)"
proof (induction bs arbitrary: ds n)
  case (Cons b bs)
  note IH = Cons.IH
  obtain d ds' where ds: "ds = d # ds'" "reads b d" "list_all2 reads bs ds'"
    using Cons.prems(1) by (auto simp: list_all2_Cons1)
  obtain m where n: "n = Suc m" using Cons.prems(3) by (cases n) auto
  show ?case
  proof (cases bs)
    case Nil
    then have "json_value m (b @ CHR 0x5D # t) = Some (d, CHR 0x5D # t)"
      using Cons.prems(3) n by (intro readsD [OF ds(2)]) auto
    then show ?thesis using Nil ds n by (simp add: skip_space_def is_json_space_def)
  next
    case (Cons b' bs')
    then have len: "length (join (b # bs) '','') = length b + 1 + length (join bs '','')" by simp
    then have "json_value m (b @ CHR '','' # join bs '','' @ CHR 0x5D # t) =
        Some (d, CHR '','' # join bs '','' @ CHR 0x5D # t)"
      using Cons.prems(3) n by (intro readsD [OF ds(2)]) auto
    moreover have "json_elements m (join bs '','' @ CHR 0x5D # t) = Some (ds', t)"
      using Cons.prems(3) n len Cons by (intro IH ds(3)) auto
    ultimately show ?thesis using Cons ds n by simp
  qed
qed simp

lemma join_starts: "bs \<noteq> [] \<Longrightarrow> starts (hd bs) \<Longrightarrow> starts (join bs sep)"
  by (induction bs sep rule: join.induct) (auto simp: starts_def split: list.splits)

lemma reads_array:
  assumes "list_all2 reads bs ds"
  shows "reads (json_array bs) (DArr ds)"
  unfolding reads_def
proof (intro conjI allI impI)
  show "starts (json_array bs)" by (simp add: starts_def json_array_def is_json_space_def)
  fix n t assume t: "stops t" and n0: "2 * length (json_array bs) + 1 \<le> n"
  obtain m where n: "n = Suc m" "2 * length (join bs '','') + 2 \<le> m"
    using n0 by (cases n) (auto simp: json_array_def)
  have open_bracket: "skip_space (CHR 0x5B # u) = CHR 0x5B # u" for u
    by (simp add: skip_space_def is_json_space_def)
  show "json_value n (json_array bs @ t) = Some (DArr ds, t)"
  proof (cases "bs = []")
    case True
    then show ?thesis using assms
      by (simp add: n json_array_def skip_space_def is_json_space_def)
  next
    case False
    have st: "starts (join bs '','')"
      using assms False by (intro join_starts) (auto simp: reads_def list_all2_Cons1 neq_Nil_conv)
    then obtain c cs where c: "join bs '','' = c # cs" "c \<noteq> CHR 0x5D"
      by (cases "join bs '',''") (auto simp: starts_def)
    have "json_elements m (join bs '','' @ CHR 0x5D # t) = Some (ds, t)"
      using assms False n(2) by (intro reads_elements)
    moreover have "skip_space (join bs '','' @ CHR 0x5D # t) = join bs '','' @ CHR 0x5D # t"
      using st by (rule starts_skip)
    ultimately show ?thesis using c open_bracket
      by (simp add: n json_array_def del: json_elements.simps)
  qed
qed

definition json_entry :: "string \<times> string \<Rightarrow> string" where
  "json_entry kv = json_string (fst kv) @ '':'' @ snd kv"

lemma json_object_entries: "json_object kvs = CHR 0x7B # join (map json_entry kvs) '','' @ [CHR 0x7D]"
  unfolding json_object_def by (intro arg_cong2 [where f = Cons] arg_cong2 [where f = append]
      arg_cong2 [where f = join] map_cong refl) (simp_all add: json_entry_def case_prod_beta)

definition reads_entry :: "string \<times> string \<Rightarrow> string \<times> jdoc \<Rightarrow> bool" where
  "reads_entry kv kd \<longleftrightarrow> fst kd = utf8_fix (fst kv) \<and> reads (snd kv) (snd kd)"

lemma entry_key: "json_text (json_escape k @ CHR 0x22 # CHR '':'' # u) = Some (utf8_fix k, CHR '':'' # u)"
  by (rule json_text_string)

lemma reads_entry_text:
  assumes "reads_entry kv kd" "stops t" "2 * length (json_entry kv) + 1 \<le> n"
  shows "\<exists>u. json_entry kv @ t = CHR 0x22 # u \<and>
    json_text u = Some (fst kd, CHR '':'' # snd kv @ t) \<and> json_value n (snd kv @ t) = Some (snd kd, t)"
proof -
  have "json_value n (snd kv @ t) = Some (snd kd, t)"
    using assms by (intro readsD) (auto simp: reads_entry_def json_entry_def)
  then show ?thesis using assms(1)
    by (simp add: json_entry_def json_string_def reads_entry_def entry_key)
qed

lemma reads_members:
  "list_all2 reads_entry kvs kds \<Longrightarrow> kvs \<noteq> [] \<Longrightarrow> 2 * length (join (map json_entry kvs) '','') + 2 \<le> n \<Longrightarrow>
     json_members n (join (map json_entry kvs) '','' @ CHR 0x7D # t) = Some (kds, t)"
proof (induction kvs arbitrary: kds n)
  case (Cons kv kvs)
  note IH = Cons.IH
  obtain kd kds' where kds: "kds = kd # kds'" "reads_entry kv kd" "list_all2 reads_entry kvs kds'"
    using Cons.prems(1) by (auto simp: list_all2_Cons1)
  obtain m where n: "n = Suc m" using Cons.prems(3) by (cases n) auto
  show ?case
  proof (cases kvs)
    case Nil
    obtain u where u: "json_entry kv @ CHR 0x7D # t = CHR 0x22 # u"
        "json_text u = Some (fst kd, CHR '':'' # snd kv @ CHR 0x7D # t)"
        "json_value m (snd kv @ CHR 0x7D # t) = Some (snd kd, CHR 0x7D # t)"
      using reads_entry_text [OF kds(2), of "CHR 0x7D # t" m] Cons.prems(3) n Nil by auto
    then show ?thesis using Nil kds n by simp
  next
    case (Cons kv' kvs')
    let ?rest = "join (map json_entry kvs) '','' @ CHR 0x7D # t"
    have len: "length (join (map json_entry (kv # kvs)) '','') =
        length (json_entry kv) + 1 + length (join (map json_entry kvs) '','')" using Cons by simp
    obtain u where u: "json_entry kv @ CHR '','' # ?rest = CHR 0x22 # u"
        "json_text u = Some (fst kd, CHR '':'' # snd kv @ CHR '','' # ?rest)"
        "json_value m (snd kv @ CHR '','' # ?rest) = Some (snd kd, CHR '','' # ?rest)"
      using reads_entry_text [OF kds(2), of "CHR '','' # ?rest" m] Cons.prems(3) n len by auto
    moreover have "json_members m ?rest = Some (kds', t)"
      using Cons.prems(3) n len Cons by (intro IH kds(3)) auto
    moreover have "join (map json_entry (kv # kvs)) '','' @ CHR 0x7D # t = json_entry kv @ CHR '','' # ?rest"
      using Cons by simp
    ultimately show ?thesis using kds n by (simp del: join.simps list.map)
  qed
qed simp

lemma reads_object:
  assumes "list_all2 reads_entry kvs kds"
  shows "reads (json_object kvs) (DObj kds)"
  unfolding reads_def
proof (intro conjI allI impI)
  show "starts (json_object kvs)" by (simp add: starts_def json_object_def is_json_space_def)
  fix n t assume t: "stops t" and n0: "2 * length (json_object kvs) + 1 \<le> n"
  obtain m where n: "n = Suc m" "2 * length (join (map json_entry kvs) '','') + 2 \<le> m"
    using n0 by (cases n) (auto simp: json_object_entries)
  show "json_value n (json_object kvs @ t) = Some (DObj kds, t)"
  proof (cases "kvs = []")
    case True
    then show ?thesis using assms by (simp add: n json_object_entries)
  next
    case False
    then obtain kv kvs' where kv: "kvs = kv # kvs'" by (cases kvs) auto
    then obtain u where u: "join (map json_entry kvs) '','' @ CHR 0x7D # t = CHR 0x22 # u"
      by (cases kvs') (auto simp: json_entry_def json_string_def)
    have "json_members m (join (map json_entry kvs) '','' @ CHR 0x7D # t) = Some (kds, t)"
      using assms False n(2) by (intro reads_members)
    then show ?thesis using u by (simp add: n json_object_entries del: json_members.simps)
  qed
qed

section \<open>Every value\<close>

text \<open>The document of an encoded value: bytes that are not UTF-8 come back replaced.\<close>

primrec doc_of :: "jval \<Rightarrow> jdoc option" where
  "doc_of JNull = Some DNull"
| "doc_of (JBool b) = Some (DBool b)"
| "doc_of (JInt i) = Some (DNum (itoa i))"
| "doc_of (JFloat l) = Some (DNum l)"
| "doc_of (JStr s) = Some (DStr (utf8_fix s))"
| "doc_of (JStrs ss) = Some (DArr (map (\<lambda>s. DStr (utf8_fix s)) ss))"
| "doc_of (JList xs) = map_option DArr (those (map doc_of xs))"
| "doc_of (JMap kvs) = map_option (\<lambda>fs. DObj (map (map_prod utf8_fix id) (sort_key fst fs)))
     (those (map (\<lambda>(k, od). map_option (Pair k) od) (map (map_prod id doc_of) kvs)))"
| "doc_of (JOther ov) = (case map_option doc_of ov of None \<Rightarrow> None | Some r \<Rightarrow> r)"

primrec floats_ok :: "jval \<Rightarrow> bool" where
  "floats_ok JNull = True"
| "floats_ok (JBool b) = True"
| "floats_ok (JInt i) = True"
| "floats_ok (JFloat l) = number_lit l"
| "floats_ok (JStr s) = True"
| "floats_ok (JStrs ss) = True"
| "floats_ok (JList xs) = list_all id (map floats_ok xs)"
| "floats_ok (JMap kvs) = list_all snd (map (map_prod id floats_ok) kvs)"
| "floats_ok (JOther ov) = (case map_option floats_ok ov of None \<Rightarrow> True | Some b \<Rightarrow> b)"

lemma those_map_iff: "those (map g xs) = Some ys \<longleftrightarrow> list_all2 (\<lambda>x y. g x = Some y) xs ys"
proof (induction xs arbitrary: ys)
  case Nil
  then show ?case by auto
next
  case (Cons x xs)
  then show ?case by (cases ys; cases "g x"; cases "those (map g xs)") auto
qed

lemma list_all2_insort:
  assumes "P x y" "list_all2 P xs ys" "\<And>x y. P x y \<Longrightarrow> f x = g y"
  shows "list_all2 P (insort_key f x xs) (insort_key g y ys)"
  using assms(2) by (induction rule: list_all2_induct) (simp_all add: assms(1) assms(3) [OF assms(1)] assms(3))

lemma list_all2_sort:
  assumes "list_all2 P xs ys" "\<And>x y. P x y \<Longrightarrow> f x = g y"
  shows "list_all2 P (sort_key f xs) (sort_key g ys)"
  using assms(1) unfolding sort_key_def
  by (induction rule: list_all2_induct) (simp_all add: list_all2_insort assms(2))

text \<open>The readings of the parts of a list give the reading of the list of the parts.\<close>

lemma list_all2_read:
  assumes "list_all2 (\<lambda>x b. f x = Some b) xs bs"
    and "\<And>x b. x \<in> set xs \<Longrightarrow> f x = Some b \<Longrightarrow> \<exists>d. g x = Some d \<and> P b d"
  shows "\<exists>ds. list_all2 (\<lambda>x d. g x = Some d) xs ds \<and> list_all2 P bs ds"
  using assms
proof (induction rule: list_all2_induct)
  case (Cons x xs b bs)
  then obtain d ds where "g x = Some d" "P b d" "list_all2 (\<lambda>x d. g x = Some d) xs ds" "list_all2 P bs ds"
    by (metis list.set_intros(1,2))
  then show ?case by (intro exI [of _ "d # ds"]) simp
qed simp

lemma tagged_members:
  "map (\<lambda>(k, ov). map_option (Pair k) ov) (map (map_prod id h) kvs) =
     map (\<lambda>kv. map_option (Pair (fst kv)) (h (snd kv))) kvs"
  by (auto simp: map_prod_def split: prod.splits)

lemma json_marshal_map:
  "json_marshal (JMap kvs) = map_option (\<lambda>fs. json_object (sort_key fst fs))
     (those (map (\<lambda>(k, ov). map_option (Pair k) ov) (map (map_prod id json_marshal) kvs)))"
  unfolding json_marshal.simps json_object_def by (rule refl)

theorem marshal_reads:
  "json_marshal v = Some b \<Longrightarrow> floats_ok v \<Longrightarrow> \<exists>d. doc_of v = Some d \<and> reads b d"
proof (induction v arbitrary: b)
  case (JInt i)
  then show ?case using reads_number [OF number_itoa [of i]] by simp
next
  case (JFloat l)
  then show ?case using reads_number by simp
next
  case (JStr s)
  then show ?case using reads_string [of s] by auto
next
  case (JStrs ss)
  have "list_all2 reads (map json_string ss) (map (\<lambda>s. DStr (utf8_fix s)) ss)"
    by (simp add: list_all2_map1 list_all2_map2 list_all2_same reads_string)
  from reads_array [OF this] show ?case using JStrs by (simp add: json_array_def)
next
  case (JList xs)
  then obtain bs where bs: "list_all2 (\<lambda>x b. json_marshal x = Some b) xs bs" "b = json_array bs"
    by (auto simp: those_map_iff json_array_def)
  obtain ds where "list_all2 (\<lambda>x d. doc_of x = Some d) xs ds" "list_all2 reads bs ds"
    using list_all2_read [OF bs(1), of doc_of reads] JList by (auto simp: list_all_iff)
  then show ?case using reads_array bs(2) by (auto simp: those_map_iff [THEN iffD2])
next
  case (JMap kvs)
  let ?tag = "\<lambda>h kv. map_option (Pair (fst kv)) (h (snd kv))"
  obtain fs where fs: "list_all2 (\<lambda>kv f. ?tag json_marshal kv = Some f) kvs fs" "b = json_object (sort_key fst fs)"
    using JMap.prems(1) unfolding json_marshal_map tagged_members by (auto simp: those_map_iff)
  let ?P = "\<lambda>f g. fst f = fst g \<and> reads (snd f) (snd g)"
  have "\<exists>g. ?tag doc_of kv = Some g \<and> ?P f g" if mem: "kv \<in> set kvs" and tag: "?tag json_marshal kv = Some f" for kv f
  proof -
    obtain k v where kv: "kv = (k, v)" by fastforce
    then obtain b' where b': "json_marshal v = Some b'" "f = (k, b')" using tag by auto
    have "floats_ok v" using JMap.prems(2) mem kv by (auto simp: list_all_iff)
    then obtain d where "doc_of v = Some d" "reads b' d"
      using JMap.IH [of "(k, v)" v b'] mem kv b'(1) by auto
    then show ?thesis using kv b'(2) by simp
  qed
  then obtain gs where gs: "list_all2 (\<lambda>kv g. ?tag doc_of kv = Some g) kvs gs" "list_all2 ?P fs gs"
    using list_all2_read [OF fs(1), of "?tag doc_of" ?P] by blast
  have "list_all2 ?P (sort_key fst fs) (sort_key fst gs)" using gs(2) by (intro list_all2_sort) auto
  then have "list_all2 reads_entry (sort_key fst fs) (map (map_prod utf8_fix id) (sort_key fst gs))"
    by (simp add: list_all2_map2 reads_entry_def list_all2_mono)
  then have "reads b (DObj (map (map_prod utf8_fix id) (sort_key fst gs)))" unfolding fs(2) by (rule reads_object)
  moreover have "doc_of (JMap kvs) = Some (DObj (map (map_prod utf8_fix id) (sort_key fst gs)))"
    unfolding doc_of.simps tagged_members using gs(1) by (simp add: those_map_iff [THEN iffD2])
  ultimately show ?case by blast
next
  case (JOther ov)
  then show ?case by (cases ov) auto
qed (simp_all add: reads_constants)

lemma reads_parse: "reads b d \<Longrightarrow> json_parse b = Some d"
  using readsD [of b d "[]" "2 * length b + 2"] by (simp add: json_parse_def)

lemma marshal_parse:
  "json_marshal v = Some b \<Longrightarrow> floats_ok v \<Longrightarrow> \<exists>d. doc_of v = Some d \<and> json_parse b = Some d"
  using marshal_reads reads_parse by blast

end
