(* ===== verification/Evidence_Sim.thy ===== *)
theory Evidence_Sim
  imports Reconcile
begin

text \<open>
  The engine never looks into evidence: run over a store, it does what it does on the same
  findings without their evidence over an image of the store without evidence. A store whose
  records come back with changed evidence can so be judged by the contract of a record store.
\<close>

definition bare :: "'a finding_scheme \<Rightarrow> 'a finding_scheme" where
  "bare f = f\<lparr>f_evidence := None\<rparr>"

definition bare_result :: "reconcile_result \<Rightarrow> reconcile_result" where
  "bare_result res = \<lparr>rr_newly_open = map bare (rr_newly_open res),
     rr_resolved = map bare (rr_resolved res), rr_rejected = map (map_prod bare id) (rr_rejected res)\<rparr>"

lemma bare_simps [simp]:
  "f_fingerprint (bare f) = f_fingerprint f" "f_target (bare f) = f_target f" "f_check (bare f) = f_check f"
  "f_title (bare f) = f_title f" "f_severity (bare f) = f_severity f" "f_remediation (bare f) = f_remediation f"
  "f_evidence (bare f) = None" "f_id (bare f) = f_id f" "f_module (bare f) = f_module f"
  "f_status (bare f) = f_status f" "f_group (bare f) = f_group f" "f_first_seen (bare f) = f_first_seen f"
  "f_last_seen (bare f) = f_last_seen f" "f_resolved_at (bare f) = f_resolved_at f"
  by (simp_all add: bare_def)

lemma bare_streak [simp]: "r_absent_streak (bare r) = r_absent_streak r"
  by (simp add: bare_def)

lemma bare_records:
  "capEvidence (bare f) = bare (capEvidence f)"
  "new_record mid now i (bare f) = bare (new_record mid now i f)"
  "merged_record now (bare f) (bare r) = bare (merged_record now f r)"
  "age_record k now (bare r) = bare (age_record k now r)"
  "to_finding (bare r) = bare (to_finding r)"
  by (simp_all add: capEvidence_def bare_def new_record_def merged_record_def age_record_def Let_def
      to_record_def to_finding_def finding.defs split: option.split)

lemma bare_new_evidence: "f_evidence (new_record mid now i f) = f_evidence f"
  "f_evidence (merged_record now f r) = f_evidence f" "f_evidence (age_record k now r) = f_evidence r"
  by (simp_all add: new_record_def merged_record_def age_record_def Let_def)

lemma ValidateForIngest_bare [simp]: "ValidateForIngest (bare f) = ValidateForIngest f"
  by (simp add: ValidateForIngest_def)

lemma by_fingerprint_bare: "by_fingerprint (map bare rs) fp = map_option bare (by_fingerprint rs fp)"
proof -
  have "map (\<lambda>r. (f_fingerprint r, r)) (rev (map bare rs)) =
      map (\<lambda>(k, r). (k, bare r)) (map (\<lambda>r. (f_fingerprint r, r)) (rev rs))"
    by (simp add: rev_map)
  then show ?thesis by (simp only: by_fingerprint_def map_of_map comp_apply)
qed

locale store_image =
  fixes ops :: "'s store_ops" and ops' :: "'t store_ops" and image :: "'s \<Rightarrow> 't" and fine :: "evidence \<Rightarrow> bool"
  assumes image_list: "op_list_by_target ops' (image s) m t = map_sum id (map bare) (op_list_by_target ops s m t)"
    and list_fine: "op_list_by_target ops s m t = Inr rs \<Longrightarrow> r \<in> set rs \<Longrightarrow> fine (f_evidence r)"
    and image_upsert: "fine (f_evidence r) \<Longrightarrow>
      op_upsert ops' (image s) (bare r) = map_sum id image (op_upsert ops s r)"
    and cap_fine: "fine (f_evidence (capEvidence f))"
begin

definition image_state :: "'s rstate \<Rightarrow> 't rstate" where
  "image_state st = \<lparr>rs_store = image (rs_store st), rs_seen = rs_seen st, rs_res = bare_result (rs_res st),
     rs_ids = rs_ids st\<rparr>"

lemma image_ingest_step:
  "ingest_step ops' newID now mid (\<lambda>fp. map_option bare (byFP fp)) (bare f) (image_state st) =
     map_prod image_state id (ingest_step ops newID now mid byFP f st)"
proof (cases "ValidateForIngest f")
  case (Some e)
  then show ?thesis by (simp add: ingest_step_def image_state_def bare_result_def)
next
  case None
  show ?thesis
  proof (cases "byFP (f_fingerprint f)")
    case new: None
    show ?thesis
    proof (cases "newID now (rs_ids st)")
      case i: (Some i)
      have "fine (f_evidence (new_record mid now i (capEvidence f)))"
        using cap_fine by (simp add: bare_new_evidence)
      from image_upsert [OF this] show ?thesis using None new i
        by (cases "op_upsert ops (rs_store st) (new_record mid now i (capEvidence f))")
          (simp_all add: ingest_step_def image_state_def bare_result_def bare_records Let_def)
    qed (use None new in \<open>simp add: ingest_step_def image_state_def bare_result_def bare_records\<close>)
  next
    case (Some r)
    have "fine (f_evidence (merged_record now (capEvidence f) r))"
      using cap_fine by (simp add: bare_new_evidence)
    from image_upsert [OF this] show ?thesis using None Some
      by (cases "op_upsert ops (rs_store st) (merged_record now (capEvidence f) r)")
        (simp_all add: ingest_step_def image_state_def bare_result_def bare_records Let_def)
  qed
qed

lemma image_ingest_loop:
  "ingest_loop ops' newID now mid (\<lambda>fp. map_option bare (byFP fp)) (map bare fs) (image_state st) =
     map_prod image_state id (ingest_loop ops newID now mid byFP fs st)"
  by (induction fs arbitrary: st) (auto simp: image_ingest_step split: prod.split option.split)

lemma image_resolve_step:
  assumes "fine (f_evidence r)"
  shows "resolve_step ops' now k (bare r) (image_state st) =
    map_prod image_state id (resolve_step ops now k r st)"
proof -
  have "fine (f_evidence (age_record k now r))" using assms by (simp add: bare_new_evidence)
  from image_upsert [OF this, of "rs_store st"] show ?thesis
    by (cases "op_upsert ops (rs_store st) (age_record k now r)")
      (simp_all add: resolve_step_def image_state_def bare_result_def bare_records Let_def)
qed

lemma image_resolve_loop:
  "\<forall>r \<in> set rs. fine (f_evidence r) \<Longrightarrow> resolve_loop ops' now k (map bare rs) (image_state st) =
     map_prod image_state id (resolve_loop ops now k rs st)"
  by (induction rs arbitrary: st) (auto simp: image_resolve_step split: prod.split option.split)

theorem image_Reconcile:
  assumes "Reconcile ops newID now mi t fresh s = (s', res, err)"
  shows "Reconcile ops' newID now mi t (map bare fresh) (image s) = (image s', bare_result res, err)"
proof (cases "op_list_by_target ops s (mi_id mi) t")
  case (Inl e)
  then show ?thesis using assms
    by (auto simp: Reconcile_def image_list bare_result_def empty_result_def)
next
  case (Inr rs)
  let ?st = "\<lparr>rs_store = s, rs_seen = [], rs_res = empty_result, rs_ids = 0\<rparr>"
  have st: "\<lparr>rs_store = image s, rs_seen = [], rs_res = empty_result, rs_ids = 0\<rparr> = image_state ?st"
    by (simp add: image_state_def bare_result_def empty_result_def)
  have byFP: "by_fingerprint (map bare rs) = (\<lambda>fp. map_option bare (by_fingerprint rs fp))"
    using by_fingerprint_bare by blast
  obtain st1 err1 where ing: "ingest_loop ops newID now (mi_id mi) (by_fingerprint rs) fresh ?st = (st1, err1)"
    by fastforce
  have ing': "ingest_loop ops' newID now (mi_id mi) (by_fingerprint (map bare rs)) (map bare fresh) (image_state ?st) =
      (image_state st1, err1)"
    unfolding byFP image_ingest_loop ing by simp
  show ?thesis
  proof (cases err1)
    case None
    have "resolve_loop ops' now (ResolveAfterOrDefault mi) (map bare rs) (image_state st1) =
        map_prod image_state id (resolve_loop ops now (ResolveAfterOrDefault mi) rs st1)"
      using list_fine [OF Inr] by (intro image_resolve_loop) blast
    then show ?thesis using assms Inr ing ing' None
      by (auto simp: Reconcile_def image_list st image_state_def split: prod.splits)
  next
    case (Some e)
    then show ?thesis using assms Inr ing ing'
      by (auto simp: Reconcile_def image_list st image_state_def)
  qed
qed

end

end
