(* ===== verification/Lifecycle.thy ===== *)
theory Lifecycle
  imports Reconcile
begin

text \<open>
  The contract of the reconcile engine: each fingerprint of a module and target goes through
  a small life cycle driven only by whether a scan reports it. The engine of
  \<open>store/reconcile.go\<close>, run on the in-memory store, refines that machine, scan by scan and
  over any sequence of scans; the properties on resolving, reopening, suppressing and
  announcing findings follow from it.
\<close>

section \<open>The abstract life cycle of a fingerprint\<close>

datatype phase = Absent | Present finding_status int

definition phase_of :: "store_rec option \<Rightarrow> phase" where
  "phase_of old = (case old of None \<Rightarrow> Absent | Some r \<Rightarrow> Present (f_status r) (r_absent_streak r))"

fun lifecycle_step :: "int \<Rightarrow> bool \<Rightarrow> phase \<Rightarrow> phase" where
  "lifecycle_step k seen Absent = (if seen then Present StatusOpen 0 else Absent)"
| "lifecycle_step k seen (Present st n) =
     (if seen then Present (if st = StatusResolved then StatusOpen else st) 0
      else if st = StatusResolved \<or> st = StatusSuppressed then Present st n
      else if k \<le> n + 1 then Present StatusResolved (n + 1)
      else Present st (n + 1))"

definition lifecycle_run :: "int \<Rightarrow> bool list \<Rightarrow> phase \<Rightarrow> phase" where
  "lifecycle_run k seens ph = foldl (\<lambda>ph seen. lifecycle_step k seen ph) ph seens"

lemma lifecycle_run_simps [simp]:
  "lifecycle_run k [] ph = ph"
  "lifecycle_run k (b # bs) ph = lifecycle_run k bs (lifecycle_step k b ph)"
  by (simp_all add: lifecycle_run_def)

lemma lifecycle_resolved_stays:
  "True \<notin> set bs \<Longrightarrow> st = StatusResolved \<or> st = StatusSuppressed \<Longrightarrow>
     lifecycle_run k bs (Present st n) = Present st n"
  by (induction bs) auto

lemma lifecycle_absences:
  assumes "True \<notin> set bs" "st \<noteq> StatusResolved" "st \<noteq> StatusSuppressed" "n < k"
  shows "lifecycle_run k bs (Present st n) =
    (if k \<le> n + int (length bs) then Present StatusResolved k
     else Present st (n + int (length bs)))"
  using assms
proof (induction bs arbitrary: n)
  case Nil
  then show ?case by simp
next
  case (Cons b bs)
  show ?case
  proof (cases "k \<le> n + 1")
    case True
    then have "k = n + 1" using Cons.prems(4) by simp
    moreover have "True \<notin> set bs" using Cons.prems(1) by simp
    note lifecycle_resolved_stays [OF this, of StatusResolved k k]
    ultimately show ?thesis using Cons.prems(1-3) by simp
  next
    case False
    then show ?thesis using Cons.prems Cons.IH [of "n + 1"] by (simp add: algebra_simps)
  qed
qed

lemma lifecycle_suppressed:
  "\<exists>n'. lifecycle_run k bs (Present StatusSuppressed n) = Present StatusSuppressed n'"
  by (induction bs arbitrary: n) auto

lemma phase_of_Present: "phase_of x = Present st n \<longleftrightarrow> (\<exists>r. x = Some r \<and> f_status r = st \<and> r_absent_streak r = n)"
  by (auto simp: phase_of_def split: option.splits)

lemma phase_of_Absent [simp]: "phase_of x = Absent \<longleftrightarrow> x = None"
  by (auto simp: phase_of_def split: option.splits)

lemma scan_effect_lifecycle:
  assumes "scan_effect mi now t fresh fp old new" "\<And>r. old = Some r \<Longrightarrow> f_target r = t"
  shows "phase_of new =
    lifecycle_step (ResolveAfterOrDefault mi) (reported fresh fp \<noteq> None) (phase_of old)"
proof (cases old)
  case None
  then show ?thesis using assms(1)
    by (auto simp: scan_effect_def ingested_def phase_of_def split: option.splits)
next
  case (Some r)
  then show ?thesis using assms
    by (auto simp: scan_effect_def ingested_def phase_of_def aged_def ages_def split: option.splits)
qed

section \<open>Scans over the in-memory store\<close>

text \<open>
  What a scan is expected to bring: valid findings with distinct fingerprints, about the
  scanned target, none of which collides with a record of another target.
\<close>

definition scannable :: "module_info \<Rightarrow> string \<Rightarrow> mem_store \<Rightarrow> finding list \<Rightarrow> bool" where
  "scannable mi t s fresh \<longleftrightarrow>
     distinct (map f_fingerprint (valid_fresh fresh)) \<and>
     list_all (\<lambda>f. f_target f = t \<and>
        (case mem_Get s (mi_id mi) (f_fingerprint f) of None \<Rightarrow> True | Some r \<Rightarrow> f_target r = t))
       (valid_fresh fresh)"

lemma scannable_D:
  assumes "scannable mi t s fresh"
  shows "distinct (map f_fingerprint (valid_fresh fresh))"
    and "f \<in> set (valid_fresh fresh) \<Longrightarrow> f_target f = t"
    and "f \<in> set (valid_fresh fresh) \<Longrightarrow> mem_Get s (mi_id mi) (f_fingerprint f) = Some r \<Longrightarrow> f_target r = t"
  using assms by (auto simp: scannable_def list_all_iff split: option.splits)

lemma scannable_effect:
  assumes "Reconcile mem_ops newID now mi t fresh s = (s', res, None)"
    "mem_inv s" "ok_module (mi_id mi)" "scannable mi t s fresh"
  shows "mem_inv s'"
    and "scan_effect mi now t fresh fp (mem_Get s (mi_id mi) fp) (mem_Get s' (mi_id mi) fp)"
    and "ok_module m \<Longrightarrow> m \<noteq> mi_id mi \<Longrightarrow> mem_Get s' m fp = mem_Get s m fp"
    and "rr_newly_open res = announced (mem_Get s (mi_id mi)) (mem_Get s' (mi_id mi)) fresh"
    and "rr_rejected res = rejections fresh"
    and "set (rr_resolved res) =
      {to_finding (age_record (ResolveAfterOrDefault mi) now r) | r.
         mem_Get s (mi_id mi) (f_fingerprint r) = Some r \<and> expires mi t fresh r}"
  using mem.Reconcile_effect [OF assms(1-3) scannable_D(1) [OF assms(4)]] scannable_D(3) [OF assms(4)]
  by blast+

text \<open>The target of a record never changes, and a new record is about the scanned target.\<close>

lemma scan_effect_target:
  assumes "scan_effect mi now t fresh fp old new" "new = Some r'"
    "\<And>f. f \<in> set (valid_fresh fresh) \<Longrightarrow> f_target f = t"
  shows "f_target r' = (case old of None \<Rightarrow> t | Some r \<Rightarrow> f_target r)"
  using assms reported_SomeD [of fresh fp]
  by (auto simp: scan_effect_def ingested_def split: option.splits if_splits)

text \<open>A sequence of scans, each with its instant and its findings.\<close>

primrec run_scans ::
  "id_gen \<Rightarrow> module_info \<Rightarrow> string \<Rightarrow> (time \<times> finding list) list \<Rightarrow> mem_store \<Rightarrow> mem_store" where
  "run_scans newID mi t [] s = s"
| "run_scans newID mi t (scan # scans) s =
     run_scans newID mi t scans (fst (Reconcile mem_ops newID (fst scan) mi t (snd scan) s))"

text \<open>A scan neither moves a record to another target nor makes a later scan collide.\<close>

lemma scan_keeps:
  assumes "Reconcile mem_ops newID now mi t fresh s = (s', res, None)"
    "mem_inv s" "ok_module (mi_id mi)" "scannable mi t s fresh"
  shows "mem_inv s'"
    and "mem_Get s' (mi_id mi) fp = Some r' \<Longrightarrow>
      (\<And>r. mem_Get s (mi_id mi) fp = Some r \<Longrightarrow> f_target r = t) \<Longrightarrow> f_target r' = t"
    and "scannable mi t s other \<Longrightarrow> scannable mi t s' other"
proof -
  note eff = scannable_effect [OF assms]
  have own: "f_target r' = t"
    if "mem_Get s' (mi_id mi) fp = Some r'"
      "\<And>r. mem_Get s (mi_id mi) fp = Some r \<Longrightarrow> f_target r = t" for fp r'
    using scan_effect_target [OF eff(2) that(1) scannable_D(2) [OF assms(4)]] that(2)
    by (auto split: option.splits)
  show "mem_inv s'" by (rule eff(1))
  show "mem_Get s' (mi_id mi) fp = Some r' \<Longrightarrow>
      (\<And>r. mem_Get s (mi_id mi) fp = Some r \<Longrightarrow> f_target r = t) \<Longrightarrow> f_target r' = t"
    by (rule own)
  show "scannable mi t s' other" if "scannable mi t s other"
    using scannable_D [OF that] own by (auto simp: scannable_def list_all_iff split: option.split)
qed

lemma run_scans_keeps:
  assumes "\<And>t n. newID t n \<noteq> None" "ok_module (mi_id mi)" "mem_inv s"
    "\<And>scan. scan \<in> set scans \<Longrightarrow> scannable mi t s (snd scan)"
  shows "mem_inv (run_scans newID mi t scans s) \<and>
    (scannable mi t s other \<longrightarrow> scannable mi t (run_scans newID mi t scans s) other)"
  using assms(3,4)
proof (induction scans arbitrary: s)
  case Nil
  then show ?case by simp
next
  case (Cons scan scans)
  obtain s' res where run: "Reconcile mem_ops newID (fst scan) mi t (snd scan) s = (s', res, None)"
    using mem.Reconcile_total [of newID, OF assms(1)] by blast
  have now: "scannable mi t s (snd scan)" using Cons.prems(2) by simp
  note keeps = scan_keeps [OF run Cons.prems(1) assms(2) now]
  have "scannable mi t s' (snd sc)" if "sc \<in> set scans" for sc
    using keeps(3) Cons.prems(2) that by simp
  then show ?case using Cons.IH [OF keeps(1)] keeps(3) run by simp
qed

lemma run_scans_lifecycle:
  assumes ids: "\<And>t n. newID t n \<noteq> None" and ok: "ok_module (mi_id mi)"
    and "mem_inv s" "\<And>scan. scan \<in> set scans \<Longrightarrow> scannable mi t s (snd scan)"
    "\<And>r. mem_Get s (mi_id mi) fp = Some r \<Longrightarrow> f_target r = t"
  shows "phase_of (mem_Get (run_scans newID mi t scans s) (mi_id mi) fp) =
    lifecycle_run (ResolveAfterOrDefault mi) (map (\<lambda>scan. reported (snd scan) fp \<noteq> None) scans)
      (phase_of (mem_Get s (mi_id mi) fp))"
  using assms(3-5)
proof (induction scans arbitrary: s)
  case Nil
  then show ?case by simp
next
  case (Cons scan scans)
  obtain s' res where run: "Reconcile mem_ops newID (fst scan) mi t (snd scan) s = (s', res, None)"
    using mem.Reconcile_total [of newID, OF ids] by blast
  have now: "scannable mi t s (snd scan)" using Cons.prems(2) by simp
  note keeps = scan_keeps [OF run Cons.prems(1) ok now]
  have later: "scannable mi t s' (snd sc)" if "sc \<in> set scans" for sc
    using keeps(3) Cons.prems(2) that by simp
  have "phase_of (mem_Get s' (mi_id mi) fp) =
      lifecycle_step (ResolveAfterOrDefault mi) (reported (snd scan) fp \<noteq> None)
        (phase_of (mem_Get s (mi_id mi) fp))"
    by (rule scan_effect_lifecycle [OF scannable_effect(2) [OF run Cons.prems(1) ok now] Cons.prems(3)])
  then show ?case using Cons.IH [OF keeps(1) later keeps(2)] Cons.prems(3) run by simp
qed

text \<open>A suppressed record stays suppressed, and the scan announces it neither way.\<close>

lemma suppressed_effect:
  assumes "Reconcile mem_ops newID now mi t fresh s = (s', res, None)"
    and "mem_inv s" "ok_module (mi_id mi)" "scannable mi t s fresh"
    and "mem_Get s (mi_id mi) fp = Some r" "f_status r = StatusSuppressed"
  shows "map_option f_status (mem_Get s' (mi_id mi) fp) = Some StatusSuppressed \<and>
    fp \<notin> f_fingerprint ` set (rr_newly_open res) \<and> fp \<notin> f_fingerprint ` set (rr_resolved res)"
proof -
  note eff = scannable_effect [OF assms(1-4)]
  have new: "map_option f_status (mem_Get s' (mi_id mi) fp) = Some StatusSuppressed"
    using eff(2) [of fp] assms(5,6)
    by (auto simp: scan_effect_def ingested_def aged_def ages_def split: option.splits)
  have fps: "f_fingerprint (to_finding (the (mem_Get s' (mi_id mi) (f_fingerprint f)))) = f_fingerprint f"
    if f: "f \<in> set (valid_fresh fresh)" for f
  proof -
    obtain g where g: "reported fresh (f_fingerprint f) = Some g"
      using f by (fastforce simp: reported_None_iff)
    then have "\<exists>r'. mem_Get s' (mi_id mi) (f_fingerprint f) = Some r'"
      using eff(2) [of "f_fingerprint f"] ingested_Some by (fastforce simp: scan_effect_def)
    then show ?thesis using mem_Get_Some [OF eff(1) assms(3)] by auto
  qed
  have "fp \<notin> f_fingerprint ` set (rr_newly_open res)"
    using fps assms(5,6) by (auto simp: eff(4) announced_def announces_def)
  moreover have "fp \<notin> f_fingerprint ` set (rr_resolved res)"
    using assms(5,6) by (auto simp: eff(6) expires_def ages_def)
  ultimately show ?thesis using new by simp
qed

end
