(* ===== verification/Reconcile_Props.thy ===== *)
theory Reconcile_Props
  imports Lifecycle
begin

text \<open>
  The properties of the reconcile engine (\<open>store/reconcile.go\<close>) on the in-memory store
  (\<open>store/memory.go\<close>), with the inputs that show their hypotheses can hold.
\<close>

section \<open>Sample inputs\<close>

definition sample_mod :: module_info where
  "sample_mod = \<lparr>mi_id = ''m'', mi_name = ''n'', mi_version = ''1'', mi_target_kind = ''tenant'',
     mi_default_interval = 0, mi_resolve_after = 2\<rparr>"

definition sample_ids :: id_gen where
  "sample_ids now n = Some ''i''"

definition sample_f :: finding where
  "sample_f = (collected ''fp'' ''t'' ''c'' ''title'' SeverityHigh ''fix'' [])"

definition sample_store :: "finding_status \<Rightarrow> int \<Rightarrow> mem_store" where
  "sample_store st n = \<lparr>ms_recs = [(store_key ''m'' ''fp'',
     (new_record ''m'' 5 ''i'' sample_f)\<lparr>f_status := st, r_absent_streak := n\<rparr>)], ms_targets = None\<rparr>"

lemma sample_simps [simp]:
  "mi_id sample_mod = ''m''" "ResolveAfterOrDefault sample_mod = 2" "ok_module ''m''"
  "ValidateForIngest sample_f = None" "f_fingerprint sample_f = ''fp''" "f_target sample_f = ''t''"
  "valid_fresh [sample_f] = [sample_f]" "reported [sample_f] ''fp'' = Some sample_f"
  "sample_ids now n \<noteq> None"
  by (simp_all add: sample_mod_def ResolveAfterOrDefault_def ok_module_def sample_f_def
      ValidateForIngest_def sev_valid_iff valid_fresh_def reported_def sample_ids_def)

lemma sample_store_simps [simp]:
  "mem_inv (sample_store st n)"
  "mem_Get (sample_store st n) ''m'' ''fp'' =
     Some ((new_record ''m'' 5 ''i'' sample_f)\<lparr>f_status := st, r_absent_streak := n\<rparr>)"
  by (simp_all add: sample_store_def mem_inv_def mem_Get_def)

lemma sample_scannable [simp]:
  "scannable sample_mod ''t'' (sample_store st n) [sample_f]"
  "scannable sample_mod ''t'' (sample_store st n) []"
  "scannable sample_mod ''t'' NewMemStore [sample_f]"
  "scannable sample_mod ''t'' NewMemStore []"
  by (simp_all add: scannable_def)

text \<open>A scan of the sample store returns.\<close>

lemma sample_run:
  "Reconcile mem_ops sample_ids now mi t fresh s =
     (fst (Reconcile mem_ops sample_ids now mi t fresh s),
      fst (snd (Reconcile mem_ops sample_ids now mi t fresh s)), None)"
  using mem.Reconcile_total [of sample_ids now mi t fresh s] by (auto simp: sample_ids_def)

section \<open>Refinement of the life cycle\<close>

text \<open>
  One run of the engine moves every fingerprint of the scanned target exactly as the
  abstract life cycle does: reported ones open, reopen or are refreshed, unreported ones age
  and resolve at the threshold of the module.
\<close>

theorem scan_refines_lifecycle:
  assumes "Reconcile mem_ops newID now mi t fresh s = (s', res, None)"
    and "mem_inv s" "ok_module (mi_id mi)" "scannable mi t s fresh"
    and "\<forall>r. mem_Get s (mi_id mi) fp = Some r \<longrightarrow> f_target r = t"
  shows "phase_of (mem_Get s' (mi_id mi) fp) =
    lifecycle_step (ResolveAfterOrDefault mi) (reported fresh fp \<noteq> None)
      (phase_of (mem_Get s (mi_id mi) fp))"
  by (rule scan_effect_lifecycle [OF scannable_effect(2) [OF assms(1-4)]]) (use assms(5) in blast)

theorem scan_refines_lifecycle_witness:
  "phase_of (mem_Get (fst (Reconcile mem_ops sample_ids 9 sample_mod ''t'' [] (sample_store StatusOpen 1)))
     ''m'' ''fp'') = Present StatusResolved 2"
  using scan_refines_lifecycle [OF sample_run, of "sample_store StatusOpen 1" sample_mod "''t''" "[]" "''fp''" 9]
  by (simp add: phase_of_def)



text \<open>
  C16. A finding that was reported and is then absent for a row of scans is still open after
  fewer absences than the module's threshold, and resolved from the threshold on; whatever
  the store held before (unless the user suppressed or acknowledged it).
\<close>

theorem resolves_after_absences:
  assumes "\<forall>t n. newID t n \<noteq> None" "mem_inv s" "ok_module (mi_id mi)"
    and "\<forall>sc \<in> set (scan # absences). scannable mi t s (snd sc)"
    and "\<forall>r. mem_Get s (mi_id mi) fp = Some r \<longrightarrow> f_target r = t \<and>
           f_status r \<in> {StatusOpen, StatusResolved}"
    and "reported (snd scan) fp \<noteq> None" "\<forall>sc \<in> set absences. reported (snd sc) fp = None"
  shows "map_option f_status (mem_Get (run_scans newID mi t (scan # absences) s) (mi_id mi) fp) =
    Some (if ResolveAfterOrDefault mi \<le> int (length absences) then StatusResolved else StatusOpen)"
proof -
  let ?k = "ResolveAfterOrDefault mi"
  have none: "map (\<lambda>sc. reported (snd sc) fp \<noteq> None) absences = replicate (length absences) False"
    using assms(7) by (simp add: map_replicate_const [symmetric] cong: map_cong)
  have "lifecycle_step ?k True (phase_of (mem_Get s (mi_id mi) fp)) = Present StatusOpen 0"
    using assms(5) by (auto simp: phase_of_def split: option.splits)
  moreover have "phase_of (mem_Get (run_scans newID mi t (scan # absences) s) (mi_id mi) fp) =
    lifecycle_run ?k (map (\<lambda>sc. reported (snd sc) fp \<noteq> None) (scan # absences))
      (phase_of (mem_Get s (mi_id mi) fp))"
    by (rule run_scans_lifecycle) (use assms in auto)
  ultimately have "phase_of (mem_Get (run_scans newID mi t (scan # absences) s) (mi_id mi) fp) =
      lifecycle_run ?k (replicate (length absences) False) (Present StatusOpen 0)"
    using none assms(6) by simp
  also have "\<dots> = (if ?k \<le> int (length absences) then Present StatusResolved ?k
      else Present StatusOpen (int (length absences)))"
    using lifecycle_absences [of "replicate (length absences) False" StatusOpen 0 ?k]
      ResolveAfterOrDefault_pos [of mi] by simp
  finally show ?thesis by (auto simp: phase_of_Present split: if_splits)
qed

theorem resolves_after_absences_witness:
  "map_option f_status (mem_Get (run_scans sample_ids sample_mod ''t'' [(1, [sample_f]), (2, []), (3, [])]
     NewMemStore) ''m'' ''fp'') = Some StatusResolved"
  using resolves_after_absences [of sample_ids NewMemStore sample_mod "(1, [sample_f])"
      "[(2, []), (3, [])]" "''t''" "''fp''"]
  by (simp del: run_scans.simps)

section \<open>What a scan announces\<close>

text \<open>
  C15. A scan announces exactly the reported findings that are new or had been resolved,
  each once, as open and with the stored contents; and as resolved exactly the records of
  the target that were not reported and reach the threshold.
\<close>

theorem announces_exactly:
  assumes "Reconcile mem_ops newID now mi t fresh s = (s', res, None)"
    and "mem_inv s" "ok_module (mi_id mi)" "scannable mi t s fresh"
  shows "map f_fingerprint (rr_newly_open res) =
      map f_fingerprint (filter (\<lambda>f. case mem_Get s (mi_id mi) (f_fingerprint f) of
        None \<Rightarrow> True | Some r \<Rightarrow> f_status r = StatusResolved) (valid_fresh fresh)) \<and>
    list_all (\<lambda>f. f_status f = StatusOpen \<and>
      map_option to_finding (mem_Get s' (mi_id mi) (f_fingerprint f)) = Some f) (rr_newly_open res) \<and>
    f_fingerprint ` set (rr_resolved res) =
      {f_fingerprint r | r. mem_Get s (mi_id mi) (f_fingerprint r) = Some r \<and> f_target r = t \<and>
         reported fresh (f_fingerprint r) = None \<and> f_status r \<notin> {StatusResolved, StatusSuppressed} \<and>
         ResolveAfterOrDefault mi \<le> r_absent_streak r + 1}"
proof -
  note eff = scannable_effect [OF assms]
  have entry: "\<exists>r. mem_Get s' (mi_id mi) (f_fingerprint f) = Some r \<and> f_fingerprint r = f_fingerprint f \<and>
      (announces (mem_Get s (mi_id mi) (f_fingerprint f)) \<longrightarrow> f_status r = StatusOpen)"
    if f: "f \<in> set (valid_fresh fresh)" for f
  proof -
    obtain g where g: "reported fresh (f_fingerprint f) = Some g"
      using f by (fastforce simp: reported_None_iff)
    then show ?thesis
      using eff(2) [of "f_fingerprint f"] reported_SomeD [OF g] mem_Get_Some [OF assms(2,3)]
      by (auto simp: scan_effect_def ingested_def announces_def split: option.splits)
  qed
  have "map f_fingerprint (rr_newly_open res) = map f_fingerprint
      (filter (\<lambda>f. announces (mem_Get s (mi_id mi) (f_fingerprint f))) (valid_fresh fresh))"
    using entry by (force simp: eff(4) announced_def)
  moreover have "list_all (\<lambda>f. f_status f = StatusOpen \<and>
      map_option to_finding (mem_Get s' (mi_id mi) (f_fingerprint f)) = Some f) (rr_newly_open res)"
    using entry by (force simp: eff(4) announced_def list_all_iff)
  moreover have "f_fingerprint ` set (rr_resolved res) =
      {f_fingerprint r | r. mem_Get s (mi_id mi) (f_fingerprint r) = Some r \<and> expires mi t fresh r}"
    by (force simp: eff(6))
  ultimately show ?thesis by (auto simp: announces_def expires_def ages_def)
qed

theorem announces_exactly_witness:
  "map f_fingerprint (rr_newly_open (fst (snd (Reconcile mem_ops sample_ids 9 sample_mod ''t'' [sample_f]
     (sample_store StatusResolved 2))))) = [''fp'']"
  using announces_exactly [OF sample_run, of "sample_store StatusResolved 2" sample_mod "''t''" "[sample_f]" 9]
  by simp

text \<open>
  A suppressed finding is left to the user: whatever a scan brings, it stays suppressed
  and the scan announces it neither as open nor as resolved.
\<close>

theorem suppressed_stays_silent:
  assumes "Reconcile mem_ops newID now mi t fresh s = (s', res, None)"
    and "mem_inv s" "ok_module (mi_id mi)" "scannable mi t s fresh"
    and "mem_Get s (mi_id mi) fp = Some r" "f_status r = StatusSuppressed"
  shows "map_option f_status (mem_Get s' (mi_id mi) fp) = Some StatusSuppressed \<and>
    fp \<notin> f_fingerprint ` set (rr_newly_open res) \<and> fp \<notin> f_fingerprint ` set (rr_resolved res)"
  using assms by (rule suppressed_effect)

theorem suppressed_stays_silent_witness:
  "map_option f_status (mem_Get (fst (Reconcile mem_ops sample_ids 9 sample_mod ''t'' []
     (sample_store StatusSuppressed 7))) ''m'' ''fp'') = Some StatusSuppressed"
  using suppressed_stays_silent [OF sample_run, of "sample_store StatusSuppressed 7" sample_mod "''t''" "[]"
      "''fp''" "(new_record ''m'' 5 ''i'' sample_f)\<lparr>f_status := StatusSuppressed, r_absent_streak := 7\<rparr>" 9]
  by simp

section \<open>Contents, rejections and evidence\<close>

text \<open>
  Re-reporting a finding that is not resolved refreshes what the collector owns (title,
  severity, remediation, evidence within its bound) and the last-seen instant, clears the
  absence count, and keeps the id, the first-seen instant and the status the user gave it.
\<close>

theorem refresh_keeps_user_state:
  assumes "Reconcile mem_ops newID now mi t fresh s = (s', res, None)"
    and "mem_inv s" "ok_module (mi_id mi)" "scannable mi t s fresh"
    and "mem_Get s (mi_id mi) fp = Some r" "f_status r \<noteq> StatusResolved"
    and "reported fresh fp = Some f"
  shows "\<exists>r'. mem_Get s' (mi_id mi) fp = Some r' \<and>
    f_id r' = f_id r \<and> f_first_seen r' = f_first_seen r \<and> f_status r' = f_status r \<and>
    f_title r' = f_title f \<and> f_severity r' = f_severity f \<and> f_remediation r' = f_remediation f \<and>
    f_evidence r' = f_evidence (capEvidence f) \<and> f_last_seen r' = now \<and> r_absent_streak r' = 0"
proof -
  have "mem_Get s' (mi_id mi) fp = Some (merged_record now (capEvidence f) r)"
    using scannable_effect(2) [OF assms(1-4), of fp] assms(5,7) by (simp add: scan_effect_def ingested_def)
  then show ?thesis using assms(6) by (simp add: merged_record_def Let_def)
qed

theorem refresh_keeps_user_state_witness:
  "\<exists>r'. mem_Get (fst (Reconcile mem_ops sample_ids 9 sample_mod ''t'' [sample_f]
      (sample_store StatusAcknowledged 1))) ''m'' ''fp'' = Some r' \<and>
    f_status r' = StatusAcknowledged \<and> f_first_seen r' = 5 \<and> f_last_seen r' = 9"
  using refresh_keeps_user_state [OF sample_run, of "sample_store StatusAcknowledged 1" sample_mod "''t''"
      "[sample_f]" "''fp''"
      "(new_record ''m'' 5 ''i'' sample_f)\<lparr>f_status := StatusAcknowledged, r_absent_streak := 1\<rparr>" sample_f 9]
  by auto

text \<open>
  On the in-memory store a scan never fails as long as ids can be made, and it rejects
  exactly the malformed findings, each with the first contract field it violates.
\<close>

theorem scan_total_and_rejects:
  assumes "\<forall>t n. newID t n \<noteq> None"
  shows "\<exists>s' res. Reconcile mem_ops newID now mi t fresh s = (s', res, None) \<and>
    rr_rejected res = rejections fresh"
proof -
  obtain s' res where "Reconcile mem_ops newID now mi t fresh s = (s', res, None)"
    using mem.Reconcile_total [of newID now mi t fresh s] assms by blast
  then show ?thesis using Reconcile_rejected [of mem_ops] by blast
qed

theorem scan_total_and_rejects_witness:
  "\<exists>s' res. Reconcile mem_ops sample_ids 9 sample_mod ''t'' [sample_f\<lparr>f_title := []\<rparr>] NewMemStore =
      (s', res, None) \<and> rr_rejected res = [(sample_f\<lparr>f_title := []\<rparr>, IngestError ''title'' ''empty'')]"
  using scan_total_and_rejects [of sample_ids 9 sample_mod "''t''" "[sample_f\<lparr>f_title := []\<rparr>]" NewMemStore]
  by (simp add: rejections_Cons ValidateForIngest_def sample_f_def collected_def)

lemma length_nat_str: "n < 10 ^ k \<Longrightarrow> 0 < k \<Longrightarrow> length (nat_str n) \<le> k"
proof (induction k arbitrary: n)
  case 0
  then show ?case by simp
next
  case (Suc k)
  show ?case
  proof (cases "n < 10")
    case True
    then show ?thesis by (subst nat_str.simps) simp
  next
    case False
    then have "n div 10 < 10 ^ k" "0 < k" using Suc.prems by (auto simp: less_mult_imp_div_less mult.commute intro!: gr0I)
    then show ?thesis using Suc.IH [of "n div 10"] False by (subst nat_str.simps) simp
  qed
qed

text \<open>The two markers, serialised.\<close>

lemma marker_lengths:
  "length (json_string ''_error'') = 8"
  "length (json_string ''evidence not serialisable; dropped'') = 36"
  "length (json_string ''_truncated'') = 12"
  "length (json_string ''_original_bytes'') = 17"
  "length (json_string ''_note'') = 7"
  "length (json_string ''evidence exceeded MaxEvidenceBytes and was dropped'') = 52"
  by code_simp+

lemma marker_order:
  "''_note'' \<le> ''_original_bytes''" "''_note'' \<le> ''_truncated''"
  "''_original_bytes'' \<le> ''_truncated''"
  "\<not> ''_truncated'' \<le> ''_note''" "\<not> ''_truncated'' \<le> ''_original_bytes''"
  "\<not> ''_original_bytes'' \<le> ''_note''"
  by code_simp+

lemma error_marker_json:
  "json_marshal (JMap [(''_error'', JStr ''evidence not serialisable; dropped'')]) =
     Some (CHR 0x7B # json_string ''_error'' @ '':'' @ json_string ''evidence not serialisable; dropped'' @ [CHR 0x7D])"
  by simp

lemma truncated_marker_json:
  "json_marshal (JMap [(''_truncated'', JBool True), (''_original_bytes'', JInt (int n)),
      (''_note'', JStr ''evidence exceeded MaxEvidenceBytes and was dropped'')]) =
     Some (CHR 0x7B # join [json_string ''_note'' @ '':'' @
            json_string ''evidence exceeded MaxEvidenceBytes and was dropped'',
          json_string ''_original_bytes'' @ '':'' @ nat_str n,
          json_string ''_truncated'' @ '':'' @ ''true''] '','' @ [CHR 0x7D])"
  by (simp add: sort_key_def marker_order itoa_def)

text \<open>
  Whatever evidence a collector attached, the evidence the engine stores serialises, and
  to at most \<open>MaxEvidenceBytes\<close>; the hypothesis is that the size of the original fits an
  \<open>int\<close>.
\<close>

theorem capEvidence_bounded:
  assumes "\<forall>ev b. f_evidence f = Some ev \<longrightarrow> json_marshal (JMap ev) = Some b \<longrightarrow> length b < 2 ^ 63"
  shows "case f_evidence (capEvidence f) of None \<Rightarrow> f_evidence f = None
    | Some ev \<Rightarrow> (\<exists>b. json_marshal (JMap ev) = Some b \<and> length b \<le> MaxEvidenceBytes)"
proof (cases "f_evidence f")
  case None
  then show ?thesis by (simp add: capEvidence_def)
next
  case (Some ev)
  show ?thesis
  proof (cases "json_marshal (JMap ev)")
    case None
    then show ?thesis using Some error_marker_json
      by (simp add: capEvidence_def marker_lengths MaxEvidenceBytes_def del: json_marshal.simps)
  next
    case (Some b)
    have "length b < 10 ^ 20" using assms Some \<open>f_evidence f = Some ev\<close> by fastforce
    then have "length (nat_str (length b)) \<le> 20" by (rule length_nat_str) simp
    then show ?thesis using Some \<open>f_evidence f = Some ev\<close> truncated_marker_json [of "length b"]
      by (simp add: capEvidence_def marker_lengths MaxEvidenceBytes_def del: json_marshal.simps)
  qed
qed

theorem capEvidence_bounded_witness:
  "case f_evidence (capEvidence sample_f) of None \<Rightarrow> False
    | Some ev \<Rightarrow> (\<exists>b. json_marshal (JMap ev) = Some b \<and> length b \<le> MaxEvidenceBytes)"
  using capEvidence_bounded [of sample_f]
  by (simp add: sample_f_def capEvidence_def MaxEvidenceBytes_def)

text \<open>
  The run does not record what it has just inserted: two valid findings with the same
  unknown fingerprint in one scan are both announced as new.
\<close>

theorem duplicate_announced_twice:
  assumes "\<forall>t n. newID t n \<noteq> None" "mem_inv s" "ok_module (mi_id mi)"
    and "valid_fresh [f, g] = [f, g]" "f_fingerprint f = f_fingerprint g"
    and "mem_Get s (mi_id mi) (f_fingerprint f) = None"
  shows "\<exists>s' res. Reconcile mem_ops newID now mi t [f, g] s = (s', res, None) \<and>
    map f_fingerprint (rr_newly_open res) = [f_fingerprint f, f_fingerprint f]"
proof -
  obtain s' res where run: "Reconcile mem_ops newID now mi t [f, g] s = (s', res, None)"
    using mem.Reconcile_total [of newID now mi t "[f, g]" s] assms(1) by blast
  obtain existing where ls: "op_list_by_target mem_ops s (mi_id mi) t = Inr existing"
    using mem.list_total by blast
  have ex: "by_fingerprint existing (f_fingerprint g) = None"
  proof (rule ccontr)
    assume "by_fingerprint existing (f_fingerprint g) \<noteq> None"
    then obtain r where "by_fingerprint existing (f_fingerprint g) = Some r" by blast
    then have "r \<in> set existing" "f_fingerprint r = f_fingerprint g"
      using by_fingerprint_Some [OF mem.list_distinct [OF assms(2,3) ls]] by auto
    then show False using mem.list_mem [OF assms(2,3) ls] assms(5,6) by force
  qed
  have valid: "ValidateForIngest f = None" "ValidateForIngest g = None"
    using assms(4) by (auto simp: valid_fresh_def split: if_splits)
  obtain i j where ids: "newID now 0 = Some i" "newID now (Suc 0) = Some j" using assms(1) by blast
  let ?k = "ResolveAfterOrDefault mi"
  have "rr_newly_open (rs_res st') = rr_newly_open (rs_res st)"
    if "resolve_loop mem_ops now ?k rs st = (st', None)" for rs st st'
    using that
  proof (induction rs arbitrary: st)
    case Nil
    then show ?case by simp
  next
    case (Cons r rs)
    obtain st1 where step: "resolve_step mem_ops now ?k r st = (st1, None)"
      and loop: "resolve_loop mem_ops now ?k rs st1 = (st', None)"
      using Cons.prems by (auto split: prod.splits option.splits)
    have "rr_newly_open (rs_res st1) = rr_newly_open (rs_res st)"
      using step by (auto simp: resolve_step_def Let_def split: sum.splits if_splits)
    then show ?case using Cons.IH [OF loop] by simp
  qed
  then have "map f_fingerprint (rr_newly_open res) = [f_fingerprint g, f_fingerprint g]"
    using run ls ex valid ids assms(5)
    by (auto simp: Reconcile_def Let_def ingest_step_def empty_result_def mem_ops_def mem_Upsert_def
        split: prod.splits option.splits)
  then show ?thesis using run assms(5) by auto
qed

theorem duplicate_announced_twice_witness:
  "\<exists>s' res. Reconcile mem_ops sample_ids 9 sample_mod ''t'' [sample_f, sample_f] NewMemStore = (s', res, None) \<and>
    map f_fingerprint (rr_newly_open res) = [''fp'', ''fp'']"
  using duplicate_announced_twice [of sample_ids NewMemStore sample_mod sample_f sample_f 9 "''t''"]
  by (simp add: valid_fresh_Cons)

end
