(* ===== verification/Sqlite_Props.thy ===== *)
theory Sqlite_Props
  imports Sqlite_Store Json_Marshal Evidence_Sim Reconcile_Props
begin

text \<open>
  The SQLite store keeps the contract of the record store, evidence aside, so the engine does
  over it what the life cycle says; and evidence comes back as JSON keeps it.
\<close>

section \<open>Encoded values can be read and written again\<close>

primrec encodable :: "jval \<Rightarrow> bool" where
  "encodable JNull = True"
| "encodable (JBool b) = True"
| "encodable (JInt i) = True"
| "encodable (JFloat l) = True"
| "encodable (JStr s) = True"
| "encodable (JStrs ss) = True"
| "encodable (JList xs) = list_all id (map encodable xs)"
| "encodable (JMap kvs) = list_all snd (map (map_prod id encodable) kvs)"
| "encodable (JOther ov) = (case map_option encodable ov of None \<Rightarrow> False | Some b \<Rightarrow> b)"

lemma those_total: "\<forall>x \<in> set xs. f x \<noteq> None \<Longrightarrow> those (map f xs) \<noteq> None"
  by (induction xs) (auto split: option.split)

lemma encodable_marshal: "encodable v \<Longrightarrow> json_marshal v \<noteq> None"
proof (induction v)
  case (JList xs)
  then have "those (map json_marshal xs) \<noteq> None" by (intro those_total) (auto simp: list_all_iff)
  then show ?case by auto
next
  case (JMap kvs)
  have "json_marshal (snd kv) \<noteq> None" if kv: "kv \<in> set kvs" for kv
  proof -
    have "encodable (snd kv)" using JMap.prems kv by (auto simp: list_all_iff)
    then show ?thesis using JMap.IH kv by (cases kv) auto
  qed
  then have "those (map (\<lambda>(k, ov). map_option (Pair k) ov) (map (map_prod id json_marshal) kvs)) \<noteq> None"
    unfolding tagged_members by (intro those_total) simp
  then show ?case unfolding json_marshal_map by auto
next
  case (JOther ov)
  then show ?case by (cases ov) auto
qed auto

lemma go_map_in: "(k, v) \<in> set (go_map kvs) \<Longrightarrow> v \<in> snd ` set kvs"
proof -
  have "(k, v) \<in> set (fold (\<lambda>(k, v). amap_put k v) kvs m) \<Longrightarrow> v \<in> snd ` set kvs \<union> snd ` set m" for m
  proof (induction kvs arbitrary: m)
    case Nil
    then show ?case by force
  next
    case (Cons kv kvs)
    obtain k' v' where kv: "kv = (k', v')" by fastforce
    have "v \<in> snd ` set kvs \<union> snd ` set (amap_put k' v' m)" using Cons kv by simp
    then show ?case using set_amap_put [of k' v' m] kv by force
  qed
  from this [of "[]"] show "(k, v) \<in> set (go_map kvs) \<Longrightarrow> v \<in> snd ` set kvs" by (simp add: go_map_def)
qed

lemma list_all2_in2: "list_all2 P xs ys \<Longrightarrow> y \<in> set ys \<Longrightarrow> \<exists>x \<in> set xs. P x y"
  by (induction rule: list_all2_induct) auto

lemma any_value_encodable: "any_value flt d = Some v \<Longrightarrow> encodable v"
proof (induction d arbitrary: v)
  case (DArr xs)
  then obtain vs where vs: "list_all2 (\<lambda>x v. any_value flt x = Some v) xs vs" "v = JList vs"
    by (auto simp: those_map_iff)
  moreover have "encodable w" if w: "w \<in> set vs" for w
  proof -
    obtain x where "x \<in> set xs" "any_value flt x = Some w" using list_all2_in2 [OF vs(1) w] by blast
    then show ?thesis by (rule DArr.IH)
  qed
  ultimately show ?case by (simp add: list_all_iff)
next
  case (DObj kvs)
  let ?g = "\<lambda>kd. map_option (Pair (fst kd)) (any_value flt (snd kd))"
  obtain fs where fs: "list_all2 (\<lambda>kd f. ?g kd = Some f) kvs fs" "v = JMap (go_map fs)"
    using DObj.prems unfolding any_value.simps tagged_members by (auto simp: those_map_iff)
  have "encodable w" if f: "(k, w) \<in> set fs" for k w
  proof -
    obtain kd where "kd \<in> set kvs" "?g kd = Some (k, w)" using list_all2_in2 [OF fs(1) f] by blast
    moreover obtain k' d where "kd = (k', d)" by fastforce
    ultimately show ?thesis using DObj.IH [of "(k', d)" d w] by auto
  qed
  then show ?case using go_map_in fs(2) by (fastforce simp: list_all_iff)
qed auto

definition fine_evidence :: "evidence \<Rightarrow> bool" where
  "fine_evidence ev \<longleftrightarrow> (case ev of None \<Rightarrow> True | Some kvs \<Rightarrow> json_marshal (JMap kvs) \<noteq> None)"

lemma fine_iff: "fine_evidence ev \<longleftrightarrow> (\<exists>b. marshalEvidence ev = Inr b)"
  by (auto simp: fine_evidence_def marshalEvidence_def split: option.splits)

lemma read_evidence_fine: "fine_evidence (read_evidence flt s)"
proof -
  have "fine_evidence (Some unreadable_evidence)"
    by (simp add: fine_evidence_def unreadable_evidence_def)
  moreover have "fine_evidence (Some kvs)" if "Option.bind (json_parse s) (any_value flt) = Some (JMap kvs)" for kvs
    using that any_value_encodable [of flt _ "JMap kvs"] encodable_marshal [of "JMap kvs"]
    by (auto simp: fine_evidence_def split: Option.bind_splits)
  ultimately show ?thesis
    by (auto simp: read_evidence_def fine_evidence_def [of None] split: option.split jval.split)
qed

lemma capEvidence_fine: "fine_evidence (f_evidence (capEvidence f))"
  by (auto simp: capEvidence_def fine_evidence_def split: option.split)

section \<open>The table invariant\<close>

text \<open>The unique constraints hold.\<close>

definition sql_inv :: "sqlite \<Rightarrow> bool" where
  "sql_inv db \<longleftrightarrow> distinct (map row_key (db_findings db)) \<and> distinct (map row_id (db_findings db))"

lemma do_update_simps [simp]:
  "row_key (do_update x y) = row_key y" "row_id (do_update x y) = row_id y"
  "row_target (do_update x y) = row_target y" "row_module (do_update x y) = row_module y"
  by (simp_all add: do_update_def row_key_def)

lemma insert_or_update_inv:
  assumes "insert_or_update x rows = Inr rows'" "distinct (map row_key rows)" "distinct (map row_id rows)"
  shows "distinct (map row_key rows') \<and> distinct (map row_id rows')"
proof (cases "row_key x \<in> row_key ` set rows")
  case True
  let ?f = "\<lambda>y. if row_key y = row_key x then do_update x y else y"
  have "row_key \<circ> ?f = row_key" "row_id \<circ> ?f = row_id" by (auto simp: fun_eq_iff)
  moreover have "rows' = map ?f rows" using assms(1) True by (simp add: insert_or_update_def)
  ultimately show ?thesis using assms(2,3) by simp
next
  case False
  then show ?thesis using assms by (auto simp: insert_or_update_def split: if_splits)
qed

lemma sql_Upsert_rows:
  assumes "sql_Upsert db r = Inr db'"
  obtains ev where "marshalEvidence (f_evidence r) = Inr ev"
    "insert_or_update (row_values r ev) (db_findings db) = Inr (db_findings db')"
    "db_targets db' = db_targets db"
  using assms that by (cases "marshalEvidence (f_evidence r)";
      cases "insert_or_update (row_values r (projr (marshalEvidence (f_evidence r)))) (db_findings db)")
    (auto simp: sql_Upsert_def)

lemma sql_Upsert_inv: "sql_Upsert db r = Inr db' \<Longrightarrow> sql_inv db \<Longrightarrow> sql_inv db'"
  by (elim sql_Upsert_rows) (auto simp: sql_inv_def dest: insert_or_update_inv)

lemma row_values_key [simp]: "row_key (row_values r ev) = (f_module r, f_fingerprint r)"
  by (simp add: row_key_def row_values_def)

definition row_at :: "row list \<Rightarrow> string \<times> string \<Rightarrow> row option" where
  "row_at rows k = List.find (\<lambda>x. row_key x = k) rows"

lemma row_at_Some:
  assumes "distinct (map row_key rows)"
  shows "row_at rows k = Some x \<longleftrightarrow> x \<in> set rows \<and> row_key x = k"
  using assms by (induction rows) (auto simp: row_at_def)

lemma row_at_insert:
  assumes "insert_or_update x rows = Inr rows'"
  shows "row_at rows' k = (if k = row_key x
    then Some (case row_at rows k of None \<Rightarrow> x | Some y \<Rightarrow> do_update x y) else row_at rows k)"
proof (cases "row_key x \<in> row_key ` set rows")
  case True
  let ?f = "\<lambda>y. if row_key y = row_key x then do_update x y else y"
  have "row_at (map ?f ys) k = map_option ?f (row_at ys k)" for ys
    by (induction ys) (auto simp: row_at_def)
  moreover have "rows' = map ?f rows" using assms True by (simp add: insert_or_update_def)
  moreover have "row_at rows (row_key x) \<noteq> None" using True by (auto simp: row_at_def find_None_iff)
  moreover have "row_at rows k = Some y \<Longrightarrow> row_key y = k" for y by (auto simp: row_at_def find_Some_iff)
  ultimately show ?thesis by (cases "row_at rows k") auto
next
  case False
  then have "rows' = rows @ [x]" using assms by (auto simp: insert_or_update_def split: if_splits)
  moreover have "row_at (ys @ [x]) k = (case row_at ys k of None \<Rightarrow> if row_key x = k then Some x else None | Some y \<Rightarrow> Some y)"
    for ys by (induction ys) (auto simp: row_at_def)
  moreover have "row_at rows (row_key x) = None" using False
    by (auto simp: row_at_def find_None_iff) (metis image_eqI)
  ultimately show ?thesis by (auto split: option.split)
qed

lemma sql_Get_row: "sql_Get flt db m fp = map_option (scanRecord flt) (row_at (db_findings db) (m, fp))"
  by (simp add: sql_Get_def row_at_def)

lemma scanRecord_simps [simp]:
  "f_module (scanRecord flt x) = row_module x" "f_fingerprint (scanRecord flt x) = row_fingerprint x"
  "f_target (scanRecord flt x) = row_target x" "f_status (scanRecord flt x) = row_status x"
  by (simp_all add: scanRecord_def)

text \<open>What a write leaves: the columns of the record, the identity of the row that was there.\<close>

definition stored_record :: "float_reader \<Rightarrow> store_rec option \<Rightarrow> store_rec \<Rightarrow> store_rec" where
  "stored_record flt old r =
     (let back = r\<lparr>f_evidence := (case marshalEvidence (f_evidence r) of Inr (Some b) \<Rightarrow>
            if b = [] then None else read_evidence flt b | _ \<Rightarrow> None)\<rparr>
      in case old of
           None \<Rightarrow> back
         | Some q \<Rightarrow> back\<lparr>f_id := f_id q, f_target := f_target q, f_check := f_check q, f_first_seen := f_first_seen q\<rparr>)"

lemma scan_inserted: "marshalEvidence (f_evidence r) = Inr ev \<Longrightarrow> scanRecord flt (row_values r ev) = stored_record flt None r"
  by (cases r; cases ev) (simp_all add: stored_record_def scanRecord_def row_values_def Let_def)

lemma scan_updated:
  assumes "marshalEvidence (f_evidence r) = Inr ev" "row_key y = (f_module r, f_fingerprint r)"
  shows "scanRecord flt (do_update (row_values r ev) y) = stored_record flt (Some (scanRecord flt y)) r"
  using assms by (cases r; cases ev)
    (simp_all add: stored_record_def scanRecord_def row_values_def do_update_def row_key_def Let_def)

lemma sql_Get_Upsert:
  assumes "sql_Upsert db r = Inr db'"
  shows "sql_Get flt db' m fp = (if (m, fp) = (f_module r, f_fingerprint r)
    then Some (stored_record flt (sql_Get flt db m fp) r) else sql_Get flt db m fp)"
proof -
  obtain ev where ev: "marshalEvidence (f_evidence r) = Inr ev"
    and ins: "insert_or_update (row_values r ev) (db_findings db) = Inr (db_findings db')"
    using assms by (rule sql_Upsert_rows)
  have "row_at (db_findings db) k = Some y \<Longrightarrow> row_key y = k" for k y by (auto simp: row_at_def find_Some_iff)
  then show ?thesis using row_at_insert [OF ins, of "(m, fp)"] scan_inserted [OF ev] scan_updated [OF ev]
    by (cases "row_at (db_findings db) (m, fp)") (auto simp: sql_Get_row)
qed

section \<open>The contract of a record store\<close>

text \<open>The store on records without evidence.\<close>

definition bare_row :: "row \<Rightarrow> row" where
  "bare_row x = x\<lparr>row_evidence := None\<rparr>"

definition bare_db :: "sqlite \<Rightarrow> sqlite" where
  "bare_db db = db\<lparr>db_findings := map bare_row (db_findings db)\<rparr>"

definition bare_upsert :: "sqlite \<Rightarrow> store_rec \<Rightarrow> store_error + sqlite" where
  "bare_upsert db r = (if f_evidence r = None then sql_Upsert db r else Inl (StoreError ''evidence''))"

definition bare_ops :: "float_reader \<Rightarrow> sqlite store_ops" where
  "bare_ops flt = \<lparr>op_list_by_target = sql_ListByTarget flt, op_upsert = bare_upsert\<rparr>"

lemma bare_row_simps [simp]:
  "row_key (bare_row x) = row_key x" "row_id (bare_row x) = row_id x"
  "row_module (bare_row x) = row_module x" "row_target (bare_row x) = row_target x"
  "row_values (bare r) None = bare_row (row_values r ev)"
  "do_update (bare_row x) (bare_row y) = bare_row (do_update x y)"
  by (simp_all add: bare_row_def row_key_def row_values_def do_update_def bare_def)

lemma scan_bare_row [simp]: "scanRecord flt (bare_row x) = bare (scanRecord flt x)"
  by (simp add: scanRecord_def bare_row_def bare_def)

lemma insert_bare_row:
  "insert_or_update (bare_row x) (map bare_row rows) = map_sum id (map bare_row) (insert_or_update x rows)"
  by (auto simp: insert_or_update_def image_image)

lemma sql_Get_bare: "sql_Get flt (bare_db db) m fp = map_option bare (sql_Get flt db m fp)"
proof -
  have "row_at (map bare_row rows) k = map_option bare_row (row_at rows k)" for rows k
    by (induction rows) (auto simp: row_at_def)
  then show ?thesis by (simp add: sql_Get_row bare_db_def option.map_comp comp_def)
qed

lemma sql_inv_bare: "sql_inv db \<Longrightarrow> sql_inv (bare_db db)"
  by (simp add: sql_inv_def bare_db_def comp_def)

interpretation sql_image: store_image "sql_ops flt" "bare_ops flt" bare_db fine_evidence for flt
proof unfold_locales
  fix s m t
  show "op_list_by_target (bare_ops flt) (bare_db s) m t =
      map_sum id (map bare) (op_list_by_target (sql_ops flt) s m t)"
    by (simp add: bare_ops_def sql_ops_def sql_ListByTarget_def bare_db_def filter_map comp_def)
next
  fix s m t rs r
  assume "op_list_by_target (sql_ops flt) s m t = Inr rs" "r \<in> set rs"
  then show "fine_evidence (f_evidence r)"
    using read_evidence_fine by (auto simp: sql_ops_def sql_ListByTarget_def scanRecord_def
        fine_evidence_def [of None] split: option.split)
next
  fix r :: store_rec and s assume "fine_evidence (f_evidence r)"
  then obtain ev where ev: "marshalEvidence (f_evidence r) = Inr ev" by (auto simp: fine_iff)
  have none: "marshalEvidence None = Inr None" by (simp add: marshalEvidence_def)
  show "op_upsert (bare_ops flt) (bare_db s) (bare r) = map_sum id bare_db (op_upsert (sql_ops flt) s r)"
    using insert_bare_row [of "row_values r ev" "db_findings s"]
    by (cases "insert_or_update (row_values r ev) (db_findings s)")
      (simp_all add: bare_ops_def sql_ops_def bare_upsert_def sql_Upsert_def ev none bare_db_def bare_row_simps(5) [of r ev])
qed (rule capEvidence_fine)

definition bare_inv :: "sqlite \<Rightarrow> bool" where
  "bare_inv db \<longleftrightarrow> sql_inv db \<and> (\<forall>x \<in> set (db_findings db). row_evidence x = None)"

lemma bare_inv_bare: "sql_inv db \<Longrightarrow> bare_inv (bare_db db)"
  by (simp add: bare_inv_def sql_inv_bare) (simp add: bare_db_def bare_row_def)

lemma stored_record_bare:
  assumes "f_evidence r = None" "\<forall>q. old = Some q \<longrightarrow> same_identity r q"
  shows "stored_record flt old r = r"
  using assms by (cases r; cases old) (auto simp: stored_record_def marshalEvidence_def same_identity_def)

lemma insert_evidence:
  "insert_or_update x rows = Inr rows' \<Longrightarrow> row_evidence x = None \<Longrightarrow>
     \<forall>y \<in> set rows. row_evidence y = None \<Longrightarrow> \<forall>y \<in> set rows'. row_evidence y = None"
  by (auto simp: insert_or_update_def do_update_def split: if_splits)

lemma bare_upsert_evidence:
  assumes "sql_Upsert db r = Inr db'" "f_evidence r = None" "\<forall>x \<in> set (db_findings db). row_evidence x = None"
  shows "\<forall>x \<in> set (db_findings db'). row_evidence x = None"
proof -
  obtain ev where ev: "marshalEvidence (f_evidence r) = Inr ev"
    and ins: "insert_or_update (row_values r ev) (db_findings db) = Inr (db_findings db')"
    using assms(1) by (rule sql_Upsert_rows)
  have "ev = None" using ev assms(2) by (simp add: marshalEvidence_def)
  then have "row_evidence (row_values r ev) = None" by (simp add: row_values_def)
  from insert_evidence [OF ins this assms(3)] show ?thesis .
qed

interpretation sql: record_store "bare_ops flt" "sql_Get flt" "\<lambda>_. True" bare_inv for flt
proof unfold_locales
  fix s m fp r assume "sql_Get flt s m fp = Some r"
  then show "f_module r = m \<and> f_fingerprint r = fp"
    by (auto simp: sql_Get_def find_Some_iff row_key_def)
next
  fix s m t rs assume inv: "bare_inv s" and ls: "op_list_by_target (bare_ops flt) s m t = Inr rs"
  have d: "distinct (map row_key (db_findings s))" using inv by (simp add: bare_inv_def sql_inv_def)
  have rs: "rs = map (scanRecord flt) (filter (\<lambda>x. row_module x = m \<and> row_target x = t) (db_findings s))"
    using ls by (simp add: bare_ops_def sql_ListByTarget_def)
  show "set rs = {r. f_target r = t \<and> sql_Get flt s m (f_fingerprint r) = Some r}"
    unfolding rs sql_Get_row using row_at_Some [OF d] by (force simp: row_key_def)
  have "distinct (map row_key (filter (\<lambda>x. row_module x = m \<and> row_target x = t) (db_findings s)))"
    using d by (simp add: distinct_map_filter)
  then show "distinct (map f_fingerprint rs)"
    unfolding rs by (auto simp: distinct_map inj_on_def row_key_def)
next
  fix s r s' assume "bare_inv s" "op_upsert (bare_ops flt) s r = Inr s'"
  then show "bare_inv s'" using sql_Upsert_inv bare_upsert_evidence
    by (auto simp: bare_inv_def bare_ops_def bare_upsert_def split: if_splits)
next
  fix s r s' assume up: "op_upsert (bare_ops flt) s r = Inr s'"
    and "\<forall>old. sql_Get flt s (f_module r) (f_fingerprint r) = Some old \<longrightarrow> same_identity r old"
  then show "sql_Get flt s' (f_module r) (f_fingerprint r) = Some r"
    using sql_Get_Upsert [of s r s' flt] stored_record_bare
    by (auto simp: bare_ops_def bare_upsert_def split: if_splits)
next
  fix s r m s' fp assume "op_upsert (bare_ops flt) s r = Inr s'" "(m, fp) \<noteq> (f_module r, f_fingerprint r)"
  then show "sql_Get flt s' m fp = sql_Get flt s m fp"
    using sql_Get_Upsert [of s r s' flt m fp] by (auto simp: bare_ops_def bare_upsert_def split: if_splits)
qed

section \<open>A scan over the database succeeds\<close>

text \<open>
  The only error of a scan is a primary key used twice. With ids that are new, each insert
  succeeds; an update concerns a row that is there.
\<close>

definition row_ids :: "sqlite \<Rightarrow> string set" where
  "row_ids db = row_id ` set (db_findings db)"

definition row_keys :: "sqlite \<Rightarrow> (string \<times> string) set" where
  "row_keys db = row_key ` set (db_findings db)"

lemma row_sets_with [simp]:
  "row_keys (db\<lparr>db_findings := rows\<rparr>) = row_key ` set rows" "row_ids (db\<lparr>db_findings := rows\<rparr>) = row_id ` set rows"
  by (simp_all add: row_keys_def row_ids_def)

lemma sql_Upsert_ok:
  assumes "fine_evidence (f_evidence r)" "(f_module r, f_fingerprint r) \<in> row_keys db \<or> f_id r \<notin> row_ids db"
  shows "\<exists>db'. sql_Upsert db r = Inr db' \<and> row_keys db \<subseteq> row_keys db' \<and>
    row_ids db' \<subseteq> insert (f_id r) (row_ids db) \<and>
    ((f_module r, f_fingerprint r) \<in> row_keys db \<longrightarrow> row_ids db' = row_ids db)"
proof -
  obtain ev where ev: "marshalEvidence (f_evidence r) = Inr ev" using assms(1) by (auto simp: fine_iff)
  let ?x = "row_values r ev"
  have x: "row_id ?x = f_id r" by (simp add: row_values_def)
  show ?thesis
  proof (cases "(f_module r, f_fingerprint r) \<in> row_keys db")
    case True
    let ?f = "\<lambda>y. if row_key y = row_key ?x then do_update ?x y else y"
    have "insert_or_update ?x (db_findings db) = Inr (map ?f (db_findings db))"
      using True by (simp add: insert_or_update_def row_keys_def)
    then have up: "sql_Upsert db r = Inr (db\<lparr>db_findings := map ?f (db_findings db)\<rparr>)" by (simp add: sql_Upsert_def ev)
    have "row_key (?f y) = row_key y" "row_id (?f y) = row_id y" for y by simp_all
    then have "row_key ` set (map ?f (db_findings db)) = row_keys db" "row_id ` set (map ?f (db_findings db)) = row_ids db"
      by (simp_all only: set_map image_image row_keys_def row_ids_def)
    then show ?thesis unfolding up by (intro exI [of _ "db\<lparr>db_findings := map ?f (db_findings db)\<rparr>"]) auto
  next
    case False
    then have "insert_or_update ?x (db_findings db) = Inr (db_findings db @ [?x])"
      using assms(2) x by (simp add: insert_or_update_def row_keys_def row_ids_def)
    then have "sql_Upsert db r = Inr (db\<lparr>db_findings := db_findings db @ [?x]\<rparr>)" by (simp add: sql_Upsert_def ev)
    then show ?thesis using False x by (auto simp: row_keys_def row_ids_def)
  qed
qed

text \<open>The ids in use while a scan runs: those of before and the first \<open>n\<close> new ones.\<close>

definition ids_below :: "(nat \<Rightarrow> string) \<Rightarrow> string set \<Rightarrow> nat \<Rightarrow> sqlite \<Rightarrow> bool" where
  "ids_below ids used n db \<longleftrightarrow> row_ids db \<subseteq> used \<union> ids ` {..<n}"

definition fresh_ids :: "(nat \<Rightarrow> string) \<Rightarrow> string set \<Rightarrow> id_gen \<Rightarrow> time \<Rightarrow> bool" where
  "fresh_ids ids used newID now \<longleftrightarrow> inj ids \<and> (\<forall>n. ids n \<notin> used \<and> newID now n = Some (ids n))"

lemma ingest_step_ok:
  assumes fresh: "fresh_ids ids used newID now" and "ids_below ids used (rs_ids st) (rs_store st)"
    and "\<And>fp r. byFP fp = Some r \<Longrightarrow> (f_module r, f_fingerprint r) \<in> row_keys (rs_store st)"
  shows "\<exists>st'. ingest_step (sql_ops flt) newID now mid byFP f st = (st', None) \<and>
    ids_below ids used (rs_ids st') (rs_store st') \<and> row_keys (rs_store st) \<subseteq> row_keys (rs_store st')"
proof (cases "ValidateForIngest f")
  case (Some e)
  then have "ingest_step (sql_ops flt) newID now mid byFP f st =
      (st\<lparr>rs_res := (rs_res st)\<lparr>rr_rejected := rr_rejected (rs_res st) @ [(f, e)]\<rparr>\<rparr>, None)"
    by (simp add: ingest_step_def)
  then show ?thesis using assms(2) by auto
next
  case None
  show ?thesis
  proof (cases "byFP (f_fingerprint f)")
    case new: None
    let ?r = "new_record mid now (ids (rs_ids st)) (capEvidence f)"
    have "ids (rs_ids st) \<notin> row_ids (rs_store st)"
      using assms(1,2) by (auto simp: ids_below_def fresh_ids_def inj_def)
    moreover have "fine_evidence (f_evidence ?r)" by (simp add: bare_new_evidence capEvidence_fine)
    ultimately obtain db' where db': "sql_Upsert (rs_store st) ?r = Inr db'" "row_keys (rs_store st) \<subseteq> row_keys db'"
        "row_ids db' \<subseteq> insert (ids (rs_ids st)) (row_ids (rs_store st))"
      using sql_Upsert_ok [of ?r "rs_store st"] by auto
    moreover have "newID now (rs_ids st) = Some (ids (rs_ids st))" using fresh by (simp add: fresh_ids_def)
    ultimately show ?thesis using None new assms(2)
      by (auto simp: ingest_step_def sql_ops_def ids_below_def lessThan_Suc Let_def)
  next
    case (Some r)
    let ?m = "merged_record now (capEvidence f) r"
    have key: "(f_module ?m, f_fingerprint ?m) \<in> row_keys (rs_store st)" using assms(3) [OF Some] by simp
    moreover have "fine_evidence (f_evidence ?m)" by (simp add: bare_new_evidence capEvidence_fine)
    ultimately obtain db' where "sql_Upsert (rs_store st) ?m = Inr db'" "row_keys (rs_store st) \<subseteq> row_keys db'"
        "row_ids db' \<subseteq> row_ids (rs_store st)"
      using sql_Upsert_ok [of ?m "rs_store st"] by auto
    then show ?thesis using None Some assms(2)
      by (auto simp: ingest_step_def sql_ops_def ids_below_def Let_def)
  qed
qed

lemma ingest_loop_ok:
  assumes fresh: "fresh_ids ids used newID now" and "ids_below ids used (rs_ids st) (rs_store st)"
    and "\<And>fp r. byFP fp = Some r \<Longrightarrow> (f_module r, f_fingerprint r) \<in> row_keys (rs_store st)"
  shows "\<exists>st'. ingest_loop (sql_ops flt) newID now mid byFP fs st = (st', None) \<and>
    row_keys (rs_store st) \<subseteq> row_keys (rs_store st')"
  using assms(2,3)
proof (induction fs arbitrary: st)
  case (Cons f fs)
  obtain st1 where st1: "ingest_step (sql_ops flt) newID now mid byFP f st = (st1, None)"
    "ids_below ids used (rs_ids st1) (rs_store st1)" "row_keys (rs_store st) \<subseteq> row_keys (rs_store st1)"
    using ingest_step_ok [OF fresh Cons.prems(1), of byFP] Cons.prems(2) by blast
  then have "\<exists>st'. ingest_loop (sql_ops flt) newID now mid byFP fs st1 = (st', None) \<and>
      row_keys (rs_store st1) \<subseteq> row_keys (rs_store st')"
    using Cons.prems(2) by (intro Cons.IH) blast+
  then show ?case using st1 by auto
qed simp

lemma resolve_loop_ok:
  assumes "\<forall>r \<in> set rs. (f_module r, f_fingerprint r) \<in> row_keys (rs_store st) \<and> fine_evidence (f_evidence r)"
  shows "\<exists>st'. resolve_loop (sql_ops flt) now k rs st = (st', None)"
  using assms
proof (induction rs arbitrary: st)
  case (Cons r rs)
  have "\<exists>st'. resolve_step (sql_ops flt) now k r st = (st', None) \<and> row_keys (rs_store st) \<subseteq> row_keys (rs_store st')"
  proof -
    let ?r = "age_record k now r"
    have "(f_module ?r, f_fingerprint ?r) \<in> row_keys (rs_store st)" "fine_evidence (f_evidence ?r)"
      using Cons.prems by (simp_all add: bare_new_evidence)
    then obtain db' where "sql_Upsert (rs_store st) ?r = Inr db'" "row_keys (rs_store st) \<subseteq> row_keys db'"
      using sql_Upsert_ok [of ?r "rs_store st"] by blast
    then show ?thesis by (auto simp: resolve_step_def sql_ops_def Let_def)
  qed
  then obtain st1 where st1: "resolve_step (sql_ops flt) now k r st = (st1, None)"
    "row_keys (rs_store st) \<subseteq> row_keys (rs_store st1)" by blast
  then have "\<exists>st'. resolve_loop (sql_ops flt) now k rs st1 = (st', None)"
    using Cons.prems by (intro Cons.IH) auto
  then show ?case using st1 by auto
qed simp

lemma sql_Reconcile_ok:
  assumes "fresh_ids ids (row_ids db) newID now"
  shows "\<exists>db' res. Reconcile (sql_ops flt) newID now mi t fresh db = (db', res, None)"
proof -
  define existing where "existing = map (scanRecord flt)
     (filter (\<lambda>x. row_module x = mi_id mi \<and> row_target x = t) (db_findings db))"
  let ?st = "\<lparr>rs_store = db, rs_seen = [], rs_res = empty_result, rs_ids = 0\<rparr>"
  have keys: "(f_module r, f_fingerprint r) \<in> row_keys db" if "r \<in> set existing" for r
    using that by (force simp: existing_def row_keys_def row_key_def)
  have list: "op_list_by_target (sql_ops flt) db (mi_id mi) t = Inr existing"
    by (simp add: sql_ops_def sql_ListByTarget_def existing_def)
  have "by_fingerprint existing fp = Some r \<Longrightarrow> r \<in> set existing" for fp r
    by (auto simp: by_fingerprint_def dest!: map_of_SomeD)
  then have byFP: "by_fingerprint existing fp = Some r \<Longrightarrow> (f_module r, f_fingerprint r) \<in> row_keys db" for fp r
    using keys by blast
  have "ids_below ids (row_ids db) 0 db" by (simp add: ids_below_def)
  then obtain st1 where st1: "ingest_loop (sql_ops flt) newID now (mi_id mi) (by_fingerprint existing) fresh ?st = (st1, None)"
      "row_keys db \<subseteq> row_keys (rs_store st1)"
    using ingest_loop_ok [OF assms, of ?st "by_fingerprint existing" flt "mi_id mi" fresh] byFP by auto
  obtain st2 where "resolve_loop (sql_ops flt) now (ResolveAfterOrDefault mi) existing st1 = (st2, None)"
    using resolve_loop_ok [of existing st1 flt now "ResolveAfterOrDefault mi"] keys st1(2)
      sql_image.list_fine [OF list] by blast
  then show ?thesis using list st1(1) by (simp add: Reconcile_def)
qed

end
