(* ===== verification/Sqlite_Specs.thy ===== *)
theory Sqlite_Specs
  imports Sqlite_Props
begin

text \<open>
  The properties of the SQLite store (\<open>store/sqlite.go\<close>): the engine over it, evidence through
  it, retention, and saved targets against the in-memory store.
\<close>

section \<open>The engine over the database\<close>

lemma valid_fresh_bare: "valid_fresh (map bare fs) = map bare (valid_fresh fs)"
  by (simp add: valid_fresh_def filter_map comp_def)

lemma reported_bare: "reported (map bare fs) fp = map_option bare (reported fs fp)"
  by (induction fs) (simp_all add: reported_Cons)

lemma phase_of_bare [simp]: "phase_of (map_option bare x) = phase_of x"
  by (cases x) (simp_all add: phase_of_def)

lemma bare_db_inv: "bare_inv (bare_db db) \<Longrightarrow> sql_inv db"
  by (simp add: bare_inv_def sql_inv_def bare_db_def comp_def)

lemma sql_scan_effect:
  assumes run: "Reconcile (sql_ops flt) newID now mi t fresh db = (db', res, None)"
    and inv: "sql_inv db" and dist: "distinct (map f_fingerprint (valid_fresh fresh))"
    and own: "\<forall>f \<in> set (valid_fresh fresh). \<forall>r.
      sql_Get flt db (mi_id mi) (f_fingerprint f) = Some r \<longrightarrow> f_target r = t"
  shows "sql_inv db' \<and> scan_effect mi now t (map bare fresh) fp
    (map_option bare (sql_Get flt db (mi_id mi) fp)) (map_option bare (sql_Get flt db' (mi_id mi) fp))"
proof -
  have image: "Reconcile (bare_ops flt) newID now mi t (map bare fresh) (bare_db db) =
      (bare_db db', bare_result res, None)"
    by (rule sql_image.image_Reconcile [OF run])
  have d: "distinct (map f_fingerprint (valid_fresh (map bare fresh)))"
    using dist by (simp add: valid_fresh_bare comp_def)
  have o: "f_target r = t" if "f \<in> set (valid_fresh (map bare fresh))"
      "sql_Get flt (bare_db db) (mi_id mi) (f_fingerprint f) = Some r" for f r
    using that own by (fastforce simp: valid_fresh_bare sql_Get_bare)
  show ?thesis
    using sql.Reconcile_effect(1,2) [OF image bare_inv_bare [OF inv] TrueI d o] bare_db_inv
    by (simp add: sql_Get_bare)
qed

text \<open>
  C1. Over the database, with ids that are not in use, a scan succeeds and moves every
  fingerprint of the scanned target as the life cycle does, keeping the unique constraints.
\<close>

theorem sqlite_scan_refines_lifecycle:
  assumes "fresh_ids ids (row_ids db) newID now" "sql_inv db"
    and "distinct (map f_fingerprint (valid_fresh fresh))"
    and "\<forall>f \<in> set (valid_fresh fresh). \<forall>r.
      sql_Get flt db (mi_id mi) (f_fingerprint f) = Some r \<longrightarrow> f_target r = t"
    and "\<forall>r. sql_Get flt db (mi_id mi) fp = Some r \<longrightarrow> f_target r = t"
  shows "\<exists>db' res. Reconcile (sql_ops flt) newID now mi t fresh db = (db', res, None) \<and> sql_inv db' \<and>
    phase_of (sql_Get flt db' (mi_id mi) fp) =
      lifecycle_step (ResolveAfterOrDefault mi) (reported fresh fp \<noteq> None)
        (phase_of (sql_Get flt db (mi_id mi) fp))"
proof -
  obtain db' res where run: "Reconcile (sql_ops flt) newID now mi t fresh db = (db', res, None)"
    using sql_Reconcile_ok [OF assms(1)] by blast
  note eff = sql_scan_effect [OF run assms(2-4), of fp]
  have "f_target r = t" if "map_option bare (sql_Get flt db (mi_id mi) fp) = Some r" for r
    using that assms(5) by auto
  from scan_effect_lifecycle [OF conjunct2 [OF eff] this]
  have "phase_of (sql_Get flt db' (mi_id mi) fp) =
      lifecycle_step (ResolveAfterOrDefault mi) (reported fresh fp \<noteq> None) (phase_of (sql_Get flt db (mi_id mi) fp))"
    by (simp add: reported_bare)
  then show ?thesis using run eff by blast
qed

text \<open>Two scans: one inserts the finding, one that no longer reports it ages it.\<close>

definition sample_db_ids :: "nat \<Rightarrow> string" where
  "sample_db_ids n = ''i'' @ replicate n CHR ''x''"

lemma sample_fresh_ids: "fresh_ids sample_db_ids {} (\<lambda>now n. Some (sample_db_ids n)) now"
  by (auto simp: fresh_ids_def sample_db_ids_def inj_def)

theorem sqlite_scan_refines_lifecycle_witness:
  "\<exists>db' res. Reconcile (sql_ops (\<lambda>_. None)) (\<lambda>now n. Some (sample_db_ids n)) 9 sample_mod ''t'' [sample_f] new_sqlite =
      (db', res, None) \<and> sql_inv db' \<and>
    phase_of (sql_Get (\<lambda>_. None) db' ''m'' ''fp'') = Present StatusOpen 0"
  using sqlite_scan_refines_lifecycle [of sample_db_ids new_sqlite "\<lambda>now n. Some (sample_db_ids n)" 9
      "[sample_f]" "\<lambda>_. None" sample_mod "''t''" "''fp''"] sample_fresh_ids [of 9]
  by (simp add: row_ids_def new_sqlite_def sql_inv_def sql_Get_def phase_of_def)

section \<open>Retention\<close>

lemma row_at_filter:
  "distinct (map row_key rows) \<Longrightarrow> row_at (filter P rows) k =
     (case row_at rows k of None \<Rightarrow> None | Some x \<Rightarrow> if P x then Some x else None)"
proof (induction rows)
  case (Cons y ys)
  have "row_at (filter P ys) (row_key y) = None"
    using Cons.prems by (auto simp: row_at_def find_None_iff) (metis image_eqI)
  then show ?case using Cons by (auto simp: row_at_def)
qed (simp add: row_at_def)

text \<open>
  Pruning removes from the database exactly the findings that were resolved before the
  cutoff, and returns their number; every other finding stays as it was.
\<close>

theorem prune_removes_old_resolved:
  assumes "sql_inv db" "PruneResolvedBefore cutoff db = (n, db')"
  shows "sql_Get flt db' m fp = (case sql_Get flt db m fp of None \<Rightarrow> None
      | Some r \<Rightarrow> if f_status r = StatusResolved \<and> (\<exists>at < cutoff. f_resolved_at r = Some at)
          then None else Some r) \<and>
    int n = int (length (db_findings db)) - int (length (db_findings db')) \<and> sql_inv db'"
proof -
  have db': "db_findings db' = filter (\<lambda>x. \<not> prunable cutoff x) (db_findings db)"
    using assms(2) by (auto simp: PruneResolvedBefore_def)
  have prunable: "prunable cutoff x \<longleftrightarrow> f_status (scanRecord flt x) = StatusResolved \<and>
      (\<exists>at < cutoff. f_resolved_at (scanRecord flt x) = Some at)" for x
    by (auto simp: prunable_def scanRecord_def split: option.splits)
  have "row_at (db_findings db') k = (case row_at (db_findings db) k of None \<Rightarrow> None
      | Some x \<Rightarrow> if \<not> prunable cutoff x then Some x else None)" for k
    unfolding db' by (rule row_at_filter) (use assms(1) in \<open>simp add: sql_inv_def\<close>)
  then have get: "sql_Get flt db' m fp = (case sql_Get flt db m fp of None \<Rightarrow> None
      | Some r \<Rightarrow> if f_status r = StatusResolved \<and> (\<exists>at < cutoff. f_resolved_at r = Some at)
          then None else Some r)"
    by (auto simp: sql_Get_row prunable split: option.split)
  have "int n = int (length (db_findings db)) - int (length (db_findings db'))"
    using assms(2) sum_length_filter_compl [of "prunable cutoff" "db_findings db"] by (auto simp: PruneResolvedBefore_def)
  moreover have "sql_inv db'" using assms(1) by (simp add: sql_inv_def db' distinct_map_filter)
  ultimately show ?thesis using get by blast
qed

theorem prune_removes_old_resolved_witness:
  "sql_Get (\<lambda>_. None) (snd (PruneResolvedBefore 9 (new_sqlite\<lparr>db_findings :=
      [row_values ((new_record ''m'' 5 ''i'' sample_f)\<lparr>f_status := StatusResolved, f_resolved_at := Some 6\<rparr>) None]\<rparr>)))
    ''m'' ''fp'' = None"
  using prune_removes_old_resolved [of "new_sqlite\<lparr>db_findings :=
      [row_values ((new_record ''m'' 5 ''i'' sample_f)\<lparr>f_status := StatusResolved, f_resolved_at := Some 6\<rparr>) None]\<rparr>"
      9 _ _ "\<lambda>_. None" "''m''" "''fp''", OF _ prod.collapse [symmetric]]
  by (simp add: sql_inv_def sql_Get_row row_at_def scanRecord_def row_values_def)

section \<open>Saved targets\<close>

text \<open>The two ways the configured targets change, run on either store.\<close>

datatype target_op = SaveT string string string | DeleteT string string

fun mem_target_op :: "mem_store \<Rightarrow> target_op \<Rightarrow> mem_store option" where
  "mem_target_op s (SaveT m raw c) = Some (mem_SaveTarget s m raw c)"
| "mem_target_op s (DeleteT m c) = mem_DeleteTarget s m c"

fun sql_target_op :: "sqlite \<Rightarrow> target_op \<Rightarrow> sqlite" where
  "sql_target_op db (SaveT m raw c) = sql_SaveTarget m raw c db"
| "sql_target_op db (DeleteT m c) = sql_DeleteTarget m c db"

fun mem_target_run :: "target_op list \<Rightarrow> mem_store \<Rightarrow> mem_store option" where
  "mem_target_run [] s = Some s"
| "mem_target_run (x # xs) s = (case mem_target_op s x of None \<Rightarrow> None | Some s' \<Rightarrow> mem_target_run xs s')"

definition targets_agree :: "mem_store \<Rightarrow> sqlite \<Rightarrow> bool" where
  "targets_agree s db \<longleftrightarrow> (\<forall>m. mem_targets_of s m =
     map snd (filter (\<lambda>x. fst x = m) (db_targets db)))"

lemma mem_targets_upd:
  "ms_targets s = Some tm \<Longrightarrow>
     mem_targets_of (s\<lparr>ms_targets := Some (amap_put m ts tm)\<rparr>) m' = (if m' = m then ts else mem_targets_of s m')"
  by (simp add: mem_targets_of_def)

lemma mem_targets_init: "ms_targets s = None \<Longrightarrow> mem_targets_of (s\<lparr>ms_targets := Some []\<rparr>) m = mem_targets_of s m"
  by (simp add: mem_targets_of_def)

lemma targets_agree_save:
  assumes "targets_agree s db"
  shows "targets_agree (mem_SaveTarget s m raw c) (sql_SaveTarget m raw c db)"
proof -
  define s0 where "s0 = (if ms_targets s = None then s\<lparr>ms_targets := Some []\<rparr> else s)"
  have s0: "targets_agree s0 db" using assms by (simp add: targets_agree_def s0_def mem_targets_init)
  obtain tm where tm: "ms_targets s0 = Some tm" by (cases "ms_targets s") (auto simp: s0_def)
  have "list_ex (\<lambda>(r, c'). c' = c) (mem_targets_of s0 m) \<longleftrightarrow> list_ex (\<lambda>(m', r, c'). m' = m \<and> c' = c) (db_targets db)"
    using s0 by (auto simp: targets_agree_def list_ex_iff)
  then show ?thesis using s0 tm mem_targets_upd [OF tm]
    by (auto simp: mem_SaveTarget_def sql_SaveTarget_def s0_def [symmetric] targets_agree_def)
qed

lemma targets_agree_delete:
  assumes "targets_agree s db" "mem_DeleteTarget s m c = Some s'"
  shows "targets_agree s' (sql_DeleteTarget m c db)"
proof -
  obtain tm where tm: "ms_targets s = Some tm" using assms(2) by (auto simp: mem_DeleteTarget_def split: option.splits)
  have left: "filter (\<lambda>(r, c'). c' \<noteq> c) (mem_targets_of s m) =
      map snd (filter (\<lambda>x. fst x = m \<and> snd (snd x) \<noteq> c) (db_targets db))"
    using assms(1) by (simp add: targets_agree_def filter_map case_prod_beta comp_def)
  have right: "db_targets (sql_DeleteTarget m c db) = filter (\<lambda>x. \<not> (fst x = m \<and> snd (snd x) = c)) (db_targets db)"
    by (auto simp: sql_DeleteTarget_def intro!: filter_cong)
  have "mem_targets_of s' k = (if k = m then filter (\<lambda>(r, c'). c' \<noteq> c) (mem_targets_of s m) else mem_targets_of s k)" for k
    using assms(2) tm mem_targets_upd [OF tm] by (auto simp: mem_DeleteTarget_def)
  then show ?thesis using assms(1) unfolding left targets_agree_def right
    by (auto intro!: arg_cong [where f = "map snd"] filter_cong)
qed

lemma targets_agree_run:
  "targets_agree s db \<Longrightarrow> mem_target_run xs s = Some s' \<Longrightarrow> targets_agree s' (foldl sql_target_op db xs)"
proof (induction xs arbitrary: s db)
  case (Cons x xs)
  obtain s1 where s1: "mem_target_op s x = Some s1" "mem_target_run xs s1 = Some s'"
    using Cons.prems(2) by (auto split: option.splits)
  have "targets_agree s1 (sql_target_op db x)"
    using Cons.prems(1) s1(1) targets_agree_save targets_agree_delete by (cases x) auto
  then show ?case using Cons.IH s1(2) by simp
qed simp

text \<open>
  Whatever is saved and deleted, in whatever order: as long as the in-memory store does
  not panic, both stores list the same targets in the same order.
\<close>

theorem saved_targets_agree:
  assumes "mem_target_run xs NewMemStore = Some s"
  shows "mem_ListSavedTargets s m = sql_ListSavedTargets m (foldl sql_target_op new_sqlite xs)"
proof -
  have "targets_agree NewMemStore new_sqlite"
    by (simp add: targets_agree_def NewMemStore_def new_sqlite_def mem_targets_of_def)
  from targets_agree_run [OF this assms] show ?thesis
    by (auto simp: targets_agree_def mem_ListSavedTargets_def sql_ListSavedTargets_def
        intro!: map_cong filter_cong)
qed

theorem saved_targets_agree_witness:
  "sql_ListSavedTargets ''m'' (foldl sql_target_op new_sqlite
     [SaveT ''m'' ''A'' ''a'', SaveT ''m'' ''B'' ''b'', SaveT ''m'' ''AA'' ''a'', DeleteT ''m'' ''a'']) = [''B'']"
  using saved_targets_agree [of "[SaveT ''m'' ''A'' ''a'', SaveT ''m'' ''B'' ''b'', SaveT ''m'' ''AA'' ''a'', DeleteT ''m'' ''a'']"
      _ "''m''"]
  by (simp add: mem_SaveTarget_def mem_DeleteTarget_def NewMemStore_def mem_targets_of_def mem_ListSavedTargets_def
      amap_put_def Let_def)

section \<open>Evidence through the database\<close>

text \<open>What a value is after it was written and read: numbers are floats, lists of any value.\<close>

primrec stored_value :: "jval \<Rightarrow> jval" where
  "stored_value JNull = JNull"
| "stored_value (JBool b) = JBool b"
| "stored_value (JInt i) = JFloat (itoa i)"
| "stored_value (JFloat l) = JFloat l"
| "stored_value (JStr s) = JStr (utf8_fix s)"
| "stored_value (JStrs ss) = JList (map (\<lambda>s. JStr (utf8_fix s)) ss)"
| "stored_value (JList xs) = JList (map stored_value xs)"
| "stored_value (JMap kvs) =
     JMap (go_map (map (map_prod utf8_fix id) (sort_key fst (map (map_prod id stored_value) kvs))))"
| "stored_value (JOther ov) = (case map_option stored_value ov of None \<Rightarrow> JNull | Some v \<Rightarrow> v)"

text \<open>Values without integers beyond 53 bits; floats are as they were read.\<close>

primrec storable :: "float_reader \<Rightarrow> jval \<Rightarrow> bool" where
  "storable flt JNull = True"
| "storable flt (JBool b) = True"
| "storable flt (JInt i) = (\<bar>i\<bar> \<le> 2 ^ 53)"
| "storable flt (JFloat l) = (number_lit l \<and> read_number flt l = Some l)"
| "storable flt (JStr s) = True"
| "storable flt (JStrs ss) = True"
| "storable flt (JList xs) = list_all id (map (storable flt) xs)"
| "storable flt (JMap kvs) = list_all snd (map (map_prod id (storable flt)) kvs)"
| "storable flt (JOther ov) = (case map_option (storable flt) ov of None \<Rightarrow> False | Some b \<Rightarrow> b)"

lemma digits_val_nat_str: "digits_val (nat_str n) = int n"
proof (induction n rule: nat_str.induct)
  case (1 n)
  have digit: "int (of_char (char_of (48 + k) :: char)) - 48 = int k" if "k < 10" for k :: nat
    using that by (simp add: of_char_of)
  show ?case
  proof (cases "n < 10")
    case True
    then show ?thesis using digit [of n] by (simp add: nat_str.simps [of n] digits_val_def)
  next
    case False
    then have "digits_val (nat_str n) = int (n div 10) * 10 + int (n mod 10)"
      using 1 digit [of "n mod 10"] by (simp add: nat_str.simps [of n] digits_val_def)
    also have "\<dots> = int n" by (metis div_mult_mod_eq of_nat_add of_nat_mult of_nat_numeral)
    finally show ?thesis .
  qed
qed

lemma int_literal_itoa: "\<bar>i\<bar> \<le> 2 ^ 53 \<Longrightarrow> int_literal (itoa i) = Some i"
proof -
  assume i: "\<bar>i\<bar> \<le> 2 ^ 53"
  obtain c cs where c: "nat_str (nat \<bar>i\<bar>) = c # cs" by (cases "nat_str (nat \<bar>i\<bar>)") auto
  then have "is_digit c" using nat_str_digits [of "nat \<bar>i\<bar>"] by simp
  then have "c \<noteq> CHR ''-''" by (auto simp: is_digit_def)
  then show ?thesis using i c digits_val_nat_str [of "nat \<bar>i\<bar>"] nat_str_digits [of "nat \<bar>i\<bar>"]
    by (auto simp: int_literal_def itoa_def)
qed

lemma read_number_itoa: "\<bar>i\<bar> \<le> 2 ^ 53 \<Longrightarrow> read_number flt (itoa i) = Some (itoa i)"
  by (simp add: read_number_def int_literal_itoa)

lemma insort_key_map_prod: "insort_key fst (map_prod id h x) (map (map_prod id h) xs) = map (map_prod id h) (insort_key fst x xs)"
  by (induction xs) auto

lemma sort_key_map_prod: "sort_key fst (map (map_prod id h) xs) = map (map_prod id h) (sort_key fst xs)"
  unfolding sort_key_def
  by (induction xs) (simp_all add: insort_key_map_prod [unfolded id_def] id_def)

lemma those_map_total: "(\<And>x. x \<in> set xs \<Longrightarrow> f x = Some (g x)) \<Longrightarrow> those (map f xs) = Some (map g xs)"
  by (induction xs) auto

lemma storable_read: "storable flt v \<Longrightarrow> \<exists>d. doc_of v = Some d \<and> any_value flt d = Some (stored_value v)"
proof (induction v)
  case (JInt i)
  then show ?case by (simp add: read_number_itoa)
next
  case (JStrs ss)
  have "those (map (any_value flt) (map (\<lambda>s. DStr (utf8_fix s)) ss)) = Some (map (\<lambda>s. JStr (utf8_fix s)) ss)"
    unfolding map_map by (rule those_map_total) simp
  then show ?case by simp
next
  case (JList xs)
  define d where "d = (\<lambda>x. the (doc_of x))"
  have d: "doc_of x = Some (d x) \<and> any_value flt (d x) = Some (stored_value x)" if "x \<in> set xs" for x
    using JList that by (fastforce simp: d_def list_all_iff)
  then have "those (map doc_of xs) = Some (map d xs)" "those (map (any_value flt) (map d xs)) = Some (map stored_value xs)"
    unfolding map_map by (auto intro!: those_map_total)
  then show ?case by simp
next
  case (JMap kvs)
  define d where "d = (\<lambda>x. the (doc_of x))"
  have d: "doc_of (snd kv) = Some (d (snd kv)) \<and> any_value flt (d (snd kv)) = Some (stored_value (snd kv))"
    if kv: "kv \<in> set kvs" for kv
  proof -
    obtain k v where "kv = (k, v)" by fastforce
    then show ?thesis using JMap.IH [of "(k, v)" v] JMap.prems kv by (fastforce simp: d_def list_all_iff)
  qed
  let ?srt = "map (map_prod utf8_fix id) (sort_key fst (map (map_prod id d) kvs))"
  have "those (map (\<lambda>kv. map_option (Pair (fst kv)) (doc_of (snd kv))) kvs) = Some (map (map_prod id d) kvs)"
    by (rule those_map_total) (use d in \<open>auto simp: map_prod_def\<close>)
  then have doc: "doc_of (JMap kvs) = Some (DObj ?srt)" by (simp only: doc_of.simps tagged_members option.map)
  have srt: "?srt = map (\<lambda>kv. (utf8_fix (fst kv), d (snd kv))) (sort_key fst kvs)"
    unfolding sort_key_map_prod by (simp add: map_prod_def case_prod_beta comp_def)
  have "those (map (\<lambda>kv. map_option (Pair (fst kv)) (any_value flt (snd kv))) ?srt) =
      Some (map (\<lambda>kv. (utf8_fix (fst kv), stored_value (snd kv))) (sort_key fst kvs))"
    unfolding srt map_map by (rule those_map_total) (use d in \<open>auto simp: set_sort\<close>)
  moreover have "map (\<lambda>kv. (utf8_fix (fst kv), stored_value (snd kv))) (sort_key fst kvs) =
      map (map_prod utf8_fix id) (sort_key fst (map (map_prod id stored_value) kvs))"
    unfolding sort_key_map_prod by (simp add: map_prod_def case_prod_beta comp_def)
  ultimately have "any_value flt (DObj ?srt) = Some (stored_value (JMap kvs))"
    by (simp only: any_value.simps tagged_members option.map stored_value.simps)
  then show ?case using doc by blast
next
  case (JOther ov)
  then show ?case by (cases ov) auto
qed auto

lemma storable_floats: "storable flt v \<Longrightarrow> floats_ok v"
proof (induction v)
  case (JMap kvs)
  then show ?case by (fastforce simp: list_all_iff)
next
  case (JOther ov)
  then show ?case by (cases ov) auto
qed (auto simp: list_all_iff)

lemma map_of_go_map: "map_of (go_map kvs) = map_of (rev kvs)"
proof -
  have "map_of (fold (\<lambda>(k, v). amap_put k v) kvs m) = map_of m ++ map_of (rev kvs)" for m
    by (induction kvs arbitrary: m) (auto simp: map_add_def fun_eq_iff split: option.splits)
  from this [of "[]"] show ?thesis by (simp add: go_map_def)
qed

lemma map_of_perm:
  assumes "distinct (map fst xs)" "set ys = set xs" "length ys = length xs"
  shows "map_of ys = map_of xs"
proof -
  have "distinct ys" using assms by (metis card_distinct distinct_card distinct_map)
  moreover have "inj_on fst (set ys)" using assms by (simp add: distinct_map)
  ultimately have "distinct (map fst ys)" by (simp add: distinct_map)
  then show ?thesis using assms by (simp add: map_of_inject_set)
qed

lemma stored_map_lookup:
  assumes "distinct (map fst kvs)" "\<forall>k \<in> fst ` set kvs. utf8_fix k = k" "stored_value (JMap kvs) = JMap ev"
  shows "map_of ev k = map_option stored_value (map_of kvs k)"
proof -
  let ?ms = "map (map_prod id stored_value) (sort_key fst kvs)"
  have "map (map_prod utf8_fix id) ?ms = ?ms" using assms(2) by (auto simp: map_prod_def set_sort split: prod.split)
  then have "ev = go_map ?ms" using assms(3) by (simp only: stored_value.simps sort_key_map_prod jval.inject)
  then have "map_of ev = map_of (rev ?ms)" by (simp add: map_of_go_map)
  also have "\<dots> = map_of (map (map_prod id stored_value) kvs)"
    using assms(1) by (intro map_of_perm) (simp_all add: comp_def)
  also have "map (map_prod id stored_value) kvs = map (\<lambda>(k, v). (k, stored_value v)) kvs" by (simp add: map_prod_def)
  finally show ?thesis by (simp add: map_of_map)
qed

text \<open>
  C17. Evidence goes through the database: after a write, the record is read back with every
  key of its evidence and no other, each value as JSON keeps it (an integer as a float of the
  same digits, a list of strings as a list of values, nested objects alike).
\<close>

theorem evidence_survives_storage:
  assumes "sql_Upsert db r = Inr db'" "f_evidence r = Some kvs" "storable flt (JMap kvs)"
    and "distinct (map fst kvs)" "\<forall>k \<in> fst ` set kvs. utf8_fix k = k"
  shows "\<exists>q ev. sql_Get flt db' (f_module r) (f_fingerprint r) = Some q \<and> f_evidence q = Some ev \<and>
    (\<forall>k. map_of ev k = map_option stored_value (map_of kvs k)) \<and>
    f_status q = f_status r \<and> f_severity q = f_severity r \<and> f_title q = f_title r \<and>
    f_last_seen q = f_last_seen r \<and> f_resolved_at q = f_resolved_at r \<and> r_absent_streak q = r_absent_streak r"
proof -
  obtain b where b: "marshalEvidence (f_evidence r) = Inr (Some b)" "json_marshal (JMap kvs) = Some b"
    using assms(1,2) by (auto simp: sql_Upsert_def marshalEvidence_def split: option.splits sum.splits)
  obtain d where d: "doc_of (JMap kvs) = Some d" "any_value flt d = Some (stored_value (JMap kvs))"
    using storable_read [OF assms(3)] by blast
  have "json_parse b = Some d" using marshal_parse [OF b(2) storable_floats [OF assms(3)]] d(1) by (metis option.inject)
  moreover obtain ev where ev: "stored_value (JMap kvs) = JMap ev" by simp
  ultimately have "read_evidence flt b = Some ev" using d(2) by (simp add: read_evidence_def)
  moreover have "b \<noteq> []" using b(2) unfolding json_marshal_map by (auto simp: json_object_def)
  moreover have "sql_Get flt db' (f_module r) (f_fingerprint r) =
      Some (stored_record flt (sql_Get flt db (f_module r) (f_fingerprint r)) r)"
    using sql_Get_Upsert [OF assms(1)] by simp
  ultimately show ?thesis using b(1) stored_map_lookup [OF assms(4,5) ev]
    by (auto simp: stored_record_def Let_def split: option.split)
qed

definition sample_evidence :: "(string \<times> jval) list" where
  "sample_evidence = [(''n'', JInt 12), (''apps'', JStrs [''x'']), (''ok'', JBool True)]"

lemma sample_evidence_keys: "utf8_fix ''n'' = ''n''" "utf8_fix ''apps'' = ''apps''" "utf8_fix ''ok'' = ''ok''" "utf8_fix ''x'' = ''x''"
  by code_simp+

theorem evidence_survives_storage_witness:
  "\<exists>q ev db'. sql_Upsert new_sqlite ((new_record ''m'' 5 ''i'' sample_f)\<lparr>f_evidence := Some sample_evidence\<rparr>) = Inr db' \<and>
    sql_Get (\<lambda>_. None) db' ''m'' ''fp'' = Some q \<and> f_evidence q = Some ev \<and>
    map_of ev ''n'' = Some (JFloat (itoa 12)) \<and> map_of ev ''apps'' = Some (JList [JStr ''x''])"
proof -
  let ?r = "(new_record ''m'' 5 ''i'' sample_f)\<lparr>f_evidence := Some sample_evidence\<rparr>"
  have "fine_evidence (f_evidence ?r)"
    using encodable_marshal [of "JMap sample_evidence"] by (simp add: fine_evidence_def sample_evidence_def)
  then obtain db' where up: "sql_Upsert new_sqlite ?r = Inr db'"
    using sql_Upsert_ok [of ?r new_sqlite] by (auto simp: row_ids_def new_sqlite_def)
  have "storable (\<lambda>_. None) (JMap sample_evidence)" "distinct (map fst sample_evidence)"
      "\<forall>k \<in> fst ` set sample_evidence. utf8_fix k = k"
    by (simp_all add: sample_evidence_def sample_evidence_keys)
  from evidence_survives_storage [OF up _ this] obtain q ev where
      "sql_Get (\<lambda>_. None) db' ''m'' ''fp'' = Some q" "f_evidence q = Some ev"
      "\<forall>k. map_of ev k = map_option stored_value (map_of sample_evidence k)"
    by auto
  then show ?thesis using up by (auto simp: sample_evidence_def sample_evidence_keys)
qed

end
