(* ===== verification/Domain_Verify.thy ===== *)
theory Domain_Verify
  imports Prelude Go_Wire
begin

text \<open>
  Domain-ownership verification (\<open>verify/verify.go\<close>) and its in-memory store
  (\<open>verify/memstore.go\<close>). The two lookups of a verifier are optional functions, each
  returning \<open>None\<close> on an error. The random token of a new challenge is an argument.
\<close>

definition StatePending :: string where "StatePending = ''pending''"
definition StateVerified :: string where "StateVerified = ''verified''"
definition MethodDNS :: string where "MethodDNS = ''dns''"
definition MethodHTTP :: string where "MethodHTTP = ''http''"

definition tokenPrefix :: string where "tokenPrefix = ''hexward-verify=''"
definition dnsLabel :: string where "dnsLabel = ''_hexward-verify''"
definition httpPath :: string where "httpPath = ''/.well-known/hexward-verify.txt''"
definition legacyTokenPrefix :: string where "legacyTokenPrefix = ''sentinel-verify=''"
definition legacyDNSLabel :: string where "legacyDNSLabel = ''_sentinel-verify''"
definition legacyHTTPPath :: string where "legacyHTTPPath = ''/.well-known/sentinel-verify.txt''"

record challenge =
  ch_domain :: string
  ch_token :: string
  ch_state :: string
  ch_created_at :: time
  ch_verified_at :: "time option"

definition DNSRecordName :: "challenge \<Rightarrow> string" where
  "DNSRecordName c = dnsLabel @ ''.'' @ ch_domain c"

definition DNSRecordValue :: "challenge \<Rightarrow> string" where
  "DNSRecordValue c = tokenPrefix @ ch_token c"

definition HTTPURL :: "challenge \<Rightarrow> string" where
  "HTTPURL c = ''http://'' @ ch_domain c @ httpPath"

definition HTTPFileContents :: "challenge \<Rightarrow> string" where
  "HTTPFileContents c = tokenPrefix @ ch_token c"

definition LegacyDNSRecordName :: "challenge \<Rightarrow> string" where
  "LegacyDNSRecordName c = legacyDNSLabel @ ''.'' @ ch_domain c"

definition LegacyDNSRecordValue :: "challenge \<Rightarrow> string" where
  "LegacyDNSRecordValue c = legacyTokenPrefix @ ch_token c"

definition LegacyHTTPURL :: "challenge \<Rightarrow> string" where
  "LegacyHTTPURL c = ''http://'' @ ch_domain c @ legacyHTTPPath"

definition LegacyHTTPFileContents :: "challenge \<Rightarrow> string" where
  "LegacyHTTPFileContents c = legacyTokenPrefix @ ch_token c"

definition Instructions :: "challenge \<Rightarrow> string" where
  "Instructions c =
     ''Verify ownership of '' @ ch_domain c @ '' by EITHER:'' @ [CHR 0x0A] @
     ''  DNS  '' @ em_dash @ '' add a TXT record at '' @ go_quote (DNSRecordName c) @ '' with value '' @
     go_quote (DNSRecordValue c) @ [CHR 0x0A] @
     ''  HTTP '' @ em_dash @ '' serve '' @ go_quote (HTTPURL c) @ '' containing '' @ go_quote (HTTPFileContents c) @
     [CHR 0x0A] @ ''Then it verifies automatically on the next scan.''"

text \<open>\<open>IndexAny(s, "/?#")\<close> and \<open>LastIndex(s, ":")\<close>, each with the cut that follows.\<close>

definition cut_path :: "string \<Rightarrow> string" where
  "cut_path s = takeWhile (\<lambda>c. c \<notin> {CHR ''/'', CHR ''?'', CHR ''#''}) s"

definition cut_port :: "string \<Rightarrow> string" where
  "cut_port s = (if CHR '':'' \<in> set s \<and> \<not> contains s '']''
     then rev (tl (dropWhile (\<lambda>c. c \<noteq> CHR '':'') (rev s))) else s)"

definition normalizeDomain :: "string \<Rightarrow> string" where
  "normalizeDomain input =
     (let s0 = trim_space (to_lower input);
          s1 = (case str_index s0 ''://'' of None \<Rightarrow> s0 | Some i \<Rightarrow> drop (i + 3) s0)
      in trim_suffix (cut_port (cut_path s1)) ''.'')"

text \<open>A fresh challenge from the 32 hex digits of its random token; \<open>None\<close> on an empty domain.\<close>

definition NewChallenge :: "string \<Rightarrow> string \<Rightarrow> time \<Rightarrow> challenge option" where
  "NewChallenge token domain now =
     (let d = normalizeDomain domain in
      if d = [] then None
      else Some \<lparr>ch_domain = d, ch_token = token, ch_state = StatePending, ch_created_at = now,
                 ch_verified_at = None\<rparr>)"

record verifier =
  vf_lookup_txt :: "(string \<Rightarrow> string list option) option"
  vf_fetch_http :: "(string \<Rightarrow> string option) option"

definition dns_holds :: "(string \<Rightarrow> string list option) \<Rightarrow> challenge \<Rightarrow> bool" where
  "dns_holds lookup c =
     list_ex (\<lambda>name. case lookup name of
         None \<Rightarrow> False
       | Some records \<Rightarrow>
           list_ex (\<lambda>r. trim_space r = DNSRecordValue c \<or> trim_space r = LegacyDNSRecordValue c) records)
       [DNSRecordName c, LegacyDNSRecordName c]"

definition http_holds :: "(string \<Rightarrow> string option) \<Rightarrow> challenge \<Rightarrow> bool" where
  "http_holds fetch c =
     list_ex (\<lambda>url. case fetch url of
         None \<Rightarrow> False
       | Some body \<Rightarrow> trim_space body = HTTPFileContents c \<or> trim_space body = LegacyHTTPFileContents c)
       [HTTPURL c, LegacyHTTPURL c]"

definition Satisfied :: "verifier \<Rightarrow> challenge \<Rightarrow> bool \<times> string" where
  "Satisfied v c =
     (if (case vf_lookup_txt v of None \<Rightarrow> False | Some lookup \<Rightarrow> dns_holds lookup c) then (True, MethodDNS)
      else if (case vf_fetch_http v of None \<Rightarrow> False | Some fetch \<Rightarrow> http_holds fetch c) then (True, MethodHTTP)
      else (False, []))"

section \<open>The challenge store\<close>

type_synonym challenge_store = "(string \<times> challenge) list"

definition challenge_key :: "string \<Rightarrow> string \<Rightarrow> string" where
  "challenge_key module domain = module @ [CHR 0x00] @ domain"

definition ch_Put :: "string \<Rightarrow> challenge \<Rightarrow> challenge_store \<Rightarrow> challenge_store" where
  "ch_Put module c s = amap_put (challenge_key module (ch_domain c)) c s"

definition ch_Get :: "string \<Rightarrow> string \<Rightarrow> challenge_store \<Rightarrow> challenge option" where
  "ch_Get module domain s = map_of s (challenge_key module domain)"

definition ch_List :: "string \<Rightarrow> challenge_store \<Rightarrow> challenge list" where
  "ch_List module s = map snd (filter (\<lambda>(k, c). length k > length module \<and>
     take (length module) k = module \<and> k ! length module = CHR 0x00) s)"

definition ch_Delete :: "string \<Rightarrow> string \<Rightarrow> challenge_store \<Rightarrow> challenge_store" where
  "ch_Delete module domain s = amap_del (challenge_key module domain) s"

section \<open>Lemmas\<close>

lemma challenge_key_inj:
  "CHR 0x00 \<notin> set m \<Longrightarrow> CHR 0x00 \<notin> set m' \<Longrightarrow>
     challenge_key m d = challenge_key m' d' \<longleftrightarrow> m = m' \<and> d = d'"
  using sep_inj by (simp add: challenge_key_def)

lemma challenge_key_prefix:
  assumes "CHR 0x00 \<notin> set m" "CHR 0x00 \<notin> set m'"
  shows "(length (challenge_key m' d) > length m \<and> take (length m) (challenge_key m' d) = m \<and>
    challenge_key m' d ! length m = CHR 0x00) \<longleftrightarrow> m = m'"
proof
  assume a: "length (challenge_key m' d) > length m \<and> take (length m) (challenge_key m' d) = m \<and>
    challenge_key m' d ! length m = CHR 0x00"
  then have "challenge_key m' d = m @ CHR 0x00 # drop (Suc (length m)) (challenge_key m' d)"
    by (metis id_take_nth_drop)
  then show "m = m'" using sep_inj [OF assms(2,1)] unfolding challenge_key_def by auto
qed (simp add: challenge_key_def nth_append)

text \<open>The well-formed stores: distinct keys, each built from a module name without NUL.\<close>

definition ch_inv :: "challenge_store \<Rightarrow> bool" where
  "ch_inv s \<longleftrightarrow> amap_inv s \<and>
     (\<forall>(k, c) \<in> set s. \<exists>m. CHR 0x00 \<notin> set m \<and> k = challenge_key m (ch_domain c))"

lemma ch_inv_Put: "ch_inv s \<Longrightarrow> CHR 0x00 \<notin> set m \<Longrightarrow> ch_inv (ch_Put m c s)"
  using set_amap_put [of "challenge_key m (ch_domain c)" c s]
  by (fastforce simp: ch_inv_def ch_Put_def)

lemma ch_inv_Delete: "ch_inv s \<Longrightarrow> ch_inv (ch_Delete m d s)"
  by (auto simp: ch_inv_def ch_Delete_def amap_del_def distinct_map_filter)

lemma ch_List_iff:
  assumes "ch_inv s" "CHR 0x00 \<notin> set m"
  shows "c \<in> set (ch_List m s) \<longleftrightarrow> ch_Get m (ch_domain c) s = Some c"
proof
  assume "c \<in> set (ch_List m s)"
  then obtain k where k: "(k, c) \<in> set s" "length k > length m" "take (length m) k = m" "k ! length m = CHR 0x00"
    by (auto simp: ch_List_def)
  then obtain m' where m': "CHR 0x00 \<notin> set m'" "k = challenge_key m' (ch_domain c)"
    using assms(1) by (fastforce simp: ch_inv_def)
  then have "m = m'" using challenge_key_prefix [OF assms(2) m'(1), of "ch_domain c"] k by blast
  then show "ch_Get m (ch_domain c) s = Some c"
    using k(1) m'(2) assms(1) by (simp add: ch_Get_def ch_inv_def)
next
  assume "ch_Get m (ch_domain c) s = Some c"
  then have "(challenge_key m (ch_domain c), c) \<in> set s" by (simp add: ch_Get_def map_of_SomeD)
  then show "c \<in> set (ch_List m s)"
    by (force simp: ch_List_def challenge_key_def nth_append)
qed

section \<open>Properties\<close>

text \<open>
  C40. Ownership is granted exactly when one of the two proofs is in place: at the current or
  the legacy record name a TXT record, or at the current or the legacy URL a body, that is the
  challenge's token after the current or the legacy prefix (up to surrounding blanks). In
  particular placing what the instructions ask for grants it, and lookups that fail or return
  other text never do.
\<close>

theorem satisfied_iff_proof:
  "fst (Satisfied v c) \<longleftrightarrow>
     (\<exists>lookup name records r. vf_lookup_txt v = Some lookup \<and>
        name \<in> {''_hexward-verify.'' @ ch_domain c, ''_sentinel-verify.'' @ ch_domain c} \<and>
        lookup name = Some records \<and> r \<in> set records \<and>
        trim_space r \<in> {''hexward-verify='' @ ch_token c, ''sentinel-verify='' @ ch_token c}) \<or>
     (\<exists>fetch url body. vf_fetch_http v = Some fetch \<and>
        url \<in> {''http://'' @ ch_domain c @ ''/.well-known/hexward-verify.txt'',
               ''http://'' @ ch_domain c @ ''/.well-known/sentinel-verify.txt''} \<and>
        fetch url = Some body \<and>
        trim_space body \<in> {''hexward-verify='' @ ch_token c, ''sentinel-verify='' @ ch_token c})"
proof -
  have ex: "list_ex P xs \<longleftrightarrow> (\<exists>x \<in> set xs. P x)" for P and xs :: "string list"
    by (simp add: list_ex_iff)
  have dns: "(case vf_lookup_txt v of None \<Rightarrow> False | Some lookup \<Rightarrow> dns_holds lookup c) \<longleftrightarrow>
     (\<exists>lookup name records r. vf_lookup_txt v = Some lookup \<and>
        name \<in> {''_hexward-verify.'' @ ch_domain c, ''_sentinel-verify.'' @ ch_domain c} \<and>
        lookup name = Some records \<and> r \<in> set records \<and>
        trim_space r \<in> {''hexward-verify='' @ ch_token c, ''sentinel-verify='' @ ch_token c})"
    by (cases "vf_lookup_txt v")
      (auto simp: dns_holds_def ex DNSRecordName_def LegacyDNSRecordName_def dnsLabel_def legacyDNSLabel_def
        DNSRecordValue_def LegacyDNSRecordValue_def tokenPrefix_def legacyTokenPrefix_def split: option.splits)
  have http: "(case vf_fetch_http v of None \<Rightarrow> False | Some fetch \<Rightarrow> http_holds fetch c) \<longleftrightarrow>
     (\<exists>fetch url body. vf_fetch_http v = Some fetch \<and>
        url \<in> {''http://'' @ ch_domain c @ ''/.well-known/hexward-verify.txt'',
               ''http://'' @ ch_domain c @ ''/.well-known/sentinel-verify.txt''} \<and>
        fetch url = Some body \<and>
        trim_space body \<in> {''hexward-verify='' @ ch_token c, ''sentinel-verify='' @ ch_token c})"
    by (cases "vf_fetch_http v")
      (auto simp: http_holds_def HTTPURL_def LegacyHTTPURL_def httpPath_def legacyHTTPPath_def
        HTTPFileContents_def LegacyHTTPFileContents_def tokenPrefix_def legacyTokenPrefix_def split: option.splits)
  show ?thesis unfolding dns [symmetric] http [symmetric] by (simp add: Satisfied_def)
qed

text \<open>
  The challenge store is a map from module and domain: after a put the challenge is found
  and listed under its module, a delete removes it from both, and neither touches any other
  module or domain. Module names have no NUL byte.
\<close>

theorem challenge_store_map:
  assumes "ch_inv s" "CHR 0x00 \<notin> set m" "CHR 0x00 \<notin> set m'"
  shows "ch_Get m' d (ch_Put m c s) = (if m' = m \<and> d = ch_domain c then Some c else ch_Get m' d s) \<and>
    ch_Get m' d (ch_Delete m e s) = (if m' = m \<and> d = e then None else ch_Get m' d s) \<and>
    set (ch_List m' (ch_Put m c s)) =
      {x. (if m' = m \<and> ch_domain x = ch_domain c then x = c else x \<in> set (ch_List m' s))} \<and>
    set (ch_List m' (ch_Delete m e s)) =
      {x \<in> set (ch_List m' s). \<not> (m' = m \<and> ch_domain x = e)}"
proof -
  have put: "ch_Get m' d (ch_Put m c s) = (if m' = m \<and> d = ch_domain c then Some c else ch_Get m' d s)" for d
    using challenge_key_inj [OF assms(3,2)] by (simp add: ch_Get_def ch_Put_def)
  have del: "ch_Get m' d (ch_Delete m e s) = (if m' = m \<and> d = e then None else ch_Get m' d s)" for d
    using challenge_key_inj [OF assms(3,2)] by (simp add: ch_Get_def ch_Delete_def)
  show ?thesis
    by (simp add: set_eq_iff put del ch_List_iff [OF ch_inv_Put [OF assms(1,2)] assms(3)]
        ch_List_iff [OF assms(1,3)] ch_List_iff [OF ch_inv_Delete [OF assms(1)] assms(3)]) auto
qed

theorem challenge_store_map_witness:
  "ch_Get ''m'' ''d'' (ch_Put ''m'' \<lparr>ch_domain = ''d'', ch_token = ''t'', ch_state = StatePending,
     ch_created_at = 0, ch_verified_at = None\<rparr> []) \<noteq> None"
  using challenge_store_map [of "[]" "''m''" "''m''" "''d''"
      "\<lparr>ch_domain = ''d'', ch_token = ''t'', ch_state = StatePending, ch_created_at = 0, ch_verified_at = None\<rparr>"]
  by (simp add: ch_inv_def)

end
