(* ===== verification/Sqlite_Verify.thy ===== *)
theory Sqlite_Verify
  imports Domain_Verify
begin

text \<open>
  The persistent store of ownership challenges (\<open>store/verify_sqlite.go\<close>): the table
  \<open>verify_challenges\<close> as the list of its rows, unique on module and domain. The interface
  \<open>verify.Store\<close> is a locale; both stores keep it, so they answer alike.
\<close>

section \<open>The table\<close>

record challenge_row =
  cr_module :: string
  cr_domain :: string
  cr_token :: string
  cr_state :: string
  cr_created_at :: time
  cr_verified_at :: "time option"

definition challenge_values :: "string \<Rightarrow> challenge \<Rightarrow> challenge_row" where
  "challenge_values module c =
     \<lparr>cr_module = module, cr_domain = ch_domain c, cr_token = ch_token c, cr_state = ch_state c,
      cr_created_at = ch_created_at c, cr_verified_at = ch_verified_at c\<rparr>"

definition scanChallenge :: "challenge_row \<Rightarrow> challenge" where
  "scanChallenge x =
     \<lparr>ch_domain = cr_domain x, ch_token = cr_token x, ch_state = cr_state x,
      ch_created_at = cr_created_at x, ch_verified_at = cr_verified_at x\<rparr>"

definition cr_key :: "challenge_row \<Rightarrow> string \<times> string" where
  "cr_key x = (cr_module x, cr_domain x)"

definition update_challenge :: "challenge_row \<Rightarrow> challenge_row \<Rightarrow> challenge_row" where
  "update_challenge new old = old\<lparr>cr_token := cr_token new, cr_state := cr_state new,
     cr_created_at := cr_created_at new, cr_verified_at := cr_verified_at new\<rparr>"

definition sql_Put :: "string \<Rightarrow> challenge \<Rightarrow> challenge_row list \<Rightarrow> challenge_row list" where
  "sql_Put module c rows =
     (let x = challenge_values module c
      in if cr_key x \<in> cr_key ` set rows
         then map (\<lambda>y. if cr_key y = cr_key x then update_challenge x y else y) rows
         else rows @ [x])"

definition sql_GetChallenge :: "string \<Rightarrow> string \<Rightarrow> challenge_row list \<Rightarrow> challenge option" where
  "sql_GetChallenge module domain rows =
     map_option scanChallenge (List.find (\<lambda>x. cr_key x = (module, domain)) rows)"

definition sql_ListChallenges :: "string \<Rightarrow> challenge_row list \<Rightarrow> challenge list" where
  "sql_ListChallenges module rows =
     map scanChallenge (sort_key cr_domain (filter (\<lambda>x. cr_module x = module) rows))"

definition sql_DeleteChallenge :: "string \<Rightarrow> string \<Rightarrow> challenge_row list \<Rightarrow> challenge_row list" where
  "sql_DeleteChallenge module domain rows = filter (\<lambda>x. cr_key x \<noteq> (module, domain)) rows"

section \<open>The interface\<close>

text \<open>A write: a challenge is put, or a domain deleted; on a store and on a map.\<close>

type_synonym challenge_op = "string \<times> (challenge + string)"

fun challenge_write :: "(string \<Rightarrow> challenge \<Rightarrow> 's \<Rightarrow> 's) \<Rightarrow> (string \<Rightarrow> string \<Rightarrow> 's \<Rightarrow> 's) \<Rightarrow> challenge_op \<Rightarrow> 's \<Rightarrow> 's" where
  "challenge_write put delete (m, Inl c) s = put m c s"
| "challenge_write put delete (m, Inr d) s = delete m d s"

fun map_write :: "challenge_op \<Rightarrow> (string \<times> string \<rightharpoonup> challenge) \<Rightarrow> (string \<times> string \<rightharpoonup> challenge)" where
  "map_write (m, Inl c) f = f((m, ch_domain c) \<mapsto> c)"
| "map_write (m, Inr d) f = f((m, d) := None)"

locale challenge_store =
  fixes put :: "string \<Rightarrow> challenge \<Rightarrow> 's \<Rightarrow> 's"
    and get :: "string \<Rightarrow> string \<Rightarrow> 's \<Rightarrow> challenge option"
    and listing :: "string \<Rightarrow> 's \<Rightarrow> challenge list"
    and delete :: "string \<Rightarrow> string \<Rightarrow> 's \<Rightarrow> 's"
    and inv :: "'s \<Rightarrow> bool" and ok :: "string \<Rightarrow> bool"
  assumes put_inv: "inv s \<Longrightarrow> ok m \<Longrightarrow> inv (put m c s)"
    and delete_inv: "inv s \<Longrightarrow> inv (delete m d s)"
    and get_put: "inv s \<Longrightarrow> ok m \<Longrightarrow> ok m' \<Longrightarrow>
      get m' d (put m c s) = (if m' = m \<and> d = ch_domain c then Some c else get m' d s)"
    and get_delete: "inv s \<Longrightarrow> ok m \<Longrightarrow> ok m' \<Longrightarrow>
      get m' d (delete m e s) = (if m' = m \<and> d = e then None else get m' d s)"
    and list_iff: "inv s \<Longrightarrow> ok m \<Longrightarrow> c \<in> set (listing m s) \<longleftrightarrow> get m (ch_domain c) s = Some c"
    and list_distinct: "inv s \<Longrightarrow> ok m \<Longrightarrow> distinct (map ch_domain (listing m s))"
begin

lemma write_get:
  "inv s \<Longrightarrow> ok (fst w) \<Longrightarrow> inv (challenge_write put delete w s) \<and>
     (\<forall>m d. ok m \<longrightarrow> get m d (challenge_write put delete w s) = map_write w (\<lambda>(m, d). get m d s) (m, d))"
  by (cases w; cases "snd w") (auto simp: put_inv delete_inv get_put get_delete)

lemma writes_get:
  assumes "inv s" "\<forall>w \<in> set ws. ok (fst w)" "\<And>m d. ok m \<Longrightarrow> get m d s = f (m, d)"
  shows "inv (fold (challenge_write put delete) ws s) \<and>
     (\<forall>m d. ok m \<longrightarrow> get m d (fold (challenge_write put delete) ws s) = fold map_write ws f (m, d))"
  using assms
proof (induction ws arbitrary: s f)
  case (Cons w ws)
  have w: "inv (challenge_write put delete w s) \<and>
      (\<forall>m d. ok m \<longrightarrow> get m d (challenge_write put delete w s) = map_write w (\<lambda>(m, d). get m d s) (m, d))"
    using Cons.prems by (intro write_get) auto
  have "get m d (challenge_write put delete w s) = map_write w f (m, d)" if "ok m" for m d
    using w Cons.prems(3) that by (cases w; cases "snd w") auto
  then show ?case using Cons.IH w Cons.prems(2) by simp
qed simp

end

section \<open>Both stores keep it\<close>

lemma ch_List_distinct:
  assumes "ch_inv s" "CHR 0x00 \<notin> set m"
  shows "distinct (map ch_domain (ch_List m s))"
proof -
  let ?P = "\<lambda>(k, c). length k > length m \<and> take (length m) k = m \<and> k ! length m = CHR 0x00"
  have key: "fst x = challenge_key m (ch_domain (snd x))" if x: "x \<in> set (filter ?P s)" for x
  proof -
    obtain m' where m': "CHR 0x00 \<notin> set m'" "fst x = challenge_key m' (ch_domain (snd x))"
      using x assms(1) by (fastforce simp: ch_inv_def)
    then show ?thesis using challenge_key_prefix [OF assms(2) m'(1), of "ch_domain (snd x)"] x by auto
  qed
  have fst: "distinct (map fst (filter ?P s))" using assms(1) by (simp add: ch_inv_def distinct_map_filter)
  have "inj_on (\<lambda>x. ch_domain (snd x)) (set (filter ?P s))"
  proof (rule inj_onI)
    fix x y assume xy: "x \<in> set (filter ?P s)" "y \<in> set (filter ?P s)" "ch_domain (snd x) = ch_domain (snd y)"
    then have "fst x = fst y" by (simp only: key)
    moreover have "inj_on fst (set (filter ?P s))" using fst by (simp only: distinct_map)
    ultimately show "x = y" using xy(1,2) by (simp only: inj_on_eq_iff)
  qed
  moreover have "distinct (filter ?P s)" using fst by (simp only: distinct_map)
  ultimately have "distinct (map (\<lambda>x. ch_domain (snd x)) (filter ?P s))" by (simp only: distinct_map)
  then show ?thesis by (simp add: ch_List_def comp_def)
qed

abbreviation ok_name :: "string \<Rightarrow> bool" where
  "ok_name m \<equiv> CHR 0x00 \<notin> set m"

interpretation mem_ch: challenge_store ch_Put ch_Get ch_List ch_Delete ch_inv ok_name
proof unfold_locales
  fix s :: challenge_store and m m' c d e
  assume inv: "ch_inv s" and ok: "ok_name m"
  show "ch_inv (ch_Put m c s)" using inv ok by (rule ch_inv_Put)
  show "c \<in> set (ch_List m s) \<longleftrightarrow> ch_Get m (ch_domain c) s = Some c" using inv ok by (rule ch_List_iff)
  show "distinct (map ch_domain (ch_List m s))" using inv ok by (rule ch_List_distinct)
  assume ok': "ok_name m'"
  show "ch_Get m' d (ch_Put m c s) = (if m' = m \<and> d = ch_domain c then Some c else ch_Get m' d s)"
    using challenge_key_inj [OF ok' ok] by (simp add: ch_Get_def ch_Put_def)
  show "ch_Get m' d (ch_Delete m e s) = (if m' = m \<and> d = e then None else ch_Get m' d s)"
    using challenge_key_inj [OF ok' ok] by (simp add: ch_Get_def ch_Delete_def)
qed (rule ch_inv_Delete)

definition cr_inv :: "challenge_row list \<Rightarrow> bool" where
  "cr_inv rows \<longleftrightarrow> distinct (map cr_key rows)"

lemma cr_key_simps [simp]:
  "cr_key (challenge_values m c) = (m, ch_domain c)" "cr_key (update_challenge x y) = cr_key y"
  by (simp_all add: cr_key_def challenge_values_def update_challenge_def)

lemma scan_values [simp]: "scanChallenge (challenge_values m c) = c"
  by (simp add: scanChallenge_def challenge_values_def)

lemma scan_updated_challenge:
  "cr_key y = (m, ch_domain c) \<Longrightarrow> scanChallenge (update_challenge (challenge_values m c) y) = c"
  by (simp add: scanChallenge_def challenge_values_def update_challenge_def cr_key_def)

lemma cr_inv_Put: "cr_inv rows \<Longrightarrow> cr_inv (sql_Put m c rows)"
proof -
  assume inv: "cr_inv rows"
  let ?x = "challenge_values m c"
  have "map cr_key (map (\<lambda>y. if cr_key y = cr_key ?x then update_challenge ?x y else y) rows) = map cr_key rows"
    by simp
  then show ?thesis using inv by (auto simp: cr_inv_def sql_Put_def Let_def simp del: map_map)
qed

lemma sql_Get_Put:
  "sql_GetChallenge m' d (sql_Put m c rows) = (if m' = m \<and> d = ch_domain c then Some c else sql_GetChallenge m' d rows)"
proof (cases "(m, ch_domain c) \<in> cr_key ` set rows")
  case True
  let ?x = "challenge_values m c"
  let ?f = "\<lambda>y. if cr_key y = cr_key ?x then update_challenge ?x y else y"
  have find_map: "List.find (\<lambda>y. cr_key y = k) (map ?f ys) = map_option ?f (List.find (\<lambda>y. cr_key y = k) ys)" for ys k
    by (induction ys) auto
  have put: "sql_Put m c rows = map ?f rows" using True by (simp add: sql_Put_def Let_def)
  have found: "List.find (\<lambda>y. cr_key y = k) rows = Some y \<Longrightarrow> cr_key y = k" for k y by (auto simp: find_Some_iff)
  show ?thesis
  proof (cases "List.find (\<lambda>y. cr_key y = (m', d)) rows")
    case None
    then have "\<not> (m' = m \<and> d = ch_domain c)" using True by (auto simp: find_None_iff)
    then show ?thesis unfolding put sql_GetChallenge_def find_map None by simp
  next
    case (Some y)
    have y: "cr_key y = (m', d)" by (rule found [OF Some])
    show ?thesis
    proof (cases "m' = m \<and> d = ch_domain c")
      case True
      then show ?thesis using y scan_updated_challenge [of y m c] unfolding put sql_GetChallenge_def find_map Some by simp
    next
      case False
      then show ?thesis using y unfolding put sql_GetChallenge_def find_map Some by auto
    qed
  qed
next
  case False
  then have "sql_Put m c rows = rows @ [challenge_values m c]" by (simp add: sql_Put_def)
  moreover have "List.find P (ys @ [x]) = (case List.find P ys of None \<Rightarrow> if P x then Some x else None | Some y \<Rightarrow> Some y)"
    for P and ys and x :: challenge_row by (induction ys) auto
  moreover have "List.find (\<lambda>y. cr_key y = (m, ch_domain c)) rows = None"
    using False by (auto simp: find_None_iff) (metis image_eqI)
  ultimately show ?thesis by (auto simp: sql_GetChallenge_def split: option.split)
qed

lemma sql_Get_Delete:
  "sql_GetChallenge m' d (sql_DeleteChallenge m e rows) = (if m' = m \<and> d = e then None else sql_GetChallenge m' d rows)"
proof -
  have "List.find (\<lambda>y. cr_key y = k) (filter (\<lambda>x. cr_key x \<noteq> k') ys) =
      (if k = k' then None else List.find (\<lambda>y. cr_key y = k) ys)" for k k' ys
    by (induction ys) auto
  then show ?thesis by (simp add: sql_GetChallenge_def sql_DeleteChallenge_def)
qed

lemma sql_List_iff:
  assumes "cr_inv rows"
  shows "c \<in> set (sql_ListChallenges m rows) \<longleftrightarrow> sql_GetChallenge m (ch_domain c) rows = Some c"
proof -
  have find: "List.find (\<lambda>x. cr_key x = k) rows = Some x \<longleftrightarrow> x \<in> set rows \<and> cr_key x = k" for k x
    using assms by (induction rows) (auto simp: cr_inv_def)
  have "sql_GetChallenge m d rows = Some c \<longleftrightarrow> (\<exists>x \<in> set rows. cr_key x = (m, d) \<and> c = scanChallenge x)" for d
    by (auto simp: sql_GetChallenge_def find)
  then show ?thesis by (auto simp: sql_ListChallenges_def cr_key_def scanChallenge_def)
qed

lemma sql_List_sorted:
  assumes "cr_inv rows"
  shows "sorted (map ch_domain (sql_ListChallenges m rows)) \<and> distinct (map ch_domain (sql_ListChallenges m rows))"
proof -
  let ?rs = "filter (\<lambda>x. cr_module x = m) rows"
  have dom: "map ch_domain (sql_ListChallenges m rows) = map cr_domain (sort_key cr_domain ?rs)"
    by (simp add: sql_ListChallenges_def scanChallenge_def)
  have "distinct (map cr_key ?rs)" using assms by (simp add: cr_inv_def distinct_map_filter)
  then have "distinct (map cr_domain ?rs)" by (auto simp: distinct_map inj_on_def cr_key_def)
  then have "distinct (map cr_domain (sort_key cr_domain ?rs))" by (simp add: distinct_map)
  then show ?thesis unfolding dom by simp
qed

interpretation sql_ch: challenge_store sql_Put sql_GetChallenge sql_ListChallenges sql_DeleteChallenge cr_inv "\<lambda>_. True"
proof unfold_locales
  fix s m d assume "cr_inv s"
  then show "cr_inv (sql_DeleteChallenge m d s)" by (simp add: cr_inv_def sql_DeleteChallenge_def distinct_map_filter)
qed (simp_all add: cr_inv_Put sql_Get_Put sql_Get_Delete sql_List_iff sql_List_sorted)

section \<open>They answer alike\<close>

text \<open>
  C35. After any sequence of writes under module names without NUL, the database answers every
  lookup as the in-memory store does and lists the same challenges, sorted by domain.
\<close>

theorem challenge_stores_agree:
  assumes "\<forall>w \<in> set ws. ok_name (fst w)" "ok_name m"
  shows "sql_GetChallenge m d (fold (challenge_write sql_Put sql_DeleteChallenge) ws []) =
      ch_Get m d (fold (challenge_write ch_Put ch_Delete) ws []) \<and>
    set (sql_ListChallenges m (fold (challenge_write sql_Put sql_DeleteChallenge) ws [])) =
      set (ch_List m (fold (challenge_write ch_Put ch_Delete) ws [])) \<and>
    sorted (map ch_domain (sql_ListChallenges m (fold (challenge_write sql_Put sql_DeleteChallenge) ws [])))"
proof -
  have sql: "cr_inv (fold (challenge_write sql_Put sql_DeleteChallenge) ws []) \<and>
      (\<forall>m d. sql_GetChallenge m d (fold (challenge_write sql_Put sql_DeleteChallenge) ws []) =
        fold map_write ws Map.empty (m, d))"
    using sql_ch.writes_get [of "[]" ws Map.empty] by (simp add: cr_inv_def sql_GetChallenge_def)
  have mem: "ch_inv (fold (challenge_write ch_Put ch_Delete) ws []) \<and>
      (\<forall>m d. ok_name m \<longrightarrow> ch_Get m d (fold (challenge_write ch_Put ch_Delete) ws []) =
        fold map_write ws Map.empty (m, d))"
    using assms(1) by (intro mem_ch.writes_get) (simp_all add: ch_inv_def ch_Get_def)
  show ?thesis using sql mem assms(2) sql_List_sorted
    by (simp add: set_eq_iff sql_List_iff ch_List_iff)
qed

theorem challenge_stores_agree_witness:
  "sql_GetChallenge ''m'' ''d'' (fold (challenge_write sql_Put sql_DeleteChallenge)
     [(''m'', Inl \<lparr>ch_domain = ''d'', ch_token = ''t'', ch_state = StatePending, ch_created_at = 0, ch_verified_at = None\<rparr>),
      (''m'', Inr ''d'')] []) = None"
  using challenge_stores_agree [of "[(''m'', Inl \<lparr>ch_domain = ''d'', ch_token = ''t'', ch_state = StatePending,
      ch_created_at = 0, ch_verified_at = None\<rparr>), (''m'', Inr ''d'')]" "''m''" "''d''"]
  by (simp add: ch_Get_def ch_Put_def ch_Delete_def)

end
