(* ===== verification/Ulid.thy ===== *)
theory Ulid
  imports GoTime "HOL-Library.Word"
begin

text \<open>
  The id generator (\<open>store/ulid.go\<close>): 48 bits of milliseconds and 80 random bits, written as
  26 symbols of Crockford's base 32 with the shifts the code uses on two 64-bit words. The
  random bytes are an argument.
\<close>

unbundle bit_operations_syntax

section \<open>Definitions\<close>

definition crockford :: string where
  "crockford = ''0123456789ABCDEFGHJKMNPQRSTVWXYZ''"

definition unix_milli :: "time \<Rightarrow> int" where
  "unix_milli t = (t - unix_epoch) div 1000000"

text \<open>\<open>byte(ms >> n)\<close>.\<close>

definition byte_at :: "64 word \<Rightarrow> nat \<Rightarrow> 8 word" where
  "byte_at ms n = ucast (drop_bit n ms)"

definition time_bytes :: "time \<Rightarrow> 8 word list" where
  "time_bytes t = map (byte_at (word_of_int (unix_milli t))) [40, 32, 24, 16, 8, 0]"

definition be_uint64 :: "8 word list \<Rightarrow> 64 word" where
  "be_uint64 bs = foldl (\<lambda>a b. push_bit 8 a OR ucast b) 0 bs"

fun crockford_loop :: "nat \<Rightarrow> 64 word \<Rightarrow> 64 word \<Rightarrow> string \<Rightarrow> string" where
  "crockford_loop 0 hi lo acc = acc"
| "crockford_loop (Suc n) hi lo acc =
     crockford_loop n (drop_bit 5 hi) (drop_bit 5 lo OR push_bit 59 hi)
       (crockford ! unat (lo AND 0x1f) # acc)"

definition encodeCrockford :: "8 word list \<Rightarrow> string" where
  "encodeCrockford b = crockford_loop 26 (be_uint64 (take 8 b)) (be_uint64 (drop 8 b)) []"

text \<open>\<open>rnd\<close> is what \<open>rand.Read\<close> fills the last ten bytes with; \<open>None\<close> when it fails.\<close>

definition NewULID :: "8 word list option \<Rightarrow> time \<Rightarrow> string option" where
  "NewULID rnd t = map_option (\<lambda>r. encodeCrockford (time_bytes t @ r)) rnd"

section \<open>Words as numbers\<close>

definition be_value :: "8 word list \<Rightarrow> nat" where
  "be_value bs = foldl (\<lambda>a b. a * 256 + unat b) 0 bs"

lemma be_value_snoc: "be_value (bs @ [b]) = be_value bs * 256 + unat b"
  by (simp add: be_value_def)

lemma be_value_less: "be_value bs < 256 ^ length bs"
proof (induction bs rule: rev_induct)
  case (snoc b bs)
  have "unat b < 256" using unsigned_less [of b] by simp
  then show ?case using snoc by (simp add: be_value_snoc)
qed (simp add: be_value_def)

lemma be_value_append: "be_value (as @ bs) = be_value as * 256 ^ length bs + be_value bs"
  by (induction bs rule: rev_induct) (simp_all add: be_value_def algebra_simps)

lemma unat_push: "unat (push_bit n (a :: 64 word)) = unat a * 2 ^ n mod 2 ^ 64"
proof -
  have "unat (push_bit n a) = take_bit LENGTH(64) (push_bit n (unat a))" by (rule unsigned_push_bit_eq)
  also have "\<dots> = unat a * 2 ^ n mod 2 ^ 64" by (simp add: take_bit_eq_mod push_bit_eq_mult)
  finally show ?thesis .
qed

lemma unat_drop: "unat (drop_bit n (a :: 64 word)) = unat a div 2 ^ n"
proof -
  have "unat (drop_bit n a) = drop_bit n (take_bit LENGTH(64) (unat a))" by (rule unsigned_drop_bit_eq)
  also have "take_bit LENGTH(64) (unat a) = unat a" using unsigned_less [of a, where 'a = nat] by (simp add: take_bit_nat_eq_self)
  finally show ?thesis by (simp add: drop_bit_eq_div)
qed

lemma push_or_unat:
  fixes a :: "64 word" and b :: "8 word"
  assumes "unat a < 2 ^ 56"
  shows "unat (push_bit 8 a OR ucast b) = unat a * 256 + unat b"
proof -
  have "push_bit 8 a AND ucast b = 0"
    by (rule bit_word_eqI) (auto simp: bit_simps dest: bit_imp_le_length)
  then have "push_bit 8 a OR ucast b = push_bit 8 a + ucast b" by (simp add: disjunctive_add_eq_or)
  moreover have "unat (push_bit 8 a) = unat a * 256"
    unfolding unat_push using assms by simp
  moreover have b: "unat b < 256" using unsigned_less [of b, where 'a = nat] by simp
  moreover have "unat (ucast b :: 64 word) = unat b" using b by (simp add: unsigned_ucast_eq take_bit_eq_mod)
  ultimately show ?thesis using assms by (simp add: unat_word_ariths)
qed

lemma be_uint64_value: "length bs \<le> 8 \<Longrightarrow> unat (be_uint64 bs) = be_value bs"
proof (induction bs rule: rev_induct)
  case (snoc b bs)
  have "be_value bs < 256 ^ 7"
    using be_value_less [of bs] snoc.prems power_increasing [of "length bs" 7 "256 :: nat"] by simp
  then have "unat (be_uint64 bs) < 2 ^ 56" using snoc by simp
  then show ?case using snoc push_or_unat [of "be_uint64 bs" b]
    by (simp add: be_value_snoc be_uint64_def)
qed (simp add: be_value_def be_uint64_def)

lemma shift_unat:
  fixes hi lo :: "64 word"
  shows "unat (drop_bit 5 hi) * 2 ^ 64 + unat (drop_bit 5 lo OR push_bit 59 hi) =
    (unat hi * 2 ^ 64 + unat lo) div 32"
proof -
  have "drop_bit 5 lo AND push_bit 59 hi = 0"
    by (rule bit_word_eqI) (auto simp: bit_simps dest: bit_imp_le_length)
  then have "drop_bit 5 lo OR push_bit 59 hi = drop_bit 5 lo + push_bit 59 hi" by (simp add: disjunctive_add_eq_or)
  moreover have "unat (push_bit 59 hi) = unat hi mod 32 * 2 ^ 59"
    unfolding unat_push using mult_mod_right [of "2 ^ 59" "unat hi" 32] by (simp add: mult.commute)
  moreover have "unat (drop_bit 5 lo) = unat lo div 32" "unat (drop_bit 5 hi) = unat hi div 32"
    unfolding unat_drop by simp_all
  moreover have "unat lo div 32 < 2 ^ 59" using unsigned_less [of lo, where 'a = nat] by (simp add: less_mult_imp_div_less)
  moreover have "unat hi mod 32 * 2 ^ 59 \<le> 31 * 2 ^ 59" by (intro mult_right_mono) auto
  ultimately have "unat (drop_bit 5 lo OR push_bit 59 hi) = unat lo div 32 + unat hi mod 32 * 2 ^ 59"
    by (simp add: unat_word_ariths)
  moreover have "(unat hi * 2 ^ 64 + unat lo) div 32 = unat hi * 2 ^ 59 + unat lo div 32"
    using div_mult_self1 [of 32 "unat lo" "unat hi * 2 ^ 59"] by (simp add: ac_simps)
  moreover have "unat hi * 2 ^ 59 = unat hi div 32 * 2 ^ 64 + unat hi mod 32 * 2 ^ 59"
  proof -
    have "unat hi * 2 ^ 59 = (unat hi div 32 * 32 + unat hi mod 32) * 2 ^ 59" by (simp only: div_mult_mod_eq)
    then show ?thesis by (simp only: add_mult_distrib) simp
  qed
  ultimately show ?thesis using \<open>unat (drop_bit 5 hi) = unat hi div 32\<close> by simp
qed

section \<open>The symbols are the digits of the number\<close>

fun digits32 :: "nat \<Rightarrow> nat \<Rightarrow> nat list" where
  "digits32 0 v = []"
| "digits32 (Suc n) v = digits32 n (v div 32) @ [v mod 32]"

lemma crockford_loop_digits:
  "crockford_loop n hi lo acc = map ((!) crockford) (digits32 n (unat hi * 2 ^ 64 + unat lo)) @ acc"
proof (induction n arbitrary: hi lo acc)
  case (Suc n)
  have "lo AND 0x1f = lo mod 32"
    using take_bit_eq_mask [of 5 lo] by (simp add: mask_eq_decr_exp take_bit_eq_mod)
  then have "unat (lo AND 0x1f) = unat lo mod 32" by (simp only: unat_mod) simp
  also have "\<dots> = (unat hi * 2 ^ 64 + unat lo) mod 32" by (simp add: mod_add_left_eq [symmetric])
  finally have last: "unat (lo AND 0x1f) = (unat hi * 2 ^ 64 + unat lo) mod 32" .
  show ?case
    by (simp only: crockford_loop.simps digits32.simps Suc shift_unat last map_append list.map append.simps append_assoc)
qed simp

lemma encodeCrockford_digits:
  assumes "length b = 16"
  shows "encodeCrockford b = map ((!) crockford) (digits32 26 (be_value b))"
proof -
  have "be_value b = be_value (take 8 b @ drop 8 b)" by simp
  also have "\<dots> = be_value (take 8 b) * 2 ^ 64 + be_value (drop 8 b)"
    using assms by (simp only: be_value_append) simp
  finally show ?thesis using assms by (simp add: encodeCrockford_def crockford_loop_digits be_uint64_value)
qed

lemma length_digits32 [simp]: "length (digits32 n v) = n"
  by (induction n arbitrary: v) simp_all

lemma digits32_bound: "d \<in> set (digits32 n v) \<Longrightarrow> d < 32"
  by (induction n arbitrary: v) auto

lemma less_snoc:
  fixes xs ys :: "'a :: linorder list"
  shows "length xs = length ys \<Longrightarrow> xs @ [x] < ys @ [y] \<longleftrightarrow> xs < ys \<or> xs = ys \<and> x < y"
  by (induction xs ys rule: list_induct2) auto

lemma digits32_inj: "v < 32 ^ n \<Longrightarrow> w < 32 ^ n \<Longrightarrow> digits32 n v = digits32 n w \<longleftrightarrow> v = w"
proof (induction n arbitrary: v w)
  case (Suc n)
  then have "v div 32 < 32 ^ n" "w div 32 < 32 ^ n" by (simp_all add: less_mult_imp_div_less mult.commute)
  then have "digits32 (Suc n) v = digits32 (Suc n) w \<longleftrightarrow> v div 32 = w div 32 \<and> v mod 32 = w mod 32"
    using Suc.IH by simp
  then show ?case by (metis div_mult_mod_eq)
qed simp

lemma digits32_less: "v < 32 ^ n \<Longrightarrow> w < 32 ^ n \<Longrightarrow> digits32 n v < digits32 n w \<longleftrightarrow> v < w"
proof (induction n arbitrary: v w)
  case (Suc n)
  then have b: "v div 32 < 32 ^ n" "w div 32 < 32 ^ n" by (simp_all add: less_mult_imp_div_less mult.commute)
  have "digits32 (Suc n) v < digits32 (Suc n) w \<longleftrightarrow> v div 32 < w div 32 \<or> v div 32 = w div 32 \<and> v mod 32 < w mod 32"
    by (simp only: digits32.simps less_snoc length_digits32 Suc.IH [OF b] digits32_inj [OF b])
  also have "\<dots> \<longleftrightarrow> v div 32 * 32 + v mod 32 < w div 32 * 32 + w mod 32"
    using mod_less_divisor [of 32 v] mod_less_divisor [of 32 w]
    by (cases "v div 32" "w div 32" rule: linorder_cases) linarith+
  finally show ?case by simp
qed simp

lemma map_less_strict:
  fixes f :: "nat \<Rightarrow> char"
  assumes "\<And>a b. a < 32 \<Longrightarrow> b < 32 \<Longrightarrow> f a < f b \<longleftrightarrow> a < b" "length xs = length ys"
    and "\<forall>d \<in> set xs. d < 32" "\<forall>d \<in> set ys. d < 32"
  shows "map f xs < map f ys \<longleftrightarrow> xs < ys"
proof -
  have inj: "f a = f b \<longleftrightarrow> a = b" if "a < 32" "b < 32" for a b
    using assms(1) [OF that] assms(1) [OF that(2,1)] by (metis linorder_neq_iff)
  from assms(2-4) show ?thesis by (induction xs ys rule: list_induct2) (auto simp: assms(1) inj)
qed

lemma crockford_mono: "a < 32 \<Longrightarrow> b < 32 \<Longrightarrow> crockford ! a < crockford ! b \<longleftrightarrow> a < b"
proof -
  have "\<forall>a \<in> {..<32}. \<forall>b \<in> {..<32}. crockford ! a < crockford ! b \<longleftrightarrow> a < b" by code_simp
  then show "a < 32 \<Longrightarrow> b < 32 \<Longrightarrow> crockford ! a < crockford ! b \<longleftrightarrow> a < b" by blast
qed

lemma encode_less:
  assumes "length a = 16" "length b = 16"
  shows "encodeCrockford a < encodeCrockford b \<longleftrightarrow> be_value a < be_value b"
    "encodeCrockford a = encodeCrockford b \<longleftrightarrow> be_value a = be_value b"
proof -
  have bound: "be_value x < 32 ^ 26" if "length x = 16" for x
    using be_value_less [of x] that by simp
  note ab = bound [OF assms(1)] bound [OF assms(2)]
  have less: "encodeCrockford x < encodeCrockford y \<longleftrightarrow> be_value x < be_value y" if "length x = 16" "length y = 16" for x y
    unfolding encodeCrockford_digits [OF that(1)] encodeCrockford_digits [OF that(2)]
    using map_less_strict [OF crockford_mono, of "digits32 26 (be_value x)" "digits32 26 (be_value y)"]
      digits32_bound digits32_less [OF bound [OF that(1)] bound [OF that(2)]] by simp
  show "encodeCrockford a < encodeCrockford b \<longleftrightarrow> be_value a < be_value b" using less assms by simp
  show "encodeCrockford a = encodeCrockford b \<longleftrightarrow> be_value a = be_value b"
    using less [OF assms] less [OF assms(2,1)] by (metis linorder_neq_iff)
qed

lemma length_encode: "length b = 16 \<Longrightarrow> length (encodeCrockford b) = 26"
  by (simp add: encodeCrockford_digits)

lemma be_value_inj: "length as = length bs \<Longrightarrow> be_value as = be_value bs \<Longrightarrow> as = bs"
proof (induction as arbitrary: bs rule: rev_induct)
  case (snoc a as)
  obtain b bs' where bs: "bs = bs' @ [b]" using snoc.prems(1) by (cases bs rule: rev_cases) auto
  have "unat a < 256" "unat b < 256"
    using unsigned_less [of a, where 'a = nat] unsigned_less [of b, where 'a = nat] by simp_all
  moreover have "be_value as * 256 + unat a = be_value bs' * 256 + unat b" using snoc.prems(2) bs by (simp add: be_value_snoc)
  ultimately have "be_value as = be_value bs'" by linarith
  then show ?case using snoc bs by (auto simp: be_value_snoc intro: unsigned_word_eqI)
qed simp

section \<open>Time\<close>

lemma byte_at_value: "unat (byte_at w n) = unat w div 2 ^ n mod 256"
proof -
  have "unat (byte_at w n) = take_bit LENGTH(8) (unat (drop_bit n w))"
    unfolding byte_at_def by (rule unsigned_ucast_eq)
  then show ?thesis by (simp add: unat_drop take_bit_eq_mod)
qed

lemma time_bytes_value:
  assumes "0 \<le> unix_milli t" "unix_milli t < 2 ^ 48"
  shows "be_value (time_bytes t) = nat (unix_milli t)"
proof -
  define w :: "64 word" where "w = word_of_int (unix_milli t)"
  define m where "m = unat w"
  have m: "m = nat (unix_milli t)"
    using assms by (simp add: m_def w_def unsigned_of_int take_bit_int_eq_self)
  have "m < 2 ^ 48" using assms m by simp
  have step: "m div 2 ^ (n + 8) * 256 + m div 2 ^ n mod 256 = m div 2 ^ n" for n
  proof -
    have "m div 2 ^ (n + 8) = m div 2 ^ n div 256" by (simp add: power_add div_mult2_eq)
    then show ?thesis by simp
  qed
  have "be_value (time_bytes t) =
      ((((m div 2 ^ 40 mod 256 * 256 + m div 2 ^ 32 mod 256) * 256 + m div 2 ^ 24 mod 256) * 256 +
        m div 2 ^ 16 mod 256) * 256 + m div 2 ^ 8 mod 256) * 256 + m div 2 ^ 0 mod 256"
    by (simp only: be_value_def time_bytes_def w_def [symmetric] list.map foldl_Cons foldl_Nil byte_at_value m_def [symmetric]
        mult_0 add_0)
  also have "m div 2 ^ 40 mod 256 = m div 2 ^ 40" using \<open>m < 2 ^ 48\<close> by (simp add: less_mult_imp_div_less)
  also have "((((m div 2 ^ 40 * 256 + m div 2 ^ 32 mod 256) * 256 + m div 2 ^ 24 mod 256) * 256 +
        m div 2 ^ 16 mod 256) * 256 + m div 2 ^ 8 mod 256) * 256 + m div 2 ^ 0 mod 256 = m"
    using step [of 32] step [of 24] step [of 16] step [of 8] step [of 0] by simp
  finally show ?thesis using m by simp
qed

text \<open>
  C34. For instants from 1970 on, while milliseconds fit in 48 bits, ids have 26 symbols and
  sort as their instants do, by the millisecond; and two ids are equal only when the
  millisecond and the 80 random bits are.
\<close>

theorem ulids_sort_by_time:
  assumes "NewULID (Some r) t = Some i" "NewULID (Some r') t' = Some i'" "length r = 10" "length r' = 10"
    and "0 \<le> unix_milli t" "unix_milli t < 2 ^ 48" "0 \<le> unix_milli t'" "unix_milli t' < 2 ^ 48"
  shows "length i = 26 \<and> (unix_milli t < unix_milli t' \<longrightarrow> i < i') \<and>
    (i = i' \<longleftrightarrow> unix_milli t = unix_milli t' \<and> r = r')"
proof -
  have ids: "i = encodeCrockford (time_bytes t @ r)" "i' = encodeCrockford (time_bytes t' @ r')"
    using assms(1,2) by (simp_all add: NewULID_def)
  have len: "length (time_bytes t @ r) = 16" "length (time_bytes t' @ r') = 16"
    using assms(3,4) by (simp_all add: time_bytes_def)
  have v: "be_value (time_bytes t @ r) = nat (unix_milli t) * 256 ^ 10 + be_value r"
    "be_value (time_bytes t' @ r') = nat (unix_milli t') * 256 ^ 10 + be_value r'"
    using time_bytes_value assms(3-8) by (simp_all only: be_value_append)
  have b: "be_value r < 256 ^ 10" "be_value r' < 256 ^ 10"
    using be_value_less [of r] be_value_less [of r'] assms(3,4) by simp_all
  have "i < i'" if "unix_milli t < unix_milli t'"
  proof -
    have "nat (unix_milli t) + 1 \<le> nat (unix_milli t')" using that assms(5) by simp
    then have "(nat (unix_milli t) + 1) * 256 ^ 10 \<le> nat (unix_milli t') * 256 ^ 10" by (rule mult_right_mono) simp
    then show ?thesis unfolding ids encode_less(1) [OF len] v using b(1) by simp
  qed
  moreover have "i = i' \<longleftrightarrow> unix_milli t = unix_milli t' \<and> r = r'"
  proof
    assume "i = i'"
    then have eq: "nat (unix_milli t) * 256 ^ 10 + be_value r = nat (unix_milli t') * 256 ^ 10 + be_value r'"
      unfolding ids encode_less(2) [OF len] v .
    then have "nat (unix_milli t) = nat (unix_milli t')" using b by simp
    then show "unix_milli t = unix_milli t' \<and> r = r'"
      using eq be_value_inj [of r r'] assms(3-8) by auto
  next
    assume "unix_milli t = unix_milli t' \<and> r = r'"
    then show "i = i'" unfolding ids by (simp add: time_bytes_def)
  qed
  moreover have "length i = 26" unfolding ids using length_encode [OF len(1)] .
  ultimately show ?thesis by blast
qed

theorem ulids_sort_by_time_witness:
  "the (NewULID (Some (replicate 10 255)) (unix_epoch + 1700000000000 * 1000000)) <
     the (NewULID (Some (replicate 10 0)) (unix_epoch + 1700000000001 * 1000000))"
  using ulids_sort_by_time [of "replicate 10 255" "unix_epoch + 1700000000000 * 1000000" _
      "replicate 10 0" "unix_epoch + 1700000000001 * 1000000"]
  by (simp add: NewULID_def unix_milli_def)

lemma ulid_example: "encodeCrockford (replicate 16 255) = ''7ZZZZZZZZZZZZZZZZZZZZZZZZZ''"
  by code_simp

end
