(* ===== verification/Runes.thy ===== *)
theory Runes
  imports Json_Roundtrip
begin

text \<open>
  The runes of a string: decoding all of it, and how many runes encoding, replacing invalid
  bytes and concatenation give.
\<close>

text \<open>\<open>[]rune(s)\<close>: every byte that is not part of valid UTF-8 is the replacement rune.\<close>

function runes :: "string \<Rightarrow> nat list" where
  "runes s = (case s of [] \<Rightarrow> []
     | c # cs \<Rightarrow> fst (decode_rune (c # cs)) # runes (drop (snd (decode_rune (c # cs))) (c # cs)))"
  by pat_completeness auto
termination
proof (relation "measure length")
  fix s :: string and c cs
  assume "s = c # cs"
  then have "0 < snd (decode_rune (c # cs))" by (intro decode_rune_width_pos) simp
  then show "(drop (snd (decode_rune (c # cs))) (c # cs), s) \<in> measure length"
    using \<open>s = c # cs\<close> by simp
qed auto

declare runes.simps [simp del]

section \<open>Counting runes\<close>

definition scalar :: "nat \<Rightarrow> bool" where
  "scalar r \<longleftrightarrow> r < 55296 \<or> 57344 \<le> r \<and> r < 1114112"

text \<open>The four shapes of a sequence, with what decoding makes of them.\<close>

lemma decode_rune_shapes:
  "(of_char c :: nat) < 128 \<Longrightarrow> decode_rune (c # cs) = (of_char c, 1)"
  "194 \<le> (of_char c :: nat) \<Longrightarrow> (of_char c :: nat) \<le> 223 \<Longrightarrow> decode_rune (c # c1 # cs) =
     (if byte_in c1 128 191 then (of_char c mod 32 * 64 + of_char c1 mod 64, 2) else (rune_error, 1))"
  "224 \<le> (of_char c :: nat) \<Longrightarrow> (of_char c :: nat) \<le> 239 \<Longrightarrow> decode_rune (c # c1 # c2 # cs) =
     (if byte_in c1 (if (of_char c :: nat) = 224 then 160 else 128) (if (of_char c :: nat) = 237 then 159 else 191) \<and>
         byte_in c2 128 191
      then (of_char c mod 16 * 4096 + of_char c1 mod 64 * 64 + of_char c2 mod 64, 3) else (rune_error, 1))"
  "240 \<le> (of_char c :: nat) \<Longrightarrow> (of_char c :: nat) \<le> 244 \<Longrightarrow> decode_rune (c # c1 # c2 # c3 # cs) =
     (if byte_in c1 (if (of_char c :: nat) = 240 then 144 else 128) (if (of_char c :: nat) = 244 then 143 else 191) \<and>
         byte_in c2 128 191 \<and> byte_in c3 128 191
      then (of_char c mod 8 * 262144 + of_char c1 mod 64 * 4096 + of_char c2 mod 64 * 64 + of_char c3 mod 64, 4)
      else (rune_error, 1))"
  by (simp_all add: decode_rune_def Let_def)

lemma decode_rune_short:
  "194 \<le> (of_char c :: nat) \<Longrightarrow> decode_rune [c] = (rune_error, 1)"
  "224 \<le> (of_char c :: nat) \<Longrightarrow> decode_rune [c, c1] = (rune_error, 1)"
  "240 \<le> (of_char c :: nat) \<Longrightarrow> decode_rune [c, c1, c2] = (rune_error, 1)"
  by (simp_all add: decode_rune_def Let_def)

lemma decode_rune_bad:
  assumes "\<not> (of_char c :: nat) < 128" "\<not> (194 \<le> (of_char c :: nat) \<and> (of_char c :: nat) \<le> 244)"
  shows "decode_rune (c # cs) = (rune_error, 1)"
proof -
  have "\<not> (194 \<le> (of_char c :: nat) \<and> (of_char c :: nat) \<le> 223)" "\<not> (224 \<le> (of_char c :: nat) \<and> (of_char c :: nat) \<le> 239)"
    "\<not> (240 \<le> (of_char c :: nat) \<and> (of_char c :: nat) \<le> 244)" using assms(2) by linarith+
  then show ?thesis unfolding decode_rune_def list.case Let_def if_not_P [OF assms(1)] by (simp only: if_not_P if_False)
qed

lemma scalar_error: "scalar rune_error"
  by (simp add: scalar_def rune_error_def)

lemma scalar3:
  fixes n a b :: nat
  assumes "224 \<le> n" "n \<le> 239" "a < 64" "b < 64" "n = 237 \<Longrightarrow> a < 32"
  shows "scalar (n mod 16 * 4096 + a * 64 + b)"
proof -
  obtain k where k: "n = 224 + k" "k \<le> 15" using assms(1,2) by (intro that [of "n - 224"]) simp_all
  then have n: "n mod 16 = k" using mod_mult_self3 [of 14 16 k] by simp
  consider "k < 13" | "k = 13" "a < 32" | "13 < k" using k(1) assms(5) by force
  then show ?thesis unfolding n scalar_def using k(2) assms(3,4) by cases linarith+
qed

lemma scalar4:
  fixes n a b c :: nat
  assumes "240 \<le> n" "n \<le> 244" "a < 64" "b < 64" "c < 64" "n = 240 \<Longrightarrow> 16 \<le> a" "n = 244 \<Longrightarrow> a < 16"
  shows "scalar (n mod 8 * 262144 + a * 4096 + b * 64 + c)"
proof -
  obtain k where k: "n = 240 + k" "k \<le> 4" using assms(1,2) by (intro that [of "n - 240"]) simp_all
  then have n: "n mod 8 = k" using mod_mult_self3 [of 30 8 k] by simp
  consider "k = 0" "16 \<le> a" | "0 < k" "k < 4" | "k = 4" "a < 16" using k assms(6,7) by force
  then show ?thesis unfolding n scalar_def using assms(3-5) by cases linarith+
qed

lemma byte_in_mod: "byte_in c lo hi \<Longrightarrow> 128 \<le> lo \<Longrightarrow> hi \<le> 191 \<Longrightarrow> lo - 128 \<le> of_char c mod 64 \<and> of_char c mod 64 \<le> hi - (128 :: nat)"
  using continuation_mod [of "of_char c"] by (auto simp: byte_in_def Let_def diff_le_mono)

lemma decode_rune_scalar: "scalar (fst (decode_rune s))"
proof (cases s)
  case Nil
  then show ?thesis using scalar_error by (simp add: decode_rune_def)
next
  case (Cons c cs)
  let ?n = "of_char c :: nat"
  consider "?n < 128" | "194 \<le> ?n" "?n \<le> 223" | "224 \<le> ?n" "?n \<le> 239" | "240 \<le> ?n" "?n \<le> 244"
    | "\<not> ?n < 128" "\<not> (194 \<le> ?n \<and> ?n \<le> 244)" by linarith
  then show ?thesis
  proof cases
    case 1
    then show ?thesis using Cons decode_rune_shapes(1) by (simp add: scalar_def)
  next
    case 2
    show ?thesis
    proof (cases cs)
      case (Cons c1 cs1)
      have "?n mod 32 \<le> 31" "(of_char c1 :: nat) mod 64 \<le> 63" by simp_all
      then have "scalar (?n mod 32 * 64 + of_char c1 mod 64)" unfolding scalar_def by linarith
      then show ?thesis using 2 Cons \<open>s = c # cs\<close> decode_rune_shapes(2) [of c c1 cs1] scalar_error by simp
    qed (use 2 Cons decode_rune_short(1) scalar_error in simp)
  next
    case 3
    consider "cs = []" | c1 where "cs = [c1]" | c1 c2 cs1 where "cs = c1 # c2 # cs1" by (metis neq_Nil_conv)
    then show ?thesis
    proof cases
      case cs: (3 c1 c2 cs1)
      have "scalar (?n mod 16 * 4096 + of_char c1 mod 64 * 64 + of_char c2 mod 64)"
        if "byte_in c1 (if ?n = 224 then 160 else 128) (if ?n = 237 then 159 else 191)"
        using 3 byte_in_mod [OF that] by (intro scalar3) (auto split: if_splits)
      then show ?thesis using 3 Cons cs decode_rune_shapes(3) [of c c1 c2 cs1] scalar_error by simp
    qed (use 3 Cons decode_rune_short scalar_error in simp_all)
  next
    case 4
    consider "cs = []" | c1 where "cs = [c1]" | c1 c2 where "cs = [c1, c2]" | c1 c2 c3 cs1 where "cs = c1 # c2 # c3 # cs1"
      by (metis neq_Nil_conv)
    then show ?thesis
    proof cases
      case cs: (4 c1 c2 c3 cs1)
      have "scalar (?n mod 8 * 262144 + of_char c1 mod 64 * 4096 + of_char c2 mod 64 * 64 + of_char c3 mod 64)"
        if "byte_in c1 (if ?n = 240 then 144 else 128) (if ?n = 244 then 143 else 191)"
        using 4 byte_in_mod [OF that] by (intro scalar4) (auto split: if_splits)
      then show ?thesis using 4 Cons cs decode_rune_shapes(4) [of c c1 c2 c3 cs1] scalar_error by simp
    qed (use 4 Cons decode_rune_short scalar_error in simp_all)
  next
    case 5
    then show ?thesis using Cons decode_rune_bad [of c cs] scalar_error by simp
  qed
qed

text \<open>The digits of a rune in base 64, as its encoding has them.\<close>

lemma base64_digits:
  fixes r :: nat
  shows "r = 64 * (r div 64) + r mod 64" "r div 64 = 64 * (r div 4096) + r div 64 mod 64"
    "r div 4096 = 64 * (r div 262144) + r div 4096 mod 64"
    "r mod 64 < 64" "r div 64 mod 64 < 64" "r div 4096 mod 64 < 64"
proof -
  have "r div 4096 = r div 64 div 64" "r div 262144 = r div 4096 div 64" by (simp_all add: div_mult2_eq [symmetric])
  then show "r div 64 = 64 * (r div 4096) + r div 64 mod 64" "r div 4096 = 64 * (r div 262144) + r div 4096 mod 64"
    by simp_all
qed simp_all

lemma of_char_of_small: "n < 256 \<Longrightarrow> (of_char (char_of (n :: nat) :: char) :: nat) = n"
  by simp

lemma decode_encode_rune:
  assumes "scalar r"
  shows "snd (decode_rune (encode_rune r @ t)) = length (encode_rune r)"
proof -
  define p q s where "p = r div 64" "q = r div 4096" "s = r div 262144"
  define a b c where "a = r mod 64" "b = p mod 64" "c = q mod 64"
  have r: "r = 64 * p + a" "p = 64 * q + b" "q = 64 * s + c" "a < 64" "b < 64" "c < 64"
    unfolding p_q_s_def a_b_c_def by (fact base64_digits)+
  consider "r < 128" | "128 \<le> r" "r < 2048" | "2048 \<le> r" "r < 65536" | "65536 \<le> r" "r < 1114112"
    using assms by (auto simp: scalar_def) linarith+
  then show ?thesis
  proof cases
    case 1
    then show ?thesis using decode_rune_shapes(1) [of "char_of r" t] by (simp add: encode_rune_def)
  next
    case 2
    then have "2 \<le> p" "p < 32" using r by linarith+
    moreover have "encode_rune r = [char_of (192 + p), char_of (128 + a)]"
      using 2 by (simp add: encode_rune_def p_q_s_def a_b_c_def)
    ultimately show ?thesis using r decode_rune_shapes(2) [of "char_of (192 + p)" "char_of (128 + a)" t]
      by (simp add: of_char_of_small byte_in_def)
  next
    case 3
    have b: "q < 16" "b \<le> 63" "a \<le> 63" using 3 r by linarith+
    moreover have "32 \<le> b" if "q = 0" using 3 that r by linarith
    moreover have "b < 32" if "q = 13" using that r assms unfolding scalar_def by linarith
    ultimately have "byte_in (char_of (128 + b)) (if 224 + q = 224 then 160 else 128) (if 224 + q = 237 then 159 else 191)"
      "byte_in (char_of (128 + a)) 128 191" by (auto simp: byte_in_def)
    moreover have "encode_rune r = [char_of (224 + q), char_of (128 + b), char_of (128 + a)]"
      using 3 by (simp add: encode_rune_def p_q_s_def a_b_c_def)
    ultimately show ?thesis using b decode_rune_shapes(3) [of "char_of (224 + q)" "char_of (128 + b)" "char_of (128 + a)" t]
      by (simp add: of_char_of_small)
  next
    case 4
    have b: "s \<le> 4" "c \<le> 63" "b \<le> 63" "a \<le> 63" using 4 r by linarith+
    moreover have "16 \<le> c" if "s = 0" using 4 that r by linarith
    moreover have "c < 16" if "s = 4" using 4 that r by linarith
    ultimately have "byte_in (char_of (128 + c)) (if 240 + s = 240 then 144 else 128) (if 240 + s = 244 then 143 else 191)"
      "byte_in (char_of (128 + b)) 128 191" "byte_in (char_of (128 + a)) 128 191" by (auto simp: byte_in_def)
    moreover have "encode_rune r = [char_of (240 + s), char_of (128 + c), char_of (128 + b), char_of (128 + a)]"
      using 4 by (simp add: encode_rune_def p_q_s_def a_b_c_def)
    ultimately show ?thesis
      using b decode_rune_shapes(4) [of "char_of (240 + s)" "char_of (128 + c)" "char_of (128 + b)" "char_of (128 + a)" t]
      by (simp add: of_char_of_small)
  qed
qed

lemma encode_rune_not_Nil [simp]: "encode_rune r \<noteq> []"
  by (simp add: encode_rune_def)

lemma length_runes_step: "s \<noteq> [] \<Longrightarrow> length (runes s) = Suc (length (runes (drop (snd (decode_rune s)) s)))"
  by (cases s) (simp_all add: runes.simps)

lemma runes_Nil [simp]: "runes [] = []"
  by (simp add: runes.simps)

lemma length_runes_encode:
  assumes "scalar r"
  shows "length (runes (encode_rune r @ t)) = Suc (length (runes t))"
  using length_runes_step [of "encode_rune r @ t"] decode_encode_rune [OF assms, of t] by simp

lemma length_runes_encode_all:
  "list_all scalar rs \<Longrightarrow> length (runes (concat (map encode_rune rs) @ t)) = length rs + length (runes t)"
  by (induction rs) (simp_all add: length_runes_encode)

lemma length_runes_le: "length (runes s) \<le> length s"
proof (induction s rule: length_induct)
  case (1 s)
  show ?case
  proof (cases "s = []")
    case False
    then have "0 < snd (decode_rune s)" by (rule decode_rune_width_pos)
    then have "length (drop (snd (decode_rune s)) s) < length s" using False by simp
    then show ?thesis using 1 length_runes_step [OF False] by fastforce
  qed simp
qed

lemma runes_scalar: "list_all scalar (runes s)"
proof (induction s rule: runes.induct)
  case (1 s)
  show ?case
  proof (cases s)
    case (Cons c cs)
    have "runes s = fst (decode_rune (c # cs)) # runes (drop (snd (decode_rune (c # cs))) (c # cs))"
      using Cons by (subst runes.simps) simp
    moreover have "scalar (fst (decode_rune (c # cs)))" by (rule decode_rune_scalar)
    ultimately show ?thesis using "1" [OF Cons] by (simp only: list.pred_inject simp_thms)
  qed simp
qed

text \<open>Replacing invalid bytes keeps the number of runes.\<close>

lemma length_runes_fix: "length (runes (utf8_fix s)) = length (runes s)"
proof (induction s rule: utf8_fix.induct)
  case (1 s)
  show ?case
  proof (cases s)
    case Nil
    then show ?thesis by (simp add: utf8_fix.simps)
  next
    case (Cons c cs)
    show ?thesis
    proof (cases "is_ascii c")
      case True
      have "length (runes (c # t)) = Suc (length (runes t))" for t
        using length_runes_step [of "c # t"] decode_rune_ascii [OF True, of t] by simp
      moreover have "utf8_fix s = c # utf8_fix cs" using Cons True by (subst utf8_fix.simps) simp
      ultimately show ?thesis using "1.IH"(1) [OF Cons True] Cons by simp
    next
      case False
      obtain r w where d: "decode_rune (c # cs) = (r, w)" by fastforce
      let ?x = "if r = rune_error \<and> w = 1 then encode_rune rune_error else take w (c # cs)"
      have fix_s: "utf8_fix s = ?x @ utf8_fix (drop w (c # cs))" using Cons False d by (subst utf8_fix.simps) simp
      have "length (runes (?x @ t)) = Suc (length (runes t))" for t
      proof (cases "r = rune_error \<and> w = 1")
        case True
        then show ?thesis using length_runes_encode [of rune_error t] by (simp add: scalar_def rune_error_def)
      next
        case good: False
        note m = decode_rune_multi [OF False d good, of t]
        then show ?thesis using good length_runes_step [of "take w (c # cs) @ t"] by auto
      qed
      moreover have "length (runes s) = Suc (length (runes (drop w (c # cs))))"
        using length_runes_step [of s] Cons d by simp
      moreover have "length (runes (utf8_fix (drop w (c # cs)))) = length (runes (drop w (c # cs)))"
        using "1.IH"(2) [OF Cons False _ refl, of r w] d by simp
      ultimately show ?thesis unfolding fix_s by simp
    qed
  qed
qed

end
