(* ===== verification/Ai_Evidence_Props.thy ===== *)
theory Ai_Evidence_Props
  imports Ai_Evidence
begin

text \<open>
  What the sanitised evidence promises, at every nesting level and in the document that is
  really sent: no secret-like key, and the limits on keys, items, strings and depth.
\<close>

section \<open>Encoding does not make a key look secret\<close>

lemma ascii_lower_byte [simp]: "is_ascii (lower_byte c) = is_ascii c"
  by (auto simp: is_ascii_def lower_byte_def Let_def)

lemma list_all_ascii_lower [simp]: "list_all P (to_lower s) = list_all (\<lambda>c. P (lower_byte c)) s"
  by (simp add: to_lower_def list.pred_map comp_def)

lemma utf8_fix_multi:
  assumes "\<not> is_ascii c"
  obtains x y p where "utf8_fix (c # cs) = x @ utf8_fix y" "x \<noteq> []" "list_all (\<lambda>c. \<not> is_ascii c) x"
    "c # cs = p @ y" "length y < length (c # cs)"
proof -
  obtain r w where d: "decode_rune (c # cs) = (r, w)" by fastforce
  let ?x = "if r = rune_error \<and> w = 1 then encode_rune rune_error else take w (c # cs)"
  have "utf8_fix (c # cs) = ?x @ utf8_fix (drop w (c # cs))"
    using assms d by (subst utf8_fix.simps) simp
  moreover have "list_all (\<lambda>c. \<not> is_ascii c) (encode_rune rune_error)"
    unfolding encode_rune_error by (simp add: is_ascii_def)
  then have "?x \<noteq> [] \<and> list_all (\<lambda>c. \<not> is_ascii c) ?x"
    using decode_rune_multi [OF assms d, of "[]"] by (auto simp: encode_rune_error)
  moreover have "0 < w" using decode_rune_width_pos [of "c # cs"] d by simp
  ultimately show thesis
    using that [of ?x "drop w (c # cs)" "take w (c # cs)"] by (simp del: utf8_fix.simps)
qed

lemma has_prefix_fix:
  "list_all is_ascii m \<Longrightarrow> has_prefix (to_lower (utf8_fix s)) m \<Longrightarrow> has_prefix (to_lower s) m"
proof (induction m arbitrary: s)
  case (Cons a m)
  show ?case
  proof (cases s)
    case Nil
    then show ?thesis using Cons.prems(2) by (simp add: utf8_fix.simps)
  next
    case s: (Cons c cs)
    show ?thesis
    proof (cases "is_ascii c")
      case True
      then have "utf8_fix s = c # utf8_fix cs" using s by (subst utf8_fix.simps) simp
      then show ?thesis using Cons s by simp
    next
      case False
      obtain x y p where "utf8_fix (c # cs) = x @ utf8_fix y" "x \<noteq> []" "list_all (\<lambda>c. \<not> is_ascii c) x"
        by (rule utf8_fix_multi [OF False])
      then have "\<exists>b bs. to_lower (utf8_fix s) = b # bs \<and> \<not> is_ascii b" using s by (cases x) auto
      then show ?thesis using Cons.prems by auto
    qed
  qed
qed simp

lemma contains_Cons: "contains (c # s) m \<longleftrightarrow> has_prefix (c # s) m \<or> contains s m"
  by (simp add: contains_def)

lemma contains_suffix: "contains s m \<Longrightarrow> contains (p @ s) m"
  by (induction p) (simp_all add: contains_Cons)

lemma contains_non_ascii:
  "list_all (\<lambda>c. \<not> is_ascii c) x \<Longrightarrow> list_all is_ascii m \<Longrightarrow> m \<noteq> [] \<Longrightarrow> contains (x @ s) m \<Longrightarrow> contains s m"
proof (induction x)
  case (Cons a x)
  then have "\<not> has_prefix (a # x @ s) m" by (cases m) auto
  then show ?case using Cons by (simp add: contains_Cons)
qed simp

lemma contains_fix:
  assumes "list_all is_ascii m" "m \<noteq> []"
  shows "contains (to_lower (utf8_fix s)) m \<Longrightarrow> contains (to_lower s) m"
proof (induction s rule: length_induct)
  case (1 s)
  show ?case
  proof (cases s)
    case Nil
    then show ?thesis using 1 by (simp add: utf8_fix.simps)
  next
    case (Cons c cs)
    show ?thesis
    proof (cases "is_ascii c")
      case True
      then have fix_s: "utf8_fix s = c # utf8_fix cs" using Cons by (subst utf8_fix.simps) simp
      then consider "has_prefix (to_lower (utf8_fix s)) m" | "contains (to_lower (utf8_fix cs)) m"
        using "1.prems" by (auto simp: contains_Cons)
      then show ?thesis
      proof cases
        case 1
        then have "has_prefix (to_lower s) m" using assms(1) has_prefix_fix by blast
        then show ?thesis using Cons by (simp add: contains_Cons)
      next
        case 2
        then have "contains (to_lower cs) m" using "1.IH" Cons by simp
        then show ?thesis using Cons by (simp add: contains_Cons)
      qed
    next
      case False
      obtain x y p where x: "utf8_fix (c # cs) = x @ utf8_fix y" "list_all (\<lambda>c. \<not> is_ascii c) x"
        and p: "c # cs = p @ y" "length y < length (c # cs)" by (rule utf8_fix_multi [OF False])
      have "contains (to_lower (utf8_fix y)) m"
        using "1.prems" x assms contains_non_ascii [of "to_lower x" m] Cons by simp
      then have "contains (to_lower y) m" using "1.IH" p(2) Cons by simp
      then show ?thesis using p(1) Cons contains_suffix by (metis to_lower_append)
    qed
  qed
qed

lemma markers_ascii: "m \<in> set secretKeyMarkers \<Longrightarrow> list_all is_ascii m \<and> m \<noteq> []"
  by (auto simp: secretKeyMarkers_def is_ascii_def)

lemma secret_key_fix: "isSecretKey (utf8_fix k) \<Longrightarrow> isSecretKey k"
  using contains_fix markers_ascii by (auto simp: isSecretKey_def list_ex_iff)

section \<open>Limits\<close>

lemma truncateRunes_length: "length (runes (truncateRunes s n)) \<le> n + 1"
proof (cases "length (runes s) \<le> n")
  case False
  have "length (runes ellipsis) = 1" by (subst runes.simps) (simp add: decode_rune_def byte_in_def)
  moreover have "list_all scalar (take n (runes s))"
    using runes_scalar [of s] by (auto simp: list_all_iff dest: in_set_takeD)
  ultimately show ?thesis using False length_runes_encode_all [of "take n (runes s)" ellipsis]
    by (simp add: truncateRunes_def Let_def)
qed (simp add: truncateRunes_def)

lemma sanitizeValue_list:
  "sanitizeValue (JList xs) depth = (if depth \<ge> maxEvidenceDepth then omitted_deep
     else JList (map (\<lambda>x. sanitizeValue x (depth + 1)) (take maxEvidenceList xs)))"
  by (simp add: take_map comp_def)

text \<open>
  \<open>safe_doc d n\<close>: below \<open>d\<close> no key is secret-like, no object has more than 24 members, no
  array more than 12 items, no string more than 400 runes and the mark of the cut, and
  objects and arrays nest at most \<open>n\<close> deep.
\<close>

primrec safe_doc :: "jdoc \<Rightarrow> nat \<Rightarrow> bool" where
  "safe_doc DNull n = True"
| "safe_doc (DBool b) n = True"
| "safe_doc (DNum l) n = True"
| "safe_doc (DStr s) n = (length (runes s) \<le> maxEvidenceString + 1)"
| "safe_doc (DArr xs) n = (0 < n \<and> length xs \<le> maxEvidenceList \<and> list_all (\<lambda>p. p (n - 1)) (map safe_doc xs))"
| "safe_doc (DObj kvs) n = (0 < n \<and> length kvs \<le> maxEvidenceKeys \<and>
     list_all (\<lambda>(k, p). \<not> isSecretKey k \<and> p (n - 1)) (map (map_prod id safe_doc) kvs))"

lemma list_all2_from: "list_all2 P xs ys \<Longrightarrow> y \<in> set ys \<Longrightarrow> \<exists>x \<in> set xs. P x y"
  by (induction rule: list_all2_induct) auto

lemma doc_of_map:
  assumes "doc_of (JMap kvs) = Some d"
  obtains fs where "d = DObj (map (map_prod utf8_fix id) fs)" "length fs = length kvs"
    "\<And>k x. (k, x) \<in> set fs \<Longrightarrow> \<exists>v. (k, v) \<in> set kvs \<and> doc_of v = Some x"
proof -
  let ?tag = "\<lambda>kv. map_option (Pair (fst kv)) (doc_of (snd kv))"
  from assms obtain gs where gs: "list_all2 (\<lambda>kv g. ?tag kv = Some g) kvs gs"
    and d: "d = DObj (map (map_prod utf8_fix id) (sort_key fst gs))"
    unfolding doc_of.simps tagged_members by (auto simp: those_map_iff)
  show thesis
  proof (rule that [OF d])
    show "length (sort_key fst gs) = length kvs" using gs by (simp add: list_all2_lengthD)
    fix k x assume "(k, x) \<in> set (sort_key fst gs)"
    then have "(k, x) \<in> set gs" by simp
    from list_all2_from [OF gs this] obtain kv where "kv \<in> set kvs" "?tag kv = Some (k, x)" by blast
    then show "\<exists>v. (k, v) \<in> set kvs \<and> doc_of v = Some x" by (intro exI [of _ "snd kv"]) auto
  qed
qed

text \<open>One map: the members that stay are few and not secret, whatever is done to their values.\<close>

lemma kept_members: "(k, v) \<in> set (kept_members kvs) \<Longrightarrow> (k, v) \<in> set kvs \<and> \<not> isSecretKey k"
  by (auto simp: kept_members_def dest: in_set_takeD)

lemma sanitize_members_safe:
  assumes "sanitize_members kvs depth = Some ms" "doc_of (JMap ms) = Some d" "0 < n"
    and "\<And>k f x. (k, f) \<in> set kvs \<Longrightarrow> doc_of (f depth) = Some x \<Longrightarrow> safe_doc x (n - 1)"
  shows "safe_doc d n"
proof -
  obtain fs where d: "d = DObj (map (map_prod utf8_fix id) fs)" "length fs = length ms"
    and fs: "\<And>k x. (k, x) \<in> set fs \<Longrightarrow> \<exists>v. (k, v) \<in> set ms \<and> doc_of v = Some x"
    using doc_of_map [OF assms(2)] by metis
  have ms: "ms = map (\<lambda>(k, f). (k, f depth)) (kept_members kvs)"
    using assms(1) by (auto simp: sanitize_members_def Let_def split: if_splits)
  have "length ms \<le> maxEvidenceKeys" by (simp add: ms kept_members_def)
  moreover have "\<not> isSecretKey (utf8_fix k) \<and> safe_doc x (n - 1)" if kx: "(k, x) \<in> set fs" for k x
  proof -
    obtain v where "(k, v) \<in> set ms" "doc_of v = Some x" using fs [OF kx] by blast
    then obtain f where f: "(k, f) \<in> set (kept_members kvs)" "doc_of (f depth) = Some x" by (auto simp: ms)
    show ?thesis using kept_members [OF f(1)] f(2) assms(4) secret_key_fix by blast
  qed
  ultimately show ?thesis using assms(3) d by (auto simp: list_all_iff)
qed

lemma truncated_safe: "length (runes (utf8_fix (truncateRunes s n))) \<le> n + 1"
  unfolding length_runes_fix by (rule truncateRunes_length)

lemma doc_of_list: "doc_of (JList xs) = Some d \<Longrightarrow> \<exists>ds. d = DArr ds \<and> list_all2 (\<lambda>x d. doc_of x = Some d) xs ds"
  by (auto simp: those_map_iff)

lemma omitted_safe:
  "doc_of omitted_deep = Some d \<Longrightarrow> safe_doc d n" "doc_of omitted_opaque = Some d \<Longrightarrow> safe_doc d n"
proof -
  have "length (runes (utf8_fix s)) \<le> maxEvidenceString + 1" if "length s \<le> 400" for s
    using length_runes_le [of s] that by (simp add: length_runes_fix maxEvidenceString_def)
  then show "doc_of omitted_deep = Some d \<Longrightarrow> safe_doc d n" "doc_of omitted_opaque = Some d \<Longrightarrow> safe_doc d n"
    by (auto simp: omitted_deep_def omitted_opaque_def)
qed

lemma sanitizeValue_safe:
  "depth \<le> maxEvidenceDepth \<Longrightarrow> doc_of (sanitizeValue v depth) = Some d \<Longrightarrow> safe_doc d (4 - depth)"
proof (induction v arbitrary: depth d)
  case (JStr s)
  then show ?case using truncated_safe [of s maxEvidenceString] by auto
next
  case (JStrs ss)
  then obtain ds where d: "d = DArr ds"
    and ds: "list_all2 (\<lambda>x d. doc_of x = Some d)
      (map (\<lambda>s. JStr (truncateRunes s maxEvidenceString)) (take maxEvidenceList ss)) ds"
    using doc_of_list unfolding sanitizeValue.simps by blast
  have "length ds \<le> maxEvidenceList" using list_all2_lengthD [OF ds] by simp
  moreover have "safe_doc e m" if e: "e \<in> set ds" for e m
  proof -
    obtain s where "e = DStr (utf8_fix (truncateRunes s maxEvidenceString))"
      using list_all2_from [OF ds e] by auto
    then show ?thesis using truncated_safe [of s maxEvidenceString] by simp
  qed
  ultimately show ?case using JStrs(1) by (simp add: d maxEvidenceDepth_def list_all_iff)
next
  case (JList xs)
  show ?case
  proof (cases "depth \<ge> maxEvidenceDepth")
    case True
    then show ?thesis using JList omitted_safe(1) by simp
  next
    case False
    let ?ys = "map (\<lambda>x. sanitizeValue x (depth + 1)) (take maxEvidenceList xs)"
    have "sanitizeValue (JList xs) depth = JList ?ys" using False by (simp only: sanitizeValue_list if_False)
    then obtain ds where d: "d = DArr ds" and ds: "list_all2 (\<lambda>x d. doc_of x = Some d) ?ys ds"
      using doc_of_list JList.prems(2) by metis
    have "length ds \<le> maxEvidenceList" using list_all2_lengthD [OF ds] by simp
    moreover have "safe_doc e (4 - (depth + 1))" if e: "e \<in> set ds" for e
    proof -
      obtain x where "x \<in> set (take maxEvidenceList xs)" "doc_of (sanitizeValue x (depth + 1)) = Some e"
        using list_all2_from [OF ds e] by auto
      then show ?thesis using False by (intro JList.IH) (auto dest: in_set_takeD)
    qed
    ultimately show ?thesis using False by (simp add: d maxEvidenceDepth_def list_all_iff)
  qed
next
  case (JMap kvs)
  show ?case
  proof (cases "depth \<ge> maxEvidenceDepth")
    case True
    then show ?thesis using JMap omitted_safe(1) by simp
  next
    case False
    let ?m = "sanitize_members (map (map_prod id sanitizeValue) kvs) (depth + 1)"
    have eq: "doc_of (map_value ?m) = Some d" using JMap.prems(2) False by simp
    show ?thesis
    proof (cases ?m)
      case None
      then show ?thesis using eq by (auto simp: map_value_def)
    next
      case (Some ms)
      show ?thesis
      proof (rule sanitize_members_safe [OF Some])
        show "doc_of (JMap ms) = Some d" using eq Some by (simp add: map_value_def)
        show "0 < 4 - depth" using False by (simp add: maxEvidenceDepth_def)
        fix k f x assume "(k, f) \<in> set (map (map_prod id sanitizeValue) kvs)" "doc_of (f (depth + 1)) = Some x"
        then obtain v where "(k, v) \<in> set kvs" "doc_of (sanitizeValue v (depth + 1)) = Some x" by auto
        then have "safe_doc x (4 - (depth + 1))" using False by (intro JMap.IH [of "(k, v)" v]) auto
        then show "safe_doc x (4 - depth - 1)" by simp
      qed
    qed
  qed
next
  case (JOther ov)
  then show ?case using omitted_safe(2) by (cases ov) auto
qed auto

section \<open>The packet\<close>

text \<open>What is left can always be encoded, and its numbers are the numbers it was given.\<close>

lemma json_marshal_list: "(\<And>x. x \<in> set xs \<Longrightarrow> json_marshal x \<noteq> None) \<Longrightarrow> json_marshal (JList xs) \<noteq> None"
  by (induction xs) (auto split: option.splits)

lemma json_marshal_members:
  "(\<And>k v. (k, v) \<in> set kvs \<Longrightarrow> json_marshal v \<noteq> None) \<Longrightarrow> json_marshal (JMap kvs) \<noteq> None"
proof -
  assume "\<And>k v. (k, v) \<in> set kvs \<Longrightarrow> json_marshal v \<noteq> None"
  then have "\<forall>kv \<in> set kvs. json_marshal (snd kv) \<noteq> None" by auto
  then show ?thesis unfolding json_marshal_map tagged_members by (induction kvs) auto
qed

lemma sanitize_members_in:
  "sanitize_members kvs depth = Some ms \<Longrightarrow> (k, v) \<in> set ms \<Longrightarrow> \<exists>f. (k, f) \<in> set kvs \<and> v = f depth"
  using kept_members by (fastforce simp: sanitize_members_def Let_def split: if_splits)

lemma sanitizeValue_marshal: "json_marshal (sanitizeValue v depth) \<noteq> None"
proof (induction v arbitrary: depth)
  case (JStrs ss)
  show ?case unfolding sanitizeValue.simps by (rule json_marshal_list) auto
next
  case (JList xs)
  then have "json_marshal (JList (map (\<lambda>x. sanitizeValue x (depth + 1)) (take maxEvidenceList xs))) \<noteq> None"
    by (intro json_marshal_list) (auto dest: in_set_takeD)
  then show ?case unfolding sanitizeValue_list by (simp add: omitted_deep_def)
next
  case (JMap kvs)
  show ?case
  proof (cases "sanitize_members (map (map_prod id sanitizeValue) kvs) (depth + 1)")
    case (Some ms)
    then have "json_marshal v \<noteq> None" if "(k, v) \<in> set ms" for k v
      using sanitize_members_in [OF Some that] JMap.IH by auto
    then have "json_marshal (JMap ms) \<noteq> None" by (rule json_marshal_members)
    then show ?thesis using Some by (auto simp del: json_marshal.simps(8) simp: map_value_def omitted_deep_def)
  qed (simp add: map_value_def omitted_deep_def)
next
  case (JOther ov)
  then show ?case by (cases ov) (auto simp: omitted_opaque_def)
qed simp_all

lemma floats_ok_members: "floats_ok (JMap kvs) \<longleftrightarrow> (\<forall>(k, v) \<in> set kvs. floats_ok v)"
  by (auto simp: list_all_iff)

lemma sanitizeValue_floats: "floats_ok v \<Longrightarrow> floats_ok (sanitizeValue v depth)"
proof (induction v arbitrary: depth)
  case (JList xs)
  then show ?case unfolding sanitizeValue_list by (auto simp: omitted_deep_def list_all_iff dest: in_set_takeD)
next
  case (JMap kvs)
  show ?case
  proof (cases "sanitize_members (map (map_prod id sanitizeValue) kvs) (depth + 1)")
    case (Some ms)
    have "floats_ok v" if kv: "(k, v) \<in> set ms" for k v
    proof -
      obtain u where u: "(k, u) \<in> set kvs" "v = sanitizeValue u (depth + 1)"
        using sanitize_members_in [OF Some kv] by auto
      then have "floats_ok u" using JMap.prems unfolding floats_ok_members by blast
      then show ?thesis using JMap.IH [of "(k, u)" u] u by simp
    qed
    then have "floats_ok (JMap ms)" unfolding floats_ok_members by blast
    then show ?thesis using Some by (auto simp del: floats_ok.simps(8) simp: map_value_def omitted_deep_def)
  qed (simp add: map_value_def omitted_deep_def)
next
  case (JOther ov)
  then show ?case by (cases ov) (auto simp: omitted_opaque_def)
qed (auto simp: list_all_iff)

lemma sanitizeMap_reads:
  assumes "sanitizeMap kvs 1 = Some ms" "floats_ok (JMap kvs)"
  shows "ms \<noteq> [] \<and> (\<exists>b d. json_marshal (JMap ms) = Some b \<and> reads b d \<and> safe_doc d (maxEvidenceDepth + 1))"
proof -
  have v: "\<exists>u. (k, u) \<in> set kvs \<and> v = sanitizeValue u 1" if "(k, v) \<in> set ms" for k v
    using sanitize_members_in [OF assms(1) [unfolded sanitizeMap_def] that] by auto
  have "json_marshal (JMap ms) \<noteq> None" using v sanitizeValue_marshal by (intro json_marshal_members) blast
  then obtain b where b: "json_marshal (JMap ms) = Some b" by blast
  have "floats_ok (JMap ms)" using v assms(2) sanitizeValue_floats unfolding floats_ok_members by blast
  then obtain d where d: "doc_of (JMap ms) = Some d" "reads b d" using marshal_reads [OF b] by blast
  have "safe_doc d 4"
  proof (rule sanitize_members_safe [OF assms(1) [unfolded sanitizeMap_def] d(1)])
    fix k f x assume "(k, f) \<in> set (map (map_prod id sanitizeValue) kvs)" "doc_of (f 1) = Some x"
    then show "safe_doc x (4 - 1)" using sanitizeValue_safe [of 1] by (auto simp: maxEvidenceDepth_def)
  qed simp
  moreover have "ms \<noteq> []" using assms(1) by (auto simp: sanitizeMap_def sanitize_members_def Let_def split: if_splits)
  ultimately show ?thesis using b d by (auto simp: maxEvidenceDepth_def)
qed

lemma utf8_fix_ascii: "list_all is_ascii s \<Longrightarrow> utf8_fix s = s"
  by (induction s) (simp_all add: utf8_fix.simps)

definition opt_doc :: "string \<Rightarrow> string \<Rightarrow> jobj" where
  "opt_doc name s = (if s = [] then [] else [(name, DStr (utf8_fix s))])"

lemma reads_opt: "list_all is_ascii name \<Longrightarrow> list_all2 reads_entry (opt_field name s) (opt_doc name s)"
  by (simp add: opt_field_def opt_doc_def reads_entry_def utf8_fix_ascii reads_string)

lemma marshal_core_finding_reads:
  assumes "evidence_field (cf_evidence f) = Some ev" "list_all2 reads_entry ev evd"
  shows "\<exists>b. marshal_core_finding f = Some b \<and> json_parse b = Some (DObj
    (opt_doc ''fingerprint'' (cf_fingerprint f) @ opt_doc ''module'' (cf_module f) @
     [(''check'', DStr (utf8_fix (cf_check f))), (''title'', DStr (utf8_fix (cf_title f)))] @
     opt_doc ''target'' (cf_target f) @ [(''severity'', DStr (utf8_fix (cf_severity f)))] @
     opt_doc ''status'' (cf_status f) @ opt_doc ''remediation'' (cf_remediation f) @ evd))"
proof -
  have lit: "reads_entry (n, json_string s) (n, DStr (utf8_fix s))" if "list_all is_ascii n" for n s
    using that by (simp add: reads_entry_def utf8_fix_ascii reads_string)
  let ?fs = "opt_field ''fingerprint'' (cf_fingerprint f) @ opt_field ''module'' (cf_module f) @
     [(''check'', json_string (cf_check f)), (''title'', json_string (cf_title f))] @
     opt_field ''target'' (cf_target f) @ [(''severity'', json_string (cf_severity f))] @
     opt_field ''status'' (cf_status f) @ opt_field ''remediation'' (cf_remediation f) @ ev"
  let ?ds = "opt_doc ''fingerprint'' (cf_fingerprint f) @ opt_doc ''module'' (cf_module f) @
     [(''check'', DStr (utf8_fix (cf_check f))), (''title'', DStr (utf8_fix (cf_title f)))] @
     opt_doc ''target'' (cf_target f) @ [(''severity'', DStr (utf8_fix (cf_severity f)))] @
     opt_doc ''status'' (cf_status f) @ opt_doc ''remediation'' (cf_remediation f) @ evd"
  have "list_all2 reads_entry ?fs ?ds"
    by (intro list_all2_appendI reads_opt assms(2) list.rel_intros lit) (simp_all add: is_ascii_def)
  then have "json_parse (json_object ?fs) = Some (DObj ?ds)" by (intro reads_parse reads_object)
  then show ?thesis by (simp only: marshal_core_finding_def assms(1) option.map option.inject ex_simps simp_thms)
qed

text \<open>
  C29. What is sent to the AI sidecar about a finding is a JSON object whose evidence has no
  secret-like key at any nesting level and stays within the limits on members, items, string
  length and depth; everything else in it is text, the title and the target cut to the limit.
\<close>

theorem no_secret_key_leaves:
  assumes "NewFindingPacket product lang f = Inr p"
    and "\<And>kvs. cf_evidence f = Some kvs \<Longrightarrow> floats_ok (JMap kvs)"
  shows "\<exists>ms. json_parse (ep_finding p) = Some (DObj ms) \<and>
    (\<forall>k d. (k, d) \<in> set ms \<longrightarrow>
       (if k = ''evidence'' then safe_doc d (maxEvidenceDepth + 1)
        else \<exists>s. d = DStr s \<and> ((k = ''title'' \<or> k = ''target'') \<longrightarrow> length (runes s) \<le> maxEvidenceString + 1)))"
proof -
  let ?g = "bounded_finding f"
  have raw: "marshal_core_finding ?g = Some (ep_finding p)"
    using assms(1) by (auto simp: NewFindingPacket_def split: if_splits option.splits)
  have "\<exists>ev evd. evidence_field (cf_evidence ?g) = Some ev \<and> list_all2 reads_entry ev evd \<and>
      (\<forall>(k, d) \<in> set evd. k = ''evidence'' \<and> safe_doc d (maxEvidenceDepth + 1))"
  proof (cases "cf_evidence ?g")
    case None
    then show ?thesis by (intro exI [of _ "[]"]) (simp add: evidence_field_def)
  next
    case (Some ms)
    then obtain kvs where kvs: "cf_evidence f = Some kvs" "sanitizeMap kvs 1 = Some ms"
      by (auto simp: bounded_finding_def SanitizeEvidence_def split: option.splits)
    obtain b d where b: "ms \<noteq> []" "json_marshal (JMap ms) = Some b" "reads b d" "safe_doc d (maxEvidenceDepth + 1)"
      using sanitizeMap_reads [OF kvs(2) assms(2) [OF kvs(1)]] by blast
    then have "list_all2 reads_entry [(''evidence'', b)] [(''evidence'', d)]"
      by (simp add: reads_entry_def utf8_fix_ascii is_ascii_def)
    moreover have "evidence_field (cf_evidence ?g) = Some [(''evidence'', b)]"
      using Some b(1,2) by (simp add: evidence_field_def del: json_marshal.simps)
    ultimately show ?thesis using b(4) by (intro exI [of _ "[(''evidence'', b)]"] exI [of _ "[(''evidence'', d)]"]) simp
  qed
  then obtain ev evd where ev: "evidence_field (cf_evidence ?g) = Some ev" "list_all2 reads_entry ev evd"
    and safe: "\<And>k d. (k, d) \<in> set evd \<Longrightarrow> k = ''evidence'' \<and> safe_doc d (maxEvidenceDepth + 1)" by blast
  show ?thesis
    using marshal_core_finding_reads [OF ev] raw safe truncated_safe
    by (auto simp: opt_doc_def bounded_finding_def split: if_splits)
qed

theorem no_secret_key_leaves_witness:
  "\<exists>p ms. NewFindingPacket ''tenantwatch'' ''en'' \<lparr>cf_fingerprint = ''f1'', cf_module = ''tenantwatch'', cf_check = ''oauth'',
       cf_title = ''Risky app'', cf_target = ''a.example'', cf_severity = ''high'', cf_status = ''open'', cf_remediation = [],
       cf_evidence = Some [(''Client_Secret'', JStr ''s''), (''users'', JInt 3)]\<rparr> = Inr p \<and>
     json_parse (ep_finding p) = Some (DObj ms) \<and>
     (\<forall>d. (''evidence'', d) \<in> set ms \<longrightarrow> safe_doc d (maxEvidenceDepth + 1))"
proof -
  let ?f = "\<lparr>cf_fingerprint = ''f1'', cf_module = ''tenantwatch'', cf_check = ''oauth'',
       cf_title = ''Risky app'', cf_target = ''a.example'', cf_severity = ''high'', cf_status = ''open'', cf_remediation = [],
       cf_evidence = Some [(''Client_Secret'', JStr ''s''), (''users'', JInt 3)]\<rparr>"
  have "marshal_core_finding (bounded_finding ?f) \<noteq> None" by code_simp
  then obtain p where p: "NewFindingPacket ''tenantwatch'' ''en'' ?f = Inr p"
    by (auto simp: NewFindingPacket_def trim_space_def is_space_def)
  have "floats_ok (JMap kvs)" if "cf_evidence ?f = Some kvs" for kvs using that by auto
  then show ?thesis using p no_secret_key_leaves [OF p] by fastforce
qed

end
