(* ===== verification/Sched_Fleet.thy ===== *)
theory Sched_Fleet
  imports Sched
begin

text \<open>
  The scheduler at work (\<open>sched/scheduler.go\<close>): the loop of a module, the goroutines it and
  the dashboard start, the worker slots they wait for and the cancellation of the context. A
  scan advances by single operations of the store, because the engine holds no lock, and so
  does a change of a finding's status in the dashboard; the steps of all of them interleave in
  any order. A sweep takes its snapshot and reads its gates in one step; the limit of time on a
  collector's call is one of the errors it may return, and the jitter of the interval only
  decides when the next sweep comes.
\<close>

section \<open>One scan, step by step\<close>

datatype 'e scan_end = Canceled | ScanFailed "'e scan_error"

text \<open>
  Where a scan is: waiting for a slot, holding one before its collector's call, about to list
  the stored records, in the first or the second loop of the engine, or returned.
\<close>

datatype 'e scan_pc = Waiting | Collecting | Listing "finding list"
  | Ingesting "store_rec list" "finding list" | Resolving "store_rec list" | Returned "'e scan_end option"

text \<open>Who started it: a sweep of the loop, the addition of its target, or the dashboard's scan button.\<close>

datatype origin = Swept | Added | Requested

record 'e scan =
  sn_origin :: origin
  sn_target :: target
  sn_pc :: "'e scan_pc"
  sn_now :: time
  sn_seen :: "string list"
  sn_res :: reconcile_result
  sn_ids :: nat

definition new_scan :: "origin \<Rightarrow> target \<Rightarrow> 'e scan" where
  "new_scan org t = \<lparr>sn_origin = org, sn_target = t, sn_pc = Waiting, sn_now = 0, sn_seen = [],
     sn_res = empty_result, sn_ids = 0\<rparr>"

text \<open>The engine's variables of a scan over the store as it is now, and back.\<close>

definition scan_rstate :: "'e scan \<Rightarrow> 's \<Rightarrow> 's rstate" where
  "scan_rstate p s = \<lparr>rs_store = s, rs_seen = sn_seen p, rs_res = sn_res p, rs_ids = sn_ids p\<rparr>"

definition scan_keep :: "'e scan \<Rightarrow> 's rstate \<Rightarrow> 'e scan_pc \<Rightarrow> 'e scan" where
  "scan_keep p st pc = p\<lparr>sn_seen := rs_seen st, sn_res := rs_res st, sn_ids := rs_ids st, sn_pc := pc\<rparr>"

definition reconcile_end :: "reconcile_error \<Rightarrow> 'e scan_pc" where
  "reconcile_end e = Returned (Some (ScanFailed (ReconcileFailed e)))"

definition engine_step ::
  "'s store_ops \<Rightarrow> id_gen \<Rightarrow> module_info \<Rightarrow> 'e scan \<Rightarrow> 's \<Rightarrow> 'e scan \<times> 's" where
  "engine_step ops newID mi p s = (case sn_pc p of
     Listing fresh \<Rightarrow> (case op_list_by_target ops s (mi_id mi) (t_canonical (sn_target p)) of
         Inl e \<Rightarrow> (p\<lparr>sn_pc := reconcile_end (FromStore e)\<rparr>, s)
       | Inr existing \<Rightarrow> (p\<lparr>sn_pc := Ingesting existing fresh\<rparr>, s))
   | Ingesting existing [] \<Rightarrow> (p\<lparr>sn_pc := Resolving existing\<rparr>, s)
   | Ingesting existing (f # fs) \<Rightarrow>
       (case ingest_step ops newID (sn_now p) (mi_id mi) (by_fingerprint existing) f (scan_rstate p s) of
          (st, Some e) \<Rightarrow> (scan_keep p st (reconcile_end e), rs_store st)
        | (st, None) \<Rightarrow> (scan_keep p st (Ingesting existing fs), rs_store st))
   | Resolving [] \<Rightarrow> (p\<lparr>sn_pc := Returned None\<rparr>, s)
   | Resolving (r # rs) \<Rightarrow>
       (case resolve_step ops (sn_now p) (ResolveAfterOrDefault mi) r (scan_rstate p s) of
          (st, Some e) \<Rightarrow> (scan_keep p st (reconcile_end e), rs_store st)
        | (st, None) \<Rightarrow> (scan_keep p st (Resolving rs), rs_store st))
   | _ \<Rightarrow> (p, s))"

definition collect_step :: "'e collector \<Rightarrow> time \<Rightarrow> 'e scan \<Rightarrow> 'e scan" where
  "collect_step col now p = (case co_collect col now (sn_target p) of
     Inl e \<Rightarrow> p\<lparr>sn_pc := Returned (Some (ScanFailed (CollectFailed e)))\<rparr>
   | Inr fresh \<Rightarrow> p\<lparr>sn_pc := Listing fresh, sn_now := now\<rparr>)"

definition in_engine :: "'e scan_pc \<Rightarrow> bool" where
  "in_engine pc \<longleftrightarrow> (case pc of Listing _ \<Rightarrow> True | Ingesting _ _ \<Rightarrow> True | Resolving _ \<Rightarrow> True | _ \<Rightarrow> False)"

definition holds_slot :: "'e scan_pc \<Rightarrow> bool" where
  "holds_slot pc \<longleftrightarrow> pc = Collecting \<or> in_engine pc"

section \<open>The fleet\<close>

text \<open>
  What is fixed: the store, the ids, the settings, the module's collector, and which errors are
  the cancellation of the context.
\<close>

record ('s, 'e) fleet_env =
  fe_ops :: "'s store_ops"
  fe_get :: "'s \<Rightarrow> string \<Rightarrow> string \<Rightarrow> store_rec option"
  fe_new_id :: id_gen
  fe_cfg :: sched_config
  fe_collector :: "'e collector"
  fe_canceled :: "'e scan_error \<Rightarrow> bool"

abbreviation fe_info :: "('s, 'e) fleet_env \<Rightarrow> module_info" where
  "fe_info env \<equiv> co_describe (fe_collector env)"

text \<open>
  What changes: the shared store and targets, whether the context is cancelled and the loop is
  still alive, the failure tracker of the loop, the scans, the status changes between their
  read and their write, and what the two callbacks have seen.
\<close>

record ('s, 'e) fleet =
  ft_store :: 's
  ft_targets :: "(string \<times> target) list"
  ft_canceled :: bool
  ft_loop :: bool
  ft_tracker :: tracker
  ft_scans :: "'e scan list"
  ft_users :: "store_rec list"
  ft_results :: "sched_result list"
  ft_failures :: "'e scan_failure list"

datatype label = Sweep time | LoopExit | AddTo string | ScanAll | Acquire nat | Abandon nat
  | CollectNow nat time | EngineStep nat | Finish nat time | Stop | DropTarget string
  | UserGet string finding_status | UserPut nat

definition free_slot :: "('s, 'e) fleet_env \<Rightarrow> ('s, 'e) fleet \<Rightarrow> bool" where
  "free_slot env w \<longleftrightarrow> int (length (filter (\<lambda>p. holds_slot (sn_pc p)) (ft_scans w))) < sc_workers (fe_cfg env)"

definition remove_nth :: "nat \<Rightarrow> 'a list \<Rightarrow> 'a list" where
  "remove_nth i xs = take i xs @ drop (Suc i) xs"

text \<open>The scan goroutine returns: the callbacks, and for the loop's own scans the tracker.\<close>

definition finish_scan :: "('s, 'e) fleet_env \<Rightarrow> time \<Rightarrow> 'e scan \<Rightarrow> 'e scan_end option \<Rightarrow> ('s, 'e) fleet \<Rightarrow> ('s, 'e) fleet" where
  "finish_scan env now p res w =
     (let err = (case res of Some (ScanFailed e) \<Rightarrow> Some e | _ \<Rightarrow> None);
          w1 = (if res = None
                then w\<lparr>ft_results := ft_results w @ [\<lparr>sr_module = mi_id (fe_info env), sr_target = sn_target p,
                       sr_reconcile = sn_res p\<rparr>]\<rparr> else w)
      in if sn_origin p \<noteq> Swept then w1
         else (case track_result (fe_cfg env) (fe_canceled env) now (sn_target p) err (ft_tracker w1) of
                 (tk, failure) \<Rightarrow> w1\<lparr>ft_tracker := tk,
                   ft_failures := ft_failures w1 @ (case failure of None \<Rightarrow> [] | Some x \<Rightarrow> [x])\<rparr>))"

text \<open>
  The entry points of the scheduler: a sweep launches a scan of every target that is not backing
  off, adding a target one of it unless the scheduler is stopped, the scan button one of each.
\<close>

definition sweep_step :: "time \<Rightarrow> ('s, 'e) fleet \<Rightarrow> ('s, 'e) fleet" where
  [simp]: "sweep_step now w = w\<lparr>ft_scans := ft_scans w @
     map (new_scan Swept) (filter (eligible (ft_tracker w) now) (map snd (ft_targets w)))\<rparr>"

definition add_step :: "('s, 'e) fleet_env \<Rightarrow> string \<Rightarrow> ('s, 'e) fleet \<Rightarrow> ('s, 'e) fleet option" where
  [simp]: "add_step env raw w = (case co_validate (fe_collector env) raw of
     Inl _ \<Rightarrow> Some w
   | Inr t \<Rightarrow> Some (w\<lparr>ft_targets := amap_put (t_canonical t) t (ft_targets w),
       ft_scans := ft_scans w @ (if ft_canceled w then [] else [new_scan Added t])\<rparr>))"

definition scan_all_step :: "('s, 'e) fleet \<Rightarrow> ('s, 'e) fleet" where
  [simp]: "scan_all_step w = w\<lparr>ft_scans := ft_scans w @ map (new_scan Requested) (map snd (ft_targets w))\<rparr>"

definition stop_step :: "('s, 'e) fleet \<Rightarrow> ('s, 'e) fleet" where
  [simp]: "stop_step w = w\<lparr>ft_canceled := True\<rparr>"

definition drop_step :: "string \<Rightarrow> ('s, 'e) fleet \<Rightarrow> ('s, 'e) fleet" where
  [simp]: "drop_step c w = w\<lparr>ft_targets := amap_del c (ft_targets w)\<rparr>"

text \<open>
  A waiting scan takes a slot or gives up when its context is cancelled: the scheduler's, or that
  of the request, which ends when the client leaves.
\<close>

definition acquire_step :: "('s, 'e) fleet_env \<Rightarrow> nat \<Rightarrow> ('s, 'e) fleet \<Rightarrow> ('s, 'e) fleet option" where
  [simp]: "acquire_step env i w =
     (if i < length (ft_scans w) \<and> sn_pc (ft_scans w ! i) = Waiting \<and> free_slot env w
      then Some (w\<lparr>ft_scans := (ft_scans w)[i := (ft_scans w ! i)\<lparr>sn_pc := Collecting\<rparr>]\<rparr>) else None)"

definition abandon_step :: "nat \<Rightarrow> ('s, 'e) fleet \<Rightarrow> ('s, 'e) fleet option" where
  [simp]: "abandon_step i w =
     (if i < length (ft_scans w) \<and> sn_pc (ft_scans w ! i) = Waiting \<and> (ft_canceled w \<or> sn_origin (ft_scans w ! i) = Requested)
      then Some (w\<lparr>ft_scans := (ft_scans w)[i := (ft_scans w ! i)\<lparr>sn_pc := Returned (Some Canceled)\<rparr>]\<rparr>) else None)"

text \<open>One step, \<open>None\<close> where it cannot be taken.\<close>

fun fleet_step :: "('s, 'e) fleet_env \<Rightarrow> label \<Rightarrow> ('s, 'e) fleet \<Rightarrow> ('s, 'e) fleet option" where
  "fleet_step env (Sweep now) w = (if \<not> ft_loop w then None else Some (sweep_step now w))"
| "fleet_step env LoopExit w =
     (if \<not> (ft_loop w \<and> ft_canceled w) then None else Some (w\<lparr>ft_loop := False\<rparr>))"
| "fleet_step env (AddTo raw) w = add_step env raw w"
| "fleet_step env ScanAll w = Some (scan_all_step w)"
| "fleet_step env (Acquire i) w = acquire_step env i w"
| "fleet_step env (Abandon i) w = abandon_step i w"
| "fleet_step env (CollectNow i now) w =
     (if i < length (ft_scans w) \<and> sn_pc (ft_scans w ! i) = Collecting
      then Some (w\<lparr>ft_scans := (ft_scans w)[i := collect_step (fe_collector env) now (ft_scans w ! i)]\<rparr>) else None)"
| "fleet_step env (EngineStep i) w =
     (if i < length (ft_scans w) \<and> in_engine (sn_pc (ft_scans w ! i))
      then (case engine_step (fe_ops env) (fe_new_id env) (fe_info env) (ft_scans w ! i) (ft_store w) of
              (p, s) \<Rightarrow> Some (w\<lparr>ft_store := s, ft_scans := (ft_scans w)[i := p]\<rparr>)) else None)"
| "fleet_step env (Finish i now) w =
     (if i < length (ft_scans w)
      then (case sn_pc (ft_scans w ! i) of
              Returned res \<Rightarrow> Some (finish_scan env now (ft_scans w ! i) res (w\<lparr>ft_scans := remove_nth i (ft_scans w)\<rparr>))
            | _ \<Rightarrow> None) else None)"
| "fleet_step env Stop w = Some (stop_step w)"
| "fleet_step env (DropTarget c) w = Some (drop_step c w)"
| "fleet_step env (UserGet fp st) w = (case fe_get env (ft_store w) (mi_id (fe_info env)) fp of
     None \<Rightarrow> None | Some r \<Rightarrow> Some (w\<lparr>ft_users := ft_users w @ [r\<lparr>f_status := st\<rparr>]\<rparr>))"
| "fleet_step env (UserPut i) w =
     (if i < length (ft_users w)
      then (case op_upsert (fe_ops env) (ft_store w) (ft_users w ! i) of
              Inl _ \<Rightarrow> Some (w\<lparr>ft_users := remove_nth i (ft_users w)\<rparr>)
            | Inr s \<Rightarrow> Some (w\<lparr>ft_store := s, ft_users := remove_nth i (ft_users w)\<rparr>)) else None)"

primrec fleet_run :: "('s, 'e) fleet_env \<Rightarrow> label list \<Rightarrow> ('s, 'e) fleet \<Rightarrow> ('s, 'e) fleet option" where
  "fleet_run env [] w = Some w"
| "fleet_run env (l # ls) w = Option.bind (fleet_step env l w) (fleet_run env ls)"

definition started_fleet :: "'s \<Rightarrow> (string \<times> target) list \<Rightarrow> ('s, 'e) fleet" where
  "started_fleet s targets = \<lparr>ft_store = s, ft_targets = targets, ft_canceled = False, ft_loop = True,
     ft_tracker = empty_tracker, ft_scans = [], ft_users = [], ft_results = [], ft_failures = []\<rparr>"

end
