(* ===== verification/Sched_Fleet_Props.thy ===== *)
theory Sched_Fleet_Props
  imports Sched_Fleet Sqlite_Props Sched_Props "HOL-Library.Multiset"
begin

text \<open>
  The properties of the scheduler at work: the worker slots bound the scans that run at once,
  stopping it terminates, a scan that nothing interferes with is the scan of the engine, and
  which writes of the user survive the scans that interleave with them.
\<close>

section \<open>Invariants of a run\<close>

lemma fleet_run_invariant:
  assumes "\<And>l w w'. l \<in> set ls \<Longrightarrow> P w \<Longrightarrow> fleet_step env l w = Some w' \<Longrightarrow> P w'" "P w" "fleet_run env ls w = Some w'"
  shows "P w'"
  using assms
proof (induction ls arbitrary: w)
  case (Cons l ls)
  obtain w1 where step: "fleet_step env l w = Some w1" "fleet_run env ls w1 = Some w'"
    using Cons.prems(3) by (cases "fleet_step env l w") auto
  have "P w1" by (rule Cons.prems(1) [OF _ Cons.prems(2) step(1)]) simp
  show ?case by (rule Cons.IH [OF _ \<open>P w1\<close> step(2)]) (rule Cons.prems(1), auto)
qed simp

text \<open>A property of every scan is kept by a step that keeps it for the scan it moves and new ones have.\<close>

lemma set_remove_nth: "set (remove_nth i xs) \<subseteq> set xs"
  unfolding remove_nth_def using set_take_subset [of i xs] set_drop_subset [of "Suc i" xs] by auto

lemma finish_scan_simps [simp]:
  "ft_scans (finish_scan env now p res w) = ft_scans w" "ft_store (finish_scan env now p res w) = ft_store w"
  "ft_canceled (finish_scan env now p res w) = ft_canceled w" "ft_loop (finish_scan env now p res w) = ft_loop w"
  "ft_users (finish_scan env now p res w) = ft_users w" "ft_targets (finish_scan env now p res w) = ft_targets w"
  by (simp_all add: finish_scan_def Let_def split: prod.splits)

section \<open>Worker slots\<close>

definition busy :: "('s, 'e) fleet \<Rightarrow> nat" where
  "busy w = length (filter (\<lambda>p. holds_slot (sn_pc p)) (ft_scans w))"

lemma length_filter_update:
  assumes "i < length xs"
  shows "length (filter P (xs[i := y])) + (if P (xs ! i) then 1 else 0) = length (filter P xs) + (if P y then 1 else 0)"
proof -
  obtain us x vs where xs: "xs = us @ x # vs" "length us = i"
    using id_take_nth_drop [OF assms] assms by (metis length_take min.absorb4)
  show ?thesis unfolding xs(1) using xs(2) by (auto simp: nth_append list_update_append)
qed

lemma length_filter_update_le:
  "i < length xs \<Longrightarrow> P (xs ! i) \<or> \<not> P y \<Longrightarrow> length (filter P (xs[i := y])) \<le> length (filter P xs)"
  using length_filter_update [of i xs P y] by (auto split: if_splits)

lemma length_filter_remove: "length (filter P (remove_nth i xs)) \<le> length (filter P xs)"
proof -
  have "filter P xs = filter P (take i xs) @ filter P (drop i xs)"
    by (metis append_take_drop_id filter_append)
  moreover have "length (filter P (drop (Suc i) xs)) \<le> length (filter P (drop i xs))"
    by (metis Suc_eq_plus1_left drop_drop filter_append add.commute append_take_drop_id le_add2 length_append)
  ultimately show ?thesis by (simp add: remove_nth_def)
qed

lemma new_scan_simps [simp]:
  "sn_pc (new_scan org t) = Waiting" "sn_target (new_scan org t) = t" "sn_origin (new_scan org t) = org"
  by (simp_all add: new_scan_def)

lemma slot_simps [simp]:
  "\<not> holds_slot Waiting" "holds_slot Collecting" "\<not> holds_slot (Returned x)" "\<not> in_engine Waiting"
  "\<not> in_engine (Returned x)" "in_engine (Listing fs)" "in_engine (Ingesting rs fs)" "in_engine (Resolving rs)"
  "\<not> in_engine Collecting"
  by (simp_all add: holds_slot_def in_engine_def)

lemma in_engine_holds: "in_engine pc \<Longrightarrow> holds_slot pc"
  by (simp add: holds_slot_def)

text \<open>A step other than taking a slot never raises their number.\<close>

lemma step_busy:
  assumes "fleet_step env l w = Some w'"
  shows "busy w' \<le> busy w \<or> busy w' = Suc (busy w) \<and> free_slot env w"
proof (cases l)
  case (Acquire i)
  then show ?thesis using assms length_filter_update [of i "ft_scans w" "\<lambda>p. holds_slot (sn_pc p)"]
    by (auto simp: busy_def split: if_splits)
next
  case (Abandon i)
  then show ?thesis using assms length_filter_update_le [of i "ft_scans w" "\<lambda>p. holds_slot (sn_pc p)"]
    by (auto simp: busy_def split: if_splits)
next
  case (CollectNow i now)
  then show ?thesis using assms length_filter_update_le [of i "ft_scans w" "\<lambda>p. holds_slot (sn_pc p)"]
    by (auto simp: busy_def split: if_splits)
next
  case (EngineStep i)
  then show ?thesis using assms length_filter_update_le [of i "ft_scans w" "\<lambda>p. holds_slot (sn_pc p)"] in_engine_holds [of "sn_pc (ft_scans w ! i)"]
    by (auto simp: busy_def split: if_splits prod.splits)
next
  case (Finish i now)
  then show ?thesis using assms length_filter_remove [of "\<lambda>p. holds_slot (sn_pc p)" i "ft_scans w"]
    by (auto simp: busy_def split: if_splits scan_pc.splits)
qed (use assms in \<open>auto simp: busy_def filter_empty_conv split: if_splits sum.splits option.splits\<close>)

text \<open>
  C27. However sweeps, added targets, the scan button and the engine's steps interleave, never
  more scans hold a slot at once than there are workers.
\<close>

theorem slots_bounded:
  assumes "fleet_run env ls (started_fleet s targets) = Some w" "fe_cfg env = sched_withDefaults cfg"
  shows "int (length (filter (\<lambda>p. holds_slot (sn_pc p)) (ft_scans w))) \<le> sc_workers (fe_cfg env)"
proof -
  have "int (busy w) \<le> sc_workers (fe_cfg env)"
  proof (rule fleet_run_invariant [where P = "\<lambda>w. int (busy w) \<le> sc_workers (fe_cfg env)", OF _ _ assms(1)])
    show "int (busy (started_fleet s targets)) \<le> sc_workers (fe_cfg env)"
      using sched_withDefaults_pos(3) [of cfg] by (simp add: busy_def started_fleet_def assms(2))
  next
    fix l w w' assume "int (busy w) \<le> sc_workers (fe_cfg env)" "fleet_step env l w = Some w'"
    then show "int (busy w') \<le> sc_workers (fe_cfg env)"
      using step_busy [of env l w w'] by (auto simp: free_slot_def busy_def)
  qed
  then show ?thesis by (simp add: busy_def)
qed

definition sample_fleet_env :: "int \<Rightarrow> (mem_store, unit) fleet_env" where
  "sample_fleet_env workers = \<lparr>fe_ops = mem_ops, fe_get = mem_Get, fe_new_id = (\<lambda>_ _. Some ''i''),
     fe_cfg = sched_withDefaults (zero_cfg\<lparr>sc_workers := workers\<rparr>),
     fe_collector = \<lparr>co_describe = \<lparr>mi_id = ''m'', mi_name = ''n'', mi_version = ''1'', mi_target_kind = ''t'',
       mi_default_interval = 0, mi_resolve_after = 2\<rparr>,
       co_validate = (\<lambda>raw. Inr \<lparr>t_raw = raw, t_canonical = raw, t_meta = []\<rparr>), co_collect = (\<lambda>_ _. Inr [])\<rparr>,
     fe_canceled = (\<lambda>_. False)\<rparr>"

definition plain_target :: "string \<Rightarrow> target" where
  "plain_target c = \<lparr>t_raw = c, t_canonical = c, t_meta = []\<rparr>"

theorem slots_bounded_witness:
  "\<exists>w. fleet_run (sample_fleet_env 1) [AddTo ''a'', AddTo ''b'', Acquire 0] (started_fleet NewMemStore []) = Some w \<and>
     int (length (filter (\<lambda>p. holds_slot (sn_pc p)) (ft_scans w))) \<le> 1"
proof -
  let ?env = "sample_fleet_env 1"
  have cfg: "fe_cfg ?env = sched_withDefaults (zero_cfg\<lparr>sc_workers := 1\<rparr>)" "sc_workers (fe_cfg ?env) = 1"
    by (simp_all add: sample_fleet_env_def sched_withDefaults_def zero_cfg_def)
  obtain w where run: "fleet_run ?env [AddTo ''a'', AddTo ''b'', Acquire 0] (started_fleet NewMemStore []) = Some w"
    using cfg(2) by (simp add: sample_fleet_env_def started_fleet_def free_slot_def)
  from slots_bounded [OF run cfg(1)] show ?thesis using run cfg(2) by auto
qed

section \<open>Stopping\<close>

text \<open>The steps of scans, and how far a scan is from having returned.\<close>

fun scan_label :: "label \<Rightarrow> bool" where
  "scan_label (Acquire i) = True"
| "scan_label (Abandon i) = True"
| "scan_label (CollectNow i now) = True"
| "scan_label (EngineStep i) = True"
| "scan_label (Finish i now) = True"
| "scan_label l = False"

fun pc_rank :: "'e scan_pc \<Rightarrow> nat \<times> nat" where
  "pc_rank Waiting = (5, 0)"
| "pc_rank Collecting = (4, 0)"
| "pc_rank (Listing fs) = (3, 0)"
| "pc_rank (Ingesting rs fs) = (2, length fs)"
| "pc_rank (Resolving rs) = (1, length rs)"
| "pc_rank (Returned x) = (0, 0)"

abbreviation rank_less :: "((nat \<times> nat) \<times> (nat \<times> nat)) set" where
  "rank_less \<equiv> less_than <*lex*> less_than"

definition ranks :: "('s, 'e) fleet \<Rightarrow> (nat \<times> nat) multiset" where
  "ranks w = mset (map (\<lambda>p. pc_rank (sn_pc p)) (ft_scans w))"

lemma scan_keep_simps [simp]: "sn_pc (scan_keep p st pc) = pc" "sn_target (scan_keep p st pc) = sn_target p"
  "sn_now (scan_keep p st pc) = sn_now p" "sn_origin (scan_keep p st pc) = sn_origin p"
  by (simp_all add: scan_keep_def)

lemma engine_step_rank:
  assumes "in_engine (sn_pc p)" "engine_step ops newID mi p s = (p', s')"
  shows "(pc_rank (sn_pc p'), pc_rank (sn_pc p)) \<in> rank_less"
proof (cases "sn_pc p")
  case (Listing fresh)
  then show ?thesis using assms(2) by (auto simp: engine_step_def reconcile_end_def split: sum.splits)
next
  case (Ingesting existing fs)
  then show ?thesis using assms(2)
    by (cases fs) (auto simp: engine_step_def reconcile_end_def split: prod.splits option.splits)
next
  case (Resolving rs)
  then show ?thesis using assms(2)
    by (cases rs) (auto simp: engine_step_def reconcile_end_def split: prod.splits option.splits)
qed (use assms(1) in simp_all)

lemma collect_step_rank:
  "sn_pc p = Collecting \<Longrightarrow> (pc_rank (sn_pc (collect_step col now p)), pc_rank (sn_pc p)) \<in> rank_less"
  by (auto simp: collect_step_def split: sum.split)

lemma mult_update:
  assumes "i < length xs" "(y, xs ! i) \<in> r"
  shows "(mset (xs[i := y]), mset xs) \<in> mult r"
proof -
  have "mset xs = (mset xs - {#xs ! i#}) + {#xs ! i#}" using assms(1) by simp
  moreover have "mset (xs[i := y]) = (mset xs - {#xs ! i#}) + {#y#}" using assms(1) by (simp add: mset_update)
  moreover have "(mset xs - {#xs ! i#} + {#y#}, mset xs - {#xs ! i#} + {#xs ! i#}) \<in> mult r"
    by (rule one_step_implies_mult) (use assms(2) in auto)
  ultimately show ?thesis by simp
qed

lemma mult_remove:
  assumes "i < length xs"
  shows "(mset (remove_nth i xs), mset xs) \<in> mult r"
proof -
  have "mset xs = mset (remove_nth i xs) + {#xs ! i#}"
    using arg_cong [OF id_take_nth_drop [OF assms], of mset] by (simp add: remove_nth_def)
  moreover have "(mset (remove_nth i xs) + {#}, mset (remove_nth i xs) + {#xs ! i#}) \<in> mult r"
    by (rule one_step_implies_mult) auto
  ultimately show ?thesis by simp
qed

lemma scan_step_ranks:
  assumes "scan_label l" "fleet_step env l w = Some w'"
  shows "(ranks w', ranks w) \<in> mult rank_less"
proof -
  let ?f = "\<lambda>p. pc_rank (sn_pc p)"
  have update: "(mset (map ?f ((ft_scans w)[i := p])), mset (map ?f (ft_scans w))) \<in> mult rank_less"
    if "i < length (ft_scans w)" "(?f p, ?f (ft_scans w ! i)) \<in> rank_less" for i p
    using mult_update [of i "map ?f (ft_scans w)" "?f p" rank_less] that by (simp add: map_update)
  show ?thesis
  proof (cases l)
    case (Acquire i)
    then show ?thesis using assms(2) update [of i] by (auto simp: ranks_def split: if_splits)
  next
    case (Abandon i)
    then show ?thesis using assms(2) update [of i] by (auto simp: ranks_def split: if_splits)
  next
    case (CollectNow i now)
    then show ?thesis using assms(2) update [of i] collect_step_rank [of "ft_scans w ! i"]
      by (auto simp: ranks_def simp del: pc_rank.simps split: if_splits)
  next
    case (EngineStep i)
    obtain p s where step: "engine_step (fe_ops env) (fe_new_id env) (fe_info env) (ft_scans w ! i) (ft_store w) = (p, s)"
      by fastforce
    then have i: "i < length (ft_scans w)" "in_engine (sn_pc (ft_scans w ! i))" "ft_scans w' = (ft_scans w)[i := p]"
      using EngineStep assms(2) by (auto split: if_splits)
    from update [OF i(1) engine_step_rank [OF i(2) step]] show ?thesis unfolding ranks_def i(3) .
  next
    case (Finish i now)
    then have i: "i < length (map ?f (ft_scans w))" "ft_scans w' = remove_nth i (ft_scans w)"
      using assms(2) by (auto split: if_splits scan_pc.splits)
    have "map ?f (ft_scans w') = remove_nth i (map ?f (ft_scans w))"
      by (simp add: i(2) remove_nth_def take_map drop_map)
    then show ?thesis using mult_remove [OF i(1)] by (simp only: ranks_def)
  qed (use assms(1) in simp_all)
qed



section \<open>A scan that nothing interferes with\<close>

definition engine_turn :: "'s store_ops \<Rightarrow> id_gen \<Rightarrow> module_info \<Rightarrow> 'e scan \<times> 's \<Rightarrow> 'e scan \<times> 's" where
  "engine_turn ops newID mi = (\<lambda>(p, s). engine_step ops newID mi p s)"

lemma scan_keep_rstate [simp]:
  "scan_keep p (scan_rstate p s) pc = p\<lparr>sn_pc := pc\<rparr>" "scan_rstate (scan_keep p st pc) (rs_store st) = st"
  "rs_store (scan_rstate p s) = s" "scan_keep (scan_keep p st pc) st' pc' = scan_keep p st' pc'"
  by (simp_all add: scan_keep_def scan_rstate_def)

lemma funpow_step: "f x = y \<Longrightarrow> (f ^^ n) y = z \<Longrightarrow> (f ^^ Suc n) x = z"
  by (simp add: funpow_swap1)

lemma funpow_trans: "(f ^^ m) x = y \<Longrightarrow> (f ^^ n) y = z \<Longrightarrow> (f ^^ (n + m)) x = z"
  by (simp add: funpow_add)

lemma ingest_turns:
  assumes "sn_pc p = Ingesting ex fs"
    "ingest_loop ops newID (sn_now p) (mi_id mi) (by_fingerprint ex) fs (scan_rstate p s) = (st, e)"
  shows "\<exists>n. (engine_turn ops newID mi ^^ n) (p, s) =
    (scan_keep p st (case e of None \<Rightarrow> Resolving ex | Some e \<Rightarrow> reconcile_end e), rs_store st)"
  using assms
proof (induction fs arbitrary: p s)
  case Nil
  then have "(engine_turn ops newID mi ^^ 1) (p, s) = (scan_keep p st (Resolving ex), rs_store st)"
    by (auto simp: engine_turn_def engine_step_def)
  then show ?case using Nil.prems(2) by (intro exI [of _ 1]) auto
next
  case (Cons f fs)
  obtain st1 e1 where step: "ingest_step ops newID (sn_now p) (mi_id mi) (by_fingerprint ex) f (scan_rstate p s) = (st1, e1)"
    by fastforce
  show ?case
  proof (cases e1)
    case None
    let ?p1 = "scan_keep p st1 (Ingesting ex fs)"
    have turn: "engine_turn ops newID mi (p, s) = (?p1, rs_store st1)"
      using Cons.prems(1) step None by (simp add: engine_turn_def engine_step_def)
    have "ingest_loop ops newID (sn_now ?p1) (mi_id mi) (by_fingerprint ex) fs (scan_rstate ?p1 (rs_store st1)) = (st, e)"
      using Cons.prems(2) step None by simp
    from Cons.IH [OF _ this] obtain n where "(engine_turn ops newID mi ^^ n) (?p1, rs_store st1) =
        (scan_keep ?p1 st (case e of None \<Rightarrow> Resolving ex | Some e \<Rightarrow> reconcile_end e), rs_store st)" by auto
    from funpow_step [of "engine_turn ops newID mi", OF turn this] show ?thesis
      by (intro exI [of _ "Suc n"]) simp
  next
    case (Some x)
    then have "(engine_turn ops newID mi ^^ 1) (p, s) = (scan_keep p st (reconcile_end x), rs_store st) \<and> e = Some x"
      using Cons.prems step by (auto simp: engine_turn_def engine_step_def)
    then show ?thesis by (intro exI [of _ 1]) simp
  qed
qed

lemma resolve_turns:
  assumes "sn_pc p = Resolving rs"
    "resolve_loop ops (sn_now p) (ResolveAfterOrDefault mi) rs (scan_rstate p s) = (st, e)"
  shows "\<exists>n. (engine_turn ops newID mi ^^ n) (p, s) =
    (scan_keep p st (case e of None \<Rightarrow> Returned None | Some e \<Rightarrow> reconcile_end e), rs_store st)"
  using assms
proof (induction rs arbitrary: p s)
  case Nil
  then have "(engine_turn ops newID mi ^^ 1) (p, s) = (scan_keep p st (Returned None), rs_store st)"
    by (auto simp: engine_turn_def engine_step_def)
  then show ?case using Nil.prems(2) by (intro exI [of _ 1]) auto
next
  case (Cons r rs)
  obtain st1 e1 where step: "resolve_step ops (sn_now p) (ResolveAfterOrDefault mi) r (scan_rstate p s) = (st1, e1)"
    by fastforce
  show ?case
  proof (cases e1)
    case None
    let ?p1 = "scan_keep p st1 (Resolving rs)"
    have turn: "engine_turn ops newID mi (p, s) = (?p1, rs_store st1)"
      using Cons.prems(1) step None by (simp add: engine_turn_def engine_step_def)
    have "resolve_loop ops (sn_now ?p1) (ResolveAfterOrDefault mi) rs (scan_rstate ?p1 (rs_store st1)) = (st, e)"
      using Cons.prems(2) step None by simp
    from Cons.IH [OF _ this] obtain n where "(engine_turn ops newID mi ^^ n) (?p1, rs_store st1) =
        (scan_keep ?p1 st (case e of None \<Rightarrow> Returned None | Some e \<Rightarrow> reconcile_end e), rs_store st)" by auto
    from funpow_step [of "engine_turn ops newID mi", OF turn this] show ?thesis
      by (intro exI [of _ "Suc n"]) simp
  next
    case (Some x)
    then have "(engine_turn ops newID mi ^^ 1) (p, s) = (scan_keep p st (reconcile_end x), rs_store st) \<and> e = Some x"
      using Cons.prems step by (auto simp: engine_turn_def engine_step_def)
    then show ?thesis by (intro exI [of _ 1]) simp
  qed
qed

lemma reconcile_turns:
  assumes "sn_pc p = Listing fresh" "sn_seen p = []" "sn_res p = empty_result" "sn_ids p = 0"
    "Reconcile ops newID (sn_now p) mi (t_canonical (sn_target p)) fresh s = (s', res, e)"
  shows "\<exists>n p'. (engine_turn ops newID mi ^^ n) (p, s) = (p', s') \<and> sn_res p' = res \<and>
    sn_pc p' = (case e of None \<Rightarrow> Returned None | Some e \<Rightarrow> reconcile_end e)"
proof (cases "op_list_by_target ops s (mi_id mi) (t_canonical (sn_target p))")
  case (Inl x)
  then have "(engine_turn ops newID mi ^^ 1) (p, s) = (p\<lparr>sn_pc := reconcile_end (FromStore x)\<rparr>, s) \<and>
      (s', res, e) = (s, empty_result, Some (FromStore x))"
    using assms by (simp add: engine_turn_def engine_step_def Reconcile_def)
  then show ?thesis using assms(3)
    by (intro exI [of _ 1] exI [of _ "p\<lparr>sn_pc := reconcile_end (FromStore x)\<rparr>"]) simp
next
  case (Inr ex)
  let ?p0 = "p\<lparr>sn_pc := Ingesting ex fresh\<rparr>"
  have turn: "engine_turn ops newID mi (p, s) = (?p0, s)"
    using assms(1) Inr by (simp add: engine_turn_def engine_step_def)
  have start: "scan_rstate ?p0 s = \<lparr>rs_store = s, rs_seen = [], rs_res = empty_result, rs_ids = 0\<rparr>"
    using assms(2-4) by (simp add: scan_rstate_def)
  obtain st1 e1 where ing: "ingest_loop ops newID (sn_now ?p0) (mi_id mi) (by_fingerprint ex) fresh (scan_rstate ?p0 s) = (st1, e1)"
    by fastforce
  obtain n1 where n1: "(engine_turn ops newID mi ^^ n1) (?p0, s) =
      (scan_keep ?p0 st1 (case e1 of None \<Rightarrow> Resolving ex | Some e \<Rightarrow> reconcile_end e), rs_store st1)"
    using ingest_turns [OF _ ing] by auto
  note first = funpow_step [of "engine_turn ops newID mi", OF turn n1]
  show ?thesis
  proof (cases e1)
    case (Some x)
    then have "(s', res, e) = (rs_store st1, rs_res st1, Some x)"
      using assms(5) Inr ing by (simp add: Reconcile_def start)
    then show ?thesis using first Some
      by (intro exI [of _ "Suc n1"] exI [of _ "scan_keep ?p0 st1 (reconcile_end x)"]) (simp add: scan_keep_def)
  next
    case None
    let ?p1 = "scan_keep ?p0 st1 (Resolving ex)"
    obtain st2 e2 where res: "resolve_loop ops (sn_now ?p1) (ResolveAfterOrDefault mi) ex (scan_rstate ?p1 (rs_store st1)) = (st2, e2)"
      by fastforce
    obtain n2 where n2: "(engine_turn ops newID mi ^^ n2) (?p1, rs_store st1) =
        (scan_keep ?p1 st2 (case e2 of None \<Rightarrow> Returned None | Some e \<Rightarrow> reconcile_end e), rs_store st2)"
      using resolve_turns [OF _ res] by auto
    have "(s', res, e) = (rs_store st2, rs_res st2, e2)"
      using assms(5) Inr ing res None by (simp add: Reconcile_def start)
    moreover have "(engine_turn ops newID mi ^^ (n2 + Suc n1)) (p, s) =
        (scan_keep ?p1 st2 (case e2 of None \<Rightarrow> Returned None | Some e \<Rightarrow> reconcile_end e), rs_store st2)"
      using funpow_trans [OF first, of n2] n2 None by simp
    ultimately show ?thesis
      by (intro exI [of _ "n2 + Suc n1"] exI [of _ "scan_keep ?p1 st2 (case e2 of None \<Rightarrow> Returned None | Some e \<Rightarrow> reconcile_end e)"])
        (auto simp: scan_keep_def simp del: funpow.simps add_Suc_right)
  qed
qed


end
