(* ===== verification/Ai_Guard.thy ===== *)
theory Ai_Guard
  imports Prelude
begin

text \<open>
  The severity guard of the AI narration (\<open>internal/aiclient/guard.go\<close>): sentences that
  state another severity than the engine's are dropped. The two regular expressions are
  written as matchers: a matcher gives the rests a pattern can leave. A run of blanks is taken
  whole, which is exact because a word always follows it. Case folding is the ASCII one.
\<close>

section \<open>Sentences\<close>

definition terminator :: "char \<Rightarrow> bool" where
  "terminator c \<longleftrightarrow> c \<in> set ''.!?''"

text \<open>The class \<open>\s\<close>.\<close>

definition re_space :: "char \<Rightarrow> bool" where
  "re_space c \<longleftrightarrow> c \<in> {CHR 0x09, CHR 0x0A, CHR 0x0C, CHR 0x0D, CHR '' ''}"

text \<open>\<open>sentenceSplit.FindAllString\<close>: a terminator with no text before it is in no sentence.\<close>

function sentences :: "string \<Rightarrow> string list" where
  "sentences s =
     (let t = dropWhile terminator s in
      if t = [] then []
      else let r = dropWhile (\<lambda>c. \<not> terminator c) t;
               q = dropWhile terminator r
           in (takeWhile (\<lambda>c. \<not> terminator c) t @ takeWhile terminator r @ takeWhile re_space q) #
              sentences (dropWhile re_space q))"
  by pat_completeness auto
termination
proof (relation "measure length")
  fix s t r q :: string
  assume t: "t = dropWhile terminator s" "t \<noteq> []" and r: "r = dropWhile (\<lambda>c. \<not> terminator c) t"
    and q: "q = dropWhile terminator r"
  obtain c cs where c: "t = c # cs" using t(2) by (cases t) auto
  then have "\<not> terminator c" using t hd_dropWhile [of terminator s] by simp
  then have "length r < length t" using length_dropWhile_le [of "\<lambda>c. \<not> terminator c" cs] by (simp add: r c)
  moreover have "length t \<le> length s" "length q \<le> length r" by (simp_all add: t q length_dropWhile_le)
  moreover have "length (dropWhile re_space q) \<le> length q" by (rule length_dropWhile_le)
  ultimately show "(dropWhile re_space q, s) \<in> measure length" by simp
qed simp

declare sentences.simps [simp del]

section \<open>Matchers\<close>

type_synonym matcher = "string \<Rightarrow> string list"

definition lit :: "string \<Rightarrow> matcher" where
  "lit w s = (if has_prefix s w then [drop (length w) s] else [])"

definition one_of :: "string list \<Rightarrow> matcher" where
  "one_of ws s = concat (map (\<lambda>w. lit w s) ws)"

definition blanks :: "(char \<Rightarrow> bool) \<Rightarrow> matcher" where
  "blanks P s = [dropWhile P s]"

definition blanks1 :: "(char \<Rightarrow> bool) \<Rightarrow> matcher" where
  "blanks1 P s = (if s \<noteq> [] \<and> P (hd s) then [dropWhile P s] else [])"

definition followed :: "matcher \<Rightarrow> matcher \<Rightarrow> matcher" where
  "followed m n s = concat (map n (m s))"

definition either :: "matcher \<Rightarrow> matcher \<Rightarrow> matcher" where
  "either m n s = m s @ n s"

definition optional :: "matcher \<Rightarrow> matcher" where
  "optional m s = s # m s"

definition word_byte :: "char \<Rightarrow> bool" where
  "word_byte c \<longleftrightarrow> (let n = (of_char c :: nat) in
     48 \<le> n \<and> n \<le> 57 \<or> 65 \<le> n \<and> n \<le> 90 \<or> 97 \<le> n \<and> n \<le> 122 \<or> n = 95)"

text \<open>\<open>\b\<close> behind a word.\<close>

definition word_end :: matcher where
  "word_end s = (if s = [] \<or> \<not> word_byte (hd s) then [s] else [])"

section \<open>The guard\<close>

definition severityWords :: "string list" where
  "severityWords = [''critical'', ''high'', ''medium'', ''moderate'', ''low'', ''info'', ''informational'']"

definition same_severity :: "string \<Rightarrow> string list" where
  "same_severity engine =
     (if engine = ''info'' \<or> engine = ''informational'' then [engine, ''info'', ''informational'']
      else if engine = ''medium'' \<or> engine = ''moderate'' then [engine, ''medium'', ''moderate'']
      else [engine])"

definition conflicting :: "string \<Rightarrow> string list" where
  "conflicting engine = filter (\<lambda>w. w \<notin> set (same_severity engine)) severityWords"

definition re_sep :: "char \<Rightarrow> bool" where
  "re_sep c \<longleftrightarrow> re_space c \<or> c = CHR ''-''"

definition severity_nouns :: "string list" where
  "severity_nouns = [''severity'', ''risk'', ''priority'']"

definition label_first :: "string list \<Rightarrow> matcher" where
  "label_first alts =
     followed (one_of alts) (followed (blanks1 re_sep) (followed (one_of severity_nouns) word_end))"

definition connector :: matcher where
  "connector = either (one_of [''is'', ''of''])
     (followed (one_of [''level'', ''rating'']) (followed (blanks1 re_space) (lit ''is'')))"

definition noun_first :: "string list \<Rightarrow> matcher" where
  "noun_first alts =
     followed (one_of severity_nouns) (followed (blanks1 re_space)
       (followed (optional connector) (followed (blanks re_space) (followed (one_of alts) word_end))))"

definition severity_pattern :: "string list \<Rightarrow> matcher" where
  "severity_pattern alts = either (label_first alts) (noun_first alts)"

text \<open>
  \<open>MatchString\<close> from a position on: both alternatives start with \<open>\b\<close> and a word, so the
  byte before must not be part of a word.
\<close>

fun re_find :: "matcher \<Rightarrow> bool \<Rightarrow> string \<Rightarrow> bool" where
  "re_find m in_word [] = False"
| "re_find m in_word (c # s) = (\<not> in_word \<and> m (c # s) \<noteq> [] \<or> re_find m (word_byte c) s)"

definition states_conflict :: "string \<Rightarrow> string \<Rightarrow> bool" where
  "states_conflict engine s = re_find (severity_pattern (conflicting engine)) False (to_lower s)"

definition dropConflictingSeverity :: "string \<Rightarrow> string \<Rightarrow> string" where
  "dropConflictingSeverity text engineSeverity =
     (let engine = to_lower (trim_space engineSeverity) in
      if engine = [] \<or> text = [] then text
      else let out = trim_space (concat (filter (\<lambda>s. \<not> states_conflict engine s) (sentences text)))
           in if out = [] then text else out)"

lemma dropConflictingSeverity_examples:
  "dropConflictingSeverity ''This is a Low-severity issue. Rotate the key.'' ''info'' = ''Rotate the key.''"
  "dropConflictingSeverity ''Risk level is high.'' ''info'' = ''Risk level is high.''"
  "dropConflictingSeverity ''...See the info risk. Highest severity.'' ''Info'' = ''See the info risk. Highest severity.''"
  by code_simp+

text \<open>A terminator that starts a sentence is lost, whatever the sentence says.\<close>

lemma guard_drops_leading_stop:
  "dropConflictingSeverity ''Check it. .htaccess is public.'' ''high'' = ''Check it. htaccess is public.''"
  by code_simp

section \<open>Where a match can lie\<close>

text \<open>
  A byte that is neither a word byte nor a separator stops every part of the pattern, so a
  match before it does not depend on what follows it.
\<close>

definition stopper :: "char \<Rightarrow> bool" where
  "stopper t \<longleftrightarrow> \<not> word_byte t \<and> \<not> re_sep t"

definition stops_at :: "matcher \<Rightarrow> bool" where
  "stops_at m \<longleftrightarrow> (\<forall>x t b. stopper t \<longrightarrow> m (x @ t # b) = map (\<lambda>r. r @ t # b) (m x))"

definition plain_word :: "string \<Rightarrow> bool" where
  "plain_word w \<longleftrightarrow> w \<noteq> [] \<and> list_all word_byte w"

lemma has_prefix_stop: "t \<notin> set w \<Longrightarrow> has_prefix (x @ t # b) w = has_prefix x w"
proof (induction w arbitrary: x)
  case (Cons c w)
  then show ?case by (cases x) auto
qed simp

lemma stops_lit: "plain_word w \<Longrightarrow> stops_at (lit w)"
  unfolding stops_at_def
proof (intro allI impI)
  fix x t b assume "plain_word w" "stopper t"
  then have "t \<notin> set w" by (auto simp: plain_word_def stopper_def list_all_iff)
  then have "has_prefix (x @ t # b) w = has_prefix x w" by (rule has_prefix_stop)
  then show "lit w (x @ t # b) = map (\<lambda>r. r @ t # b) (lit w x)"
    by (cases "has_prefix x w") (auto simp: lit_def has_prefix_iff)
qed

lemma stops_one_of: "list_all plain_word ws \<Longrightarrow> stops_at (one_of ws)"
proof (induction ws)
  case (Cons w ws)
  then have "stops_at (lit w)" "stops_at (one_of ws)" by (auto intro: stops_lit)
  then show ?case by (simp add: stops_at_def one_of_def)
qed (simp add: stops_at_def one_of_def)

lemma dropWhile_stop: "\<not> P t \<Longrightarrow> dropWhile P (x @ t # b) = dropWhile P x @ t # b"
  by (induction x) auto

lemma stops_blanks: "(\<And>c. P c \<Longrightarrow> re_sep c) \<Longrightarrow> stops_at (blanks P)" "(\<And>c. P c \<Longrightarrow> re_sep c) \<Longrightarrow> stops_at (blanks1 P)"
proof -
  assume P: "\<And>c. P c \<Longrightarrow> re_sep c"
  show "stops_at (blanks P)"
    using P by (auto simp: stops_at_def blanks_def stopper_def intro!: dropWhile_stop)
  have "blanks1 P (x @ t # b) = map (\<lambda>r. r @ t # b) (blanks1 P x)" if "\<not> P t" for x t b
    using that dropWhile_stop [of P t x b] by (cases x) (auto simp: blanks1_def)
  then show "stops_at (blanks1 P)" using P by (auto simp: stops_at_def stopper_def)
qed

lemma stops_seps: "stops_at (blanks1 re_sep)" "stops_at (blanks1 re_space)" "stops_at (blanks re_space)"
  by (rule stops_blanks, simp add: re_sep_def)+

lemma stops_followed: "stops_at m \<Longrightarrow> stops_at n \<Longrightarrow> stops_at (followed m n)"
  by (simp add: stops_at_def followed_def map_concat comp_def)

lemma stops_either: "stops_at m \<Longrightarrow> stops_at n \<Longrightarrow> stops_at (either m n)"
  by (simp add: stops_at_def either_def)

lemma stops_optional: "stops_at m \<Longrightarrow> stops_at (optional m)"
  by (simp add: stops_at_def optional_def)

lemma stops_word_end: "stops_at word_end"
  unfolding stops_at_def
proof (intro allI impI)
  fix x t b assume "stopper t"
  then show "word_end (x @ t # b) = map (\<lambda>r. r @ t # b) (word_end x)"
    by (cases x) (auto simp: word_end_def stopper_def)
qed

lemmas stops_intros = stops_lit stops_one_of stops_followed stops_either stops_optional stops_word_end

text \<open>Blanks after the text can only extend what a match leaves.\<close>

definition all_space :: "string \<Rightarrow> bool" where
  "all_space ws \<longleftrightarrow> list_all is_space ws"

definition grows :: "matcher \<Rightarrow> bool" where
  "grows m \<longleftrightarrow> (\<forall>x r ws. all_space ws \<longrightarrow> r \<in> set (m x) \<longrightarrow> (\<exists>ws'. all_space ws' \<and> r @ ws' \<in> set (m (x @ ws))))"

lemma growsD: "grows m \<Longrightarrow> all_space ws \<Longrightarrow> r \<in> set (m x) \<Longrightarrow> \<exists>ws'. all_space ws' \<and> r @ ws' \<in> set (m (x @ ws))"
  by (simp add: grows_def)

lemma grows_lit: "grows (lit w)"
  unfolding grows_def lit_def by (auto simp: has_prefix_iff)

lemma grows_one_of: "grows (one_of ws)"
  using growsD [OF grows_lit] unfolding grows_def one_of_def by fastforce

lemma all_space_dropWhile: "all_space ws \<Longrightarrow> all_space (dropWhile P ws)"
  by (simp add: all_space_def list_all_iff) (metis set_dropWhileD)

lemma dropWhile_grows: "all_space ws \<Longrightarrow> \<exists>ws'. all_space ws' \<and> dropWhile P x @ ws' = dropWhile P (x @ ws)"
proof (cases "dropWhile P x = []")
  case True
  then have "dropWhile P (x @ ws) = dropWhile P ws" by (simp add: dropWhile_append)
  moreover assume "all_space ws"
  ultimately show ?thesis using True all_space_dropWhile [of ws P] by auto
next
  case False
  moreover assume "all_space ws"
  ultimately show ?thesis by (auto simp: dropWhile_append)
qed

lemma grows_blanks: "grows (blanks P)" "grows (blanks1 P)"
  using dropWhile_grows by (fastforce simp: grows_def blanks_def blanks1_def)+

lemma grows_followed:
  assumes "grows m" "grows n"
  shows "grows (followed m n)"
  unfolding grows_def followed_def
proof (intro allI impI)
  fix x r ws assume "all_space ws" "r \<in> set (concat (map n (m x)))"
  then obtain q where q: "q \<in> set (m x)" "r \<in> set (n q)" by auto
  obtain ws1 where ws1: "all_space ws1" "q @ ws1 \<in> set (m (x @ ws))"
    using growsD [OF assms(1) \<open>all_space ws\<close> q(1)] by blast
  obtain ws2 where "all_space ws2" "r @ ws2 \<in> set (n (q @ ws1))" using growsD [OF assms(2) ws1(1) q(2)] by blast
  then show "\<exists>ws'. all_space ws' \<and> r @ ws' \<in> set (concat (map n (m (x @ ws))))" using ws1(2) by auto
qed

lemma grows_either: "grows m \<Longrightarrow> grows n \<Longrightarrow> grows (either m n)"
  unfolding grows_def either_def by fastforce

lemma grows_optional: "grows m \<Longrightarrow> grows (optional m)"
  unfolding grows_def optional_def by fastforce

lemma space_not_word: "is_space c \<Longrightarrow> \<not> word_byte c"
  by (auto simp: is_space_def word_byte_def Let_def)

lemma grows_word_end: "grows word_end"
  unfolding grows_def
proof (intro allI impI)
  fix x r ws assume ws: "all_space ws" and r: "r \<in> set (word_end x)"
  have "x @ ws = [] \<or> \<not> word_byte (hd (x @ ws))"
    using ws r space_not_word by (cases x; cases ws) (auto simp: word_end_def all_space_def split: if_splits)
  then show "\<exists>ws'. all_space ws' \<and> r @ ws' \<in> set (word_end (x @ ws))"
    using ws r by (auto simp: word_end_def split: if_splits)
qed

lemmas grows_intros = grows_lit grows_one_of grows_blanks grows_followed grows_either grows_optional grows_word_end

text \<open>Every part of the pattern stops and grows, and it starts with a word.\<close>

definition word_first :: "matcher \<Rightarrow> bool" where
  "word_first m \<longleftrightarrow> (\<forall>c s. \<not> word_byte c \<longrightarrow> m (c # s) = [])"

lemma word_first_one_of: "list_all plain_word ws \<Longrightarrow> word_first (followed (one_of ws) m)"
proof -
  assume "list_all plain_word ws"
  then have "lit w (c # s) = []" if "\<not> word_byte c" "w \<in> set ws" for c s w
    using that by (cases w) (auto simp: lit_def list_all_iff plain_word_def)
  then show ?thesis by (auto simp: word_first_def followed_def one_of_def)
qed

lemma plain_words:
  "list_all plain_word severityWords" "list_all plain_word severity_nouns"
  "list_all plain_word [''is'', ''of'']" "list_all plain_word [''level'', ''rating'']" "plain_word ''is''"
  by (simp_all add: severityWords_def severity_nouns_def plain_word_def word_byte_def)

lemma plain_conflicting: "list_all plain_word (conflicting engine)"
  using plain_words(1) by (auto simp: conflicting_def list_all_iff)

lemma pattern_props:
  "stops_at (severity_pattern (conflicting engine))" "grows (severity_pattern (conflicting engine))"
  "word_first (severity_pattern (conflicting engine))"
proof -
  note defs = severity_pattern_def label_first_def noun_first_def connector_def
  show "stops_at (severity_pattern (conflicting engine))"
    unfolding defs by (intro stops_intros stops_seps plain_words plain_conflicting)
  show "grows (severity_pattern (conflicting engine))"
    unfolding defs by (intro grows_intros)
  have "word_first (label_first (conflicting engine))" "word_first (noun_first (conflicting engine))"
    unfolding defs by (intro word_first_one_of plain_words plain_conflicting)+
  then show "word_first (severity_pattern (conflicting engine))"
    by (simp add: word_first_def severity_pattern_def either_def)
qed

section \<open>Matches in a text and in its sentences\<close>

lemma re_find_stop:
  assumes "stops_at m" "word_first m" "stopper t"
  shows "re_find m w (x @ t # b) \<longleftrightarrow> re_find m w x \<or> re_find m False b"
proof (induction x arbitrary: w)
  case Nil
  have "m (t # b) = []" using assms(2,3) by (simp add: word_first_def stopper_def)
  then show ?case using assms(3) by (simp add: stopper_def)
next
  case (Cons c x)
  have "m ((c # x) @ t # b) = map (\<lambda>r. r @ t # b) (m (c # x))" using assms(1,3) unfolding stops_at_def by blast
  then show ?case using Cons by simp
qed

lemma re_find_skip: "word_first m \<Longrightarrow> list_all (\<lambda>c. \<not> word_byte c) ws \<Longrightarrow> re_find m w (ws @ s) \<Longrightarrow>
    re_find m w s \<or> re_find m False s"
  by (induction ws arbitrary: w) (auto simp: word_first_def)

lemma re_find_weaken: "re_find m True s \<Longrightarrow> re_find m False s"
  by (cases s) auto

lemma re_find_grow: "grows m \<Longrightarrow> all_space ws \<Longrightarrow> re_find m w x \<Longrightarrow> re_find m w (x @ ws)"
proof (induction x arbitrary: w)
  case (Cons c x)
  have "m ((c # x) @ ws) \<noteq> []" if "m (c # x) \<noteq> []"
    using that growsD [OF Cons.prems(1,2), of _ "c # x"] by (metis empty_iff empty_set last_in_set)
  then show ?case using Cons by auto
qed simp

text \<open>
  A closed sentence ends with a terminator and blanks. All sentences of a text but the last
  are closed, so no match crosses from one into the next.
\<close>

definition closed_sentence :: "string \<Rightarrow> bool" where
  "closed_sentence s \<longleftrightarrow> (\<exists>x t ws. s = x @ t # ws \<and> terminator t \<and> list_all (\<lambda>c. terminator c \<or> re_space c) ws)"

lemma lower_id: "terminator c \<Longrightarrow> lower_byte c = c" "re_space c \<Longrightarrow> lower_byte c = c"
  by (auto simp: terminator_def re_space_def lower_byte_def)

lemma terminator_stops: "terminator t \<Longrightarrow> stopper t"
  by (auto simp: terminator_def stopper_def word_byte_def re_sep_def re_space_def)

lemma gap_not_word: "terminator c \<or> re_space c \<Longrightarrow> \<not> word_byte (lower_byte c)"
  by (auto simp: terminator_def re_space_def lower_byte_def word_byte_def)

lemma closed_append:
  assumes "closed_sentence s" "stops_at m" "word_first m" "re_find m False (to_lower (s @ b))"
  shows "re_find m False (to_lower s) \<or> re_find m False (to_lower b)"
proof -
  obtain x t ws where s: "s = x @ t # ws" "terminator t" "list_all (\<lambda>c. terminator c \<or> re_space c) ws"
    using assms(1) by (auto simp: closed_sentence_def)
  have t: "stopper t" "lower_byte t = t" using s(2) by (rule terminator_stops, rule lower_id)
  have ws: "list_all (\<lambda>c. \<not> word_byte c) (to_lower ws)"
    using s(3) gap_not_word by (auto simp: to_lower_def list_all_iff)
  have "re_find m False (to_lower x) \<or> re_find m False (to_lower ws @ to_lower b)"
    using assms(4) re_find_stop [OF assms(2,3) t(1), of False "to_lower x" "to_lower ws @ to_lower b"] s(1) t(2) by simp
  then consider "re_find m False (to_lower x)" | "re_find m False (to_lower b)"
    using re_find_skip [OF assms(3) ws] by blast
  then show ?thesis
    using re_find_stop [OF assms(2,3) t(1), of False "to_lower x" "to_lower ws"] s(1) t(2) by cases simp_all
qed

lemma concat_conflict:
  assumes "stops_at m" "word_first m"
  shows "\<forall>s \<in> set (butlast ss). closed_sentence s \<Longrightarrow> re_find m False (to_lower (concat ss)) \<Longrightarrow>
    \<exists>s \<in> set ss. re_find m False (to_lower s)"
proof (induction ss)
  case (Cons s ss)
  show ?case
  proof (cases "ss = []")
    case True
    then show ?thesis using Cons.prems by simp
  next
    case False
    then have "closed_sentence s" "\<forall>s \<in> set (butlast ss). closed_sentence s" using Cons.prems(1) by auto
    then show ?thesis using closed_append [OF _ assms, of s "concat ss"] Cons by auto
  qed
qed simp

lemma butlast_filter: "set (butlast (filter P xs)) \<subseteq> set (butlast xs)"
proof (induction xs)
  case (Cons x xs)
  then show ?case by (auto split: if_splits dest: in_set_butlastD)
qed simp

lemma sentences_Nil: "sentences [] = []"
  by (simp add: sentences.simps)

lemma sentences_closed: "s \<in> set (butlast (sentences u)) \<Longrightarrow> closed_sentence s"
proof (induction u rule: sentences.induct)
  case (1 u)
  let ?t = "dropWhile terminator u"
  let ?r = "dropWhile (\<lambda>c. \<not> terminator c) ?t"
  let ?q = "dropWhile terminator ?r"
  show ?case
  proof (cases "?t = []")
    case True
    then show ?thesis using "1.prems" by (simp add: sentences.simps)
  next
    case False
    let ?first = "takeWhile (\<lambda>c. \<not> terminator c) ?t @ takeWhile terminator ?r @ takeWhile re_space ?q"
    have eq: "sentences u = ?first # sentences (dropWhile re_space ?q)"
      using False by (subst sentences.simps) (simp add: Let_def)
    show ?thesis
    proof (cases "sentences (dropWhile re_space ?q) = []")
      case True
      then show ?thesis using "1.prems" eq by simp
    next
      case more: False
      then have "dropWhile re_space ?q \<noteq> []" using sentences_Nil by metis
      then have "?r \<noteq> []" by (metis dropWhile.simps(1))
      then obtain t rs where r: "?r = t # rs" by (cases ?r) auto
      then have "terminator t" using hd_dropWhile [of "\<lambda>c. \<not> terminator c" ?t] by simp
      then have "closed_sentence ?first"
        unfolding closed_sentence_def r
        by (intro exI [of _ "takeWhile (\<lambda>c. \<not> terminator c) ?t"] exI [of _ t]
            exI [of _ "takeWhile terminator rs @ takeWhile re_space (dropWhile terminator (t # rs))"])
           (auto simp: list_all_iff dest: set_takeWhileD)
      then show ?thesis using "1.prems" "1.IH" [OF refl False refl refl] more eq by auto
    qed
  qed
qed

text \<open>Trimming cannot make a match.\<close>

lemma trim_parts: "\<exists>a b. s = a @ trim_space s @ b \<and> all_space a \<and> all_space b"
proof -
  have "s = takeWhile is_space s @ dropWhile is_space s" by simp
  moreover have "dropWhile is_space s = trim_space s @ rev (takeWhile is_space (rev (dropWhile is_space s)))"
    unfolding trim_space_def by (metis rev_append rev_rev_ident takeWhile_dropWhile_id)
  ultimately have "s = takeWhile is_space s @ trim_space s @ rev (takeWhile is_space (rev (dropWhile is_space s)))"
    by simp
  moreover have "all_space (takeWhile is_space x)" "all_space (rev (takeWhile is_space x))" for x
    by (auto simp: all_space_def list_all_iff dest: set_takeWhileD)
  ultimately show ?thesis by blast
qed

lemma trim_conflict:
  assumes "grows m" "re_find m False (to_lower (trim_space s))"
  shows "re_find m False (to_lower s)"
proof -
  have sp: "to_lower ws = ws" if "all_space ws" for ws
    using that by (induction ws) (auto simp: all_space_def is_space_def lower_byte_def Let_def)
  have skip: "re_find m False y" if "all_space a" "re_find m False x" "y = a @ x" for a x y
    using that
  proof (induction a arbitrary: y)
    case (Cons c a)
    then have "\<not> word_byte c" using space_not_word by (simp add: all_space_def)
    moreover have "re_find m False (a @ x)" using Cons by (simp add: all_space_def)
    ultimately show ?case using Cons.prems(3) by simp
  qed simp
  obtain a b where s: "s = a @ trim_space s @ b" "all_space a" "all_space b" using trim_parts by blast
  have "re_find m False (to_lower (trim_space s) @ b)" using re_find_grow [OF assms(1) s(3) assms(2)] .
  from skip [OF s(2) this refl] have "re_find m False (a @ to_lower (trim_space s) @ b)" .
  then show ?thesis using s sp by (metis to_lower_append)
qed

text \<open>
  C31. The narration the guard lets through states no severity other than the engine's, unless
  nothing but blanks would be left: then it is returned unchanged.
\<close>

theorem guard_leaves_no_conflict:
  assumes "trim_space sev \<noteq> []"
  shows "\<not> states_conflict (to_lower (trim_space sev)) (dropConflictingSeverity text sev) \<or>
    dropConflictingSeverity text sev = text \<and>
    trim_space (concat (filter (\<lambda>s. \<not> states_conflict (to_lower (trim_space sev)) s) (sentences text))) = []"
proof -
  let ?e = "to_lower (trim_space sev)"
  let ?kept = "filter (\<lambda>s. \<not> states_conflict ?e s) (sentences text)"
  note m = pattern_props [of ?e]
  have "\<forall>s \<in> set (butlast ?kept). closed_sentence s"
    by (intro ballI sentences_closed [where u = "text"]) (rule subsetD [OF butlast_filter])
  then have "\<not> states_conflict ?e (concat ?kept)"
    using concat_conflict [OF m(1,3)] unfolding states_conflict_def by fastforce
  then have "\<not> states_conflict ?e (trim_space (concat ?kept))"
    using trim_conflict [OF m(2)] unfolding states_conflict_def by blast
  moreover have "sentences [] = []" "trim_space [] = []" by (simp_all add: sentences_Nil trim_space_def)
  ultimately show ?thesis using assms by (auto simp: dropConflictingSeverity_def Let_def)
qed

theorem guard_leaves_no_conflict_witness:
  "\<not> states_conflict (to_lower (trim_space ''info'')) (dropConflictingSeverity ''A high risk. Act.'' ''info'') \<and>
   dropConflictingSeverity ''A high risk. Act.'' ''info'' = ''Act.''"
proof -
  have "dropConflictingSeverity ''A high risk. Act.'' ''info'' = ''Act.''" by code_simp
  moreover have "trim_space ''info'' \<noteq> []" by code_simp
  ultimately show ?thesis using guard_leaves_no_conflict [of "''info''" "''A high risk. Act.''"] by simp
qed

end
