(* ===== verification/Ai_Client.thy ===== *)
theory Ai_Client
  imports Ai_Evidence Ai_Guard
begin

text \<open>
  The client of the AI sidecar (\<open>internal/aiclient/client.go\<close>): its options, the request it
  builds from a packet, one attempt, and the retry loop. The HTTP client with its time limit,
  the wait between attempts (which a cancelled context ends) and the test whether a request
  can be built from an address are the environment.
\<close>

datatype transport = NoAnswer string | BadBody string | Answer http_response

record 'w ai_env =
  ae_http :: "duration \<Rightarrow> http_request \<Rightarrow> ('w, transport) state"
  ae_wait :: "duration \<Rightarrow> ('w, string option) state"
  ae_url_error :: "string \<Rightarrow> string option"

section \<open>Errors\<close>

datatype ai_kind = Unavailable | InvalidRequest | InvalidResponse | OtherError

record ai_error =
  er_kind :: ai_kind
  er_retryable :: bool
  er_text :: string

definition ErrUnavailable :: string where
  "ErrUnavailable = ''aiclient: hexward-ai sidecar unavailable''"

definition ErrInvalidRequest :: string where
  "ErrInvalidRequest = ''aiclient: hexward-ai rejected the request''"

definition ErrInvalidResponse :: string where
  "ErrInvalidResponse = ''aiclient: hexward-ai returned an unparsable response''"

definition plain_error :: "string \<Rightarrow> ai_error" where
  "plain_error t = \<lparr>er_kind = OtherError, er_retryable = False, er_text = t\<rparr>"

definition unavailable :: "string \<Rightarrow> ai_error" where
  "unavailable t = \<lparr>er_kind = Unavailable, er_retryable = True, er_text = ErrUnavailable @ t\<rparr>"

definition invalid_request :: "string \<Rightarrow> ai_error" where
  "invalid_request t = \<lparr>er_kind = InvalidRequest, er_retryable = False, er_text = ErrInvalidRequest @ t\<rparr>"

definition invalid_response :: "string \<Rightarrow> ai_error" where
  "invalid_response t = \<lparr>er_kind = InvalidResponse, er_retryable = False, er_text = ErrInvalidResponse @ t\<rparr>"

definition IsUnavailable :: "ai_error \<Rightarrow> bool" where
  "IsUnavailable e \<longleftrightarrow> er_kind e = Unavailable"

definition isRetryable :: "ai_error \<Rightarrow> bool" where
  "isRetryable e = er_retryable e"

section \<open>The client and its options\<close>

definition defaultTimeout :: duration where "defaultTimeout = 20 * second"
definition defaultMaxRetries :: int where "defaultMaxRetries = 2"
definition defaultRetryBackoff :: duration where "defaultRetryBackoff = 400 * (second div 1000)"
definition defaultModel :: string where "defaultModel = ''hexward-ai''"
definition defaultMaxTokens :: int where "defaultMaxTokens = 512"
definition DefaultBaseURL :: string where "DefaultBaseURL = ''http://127.0.0.1:8435''"

record ai_client =
  ac_base_url :: string
  ac_model :: string
  ac_timeout :: duration
  ac_max_retries :: int
  ac_backoff :: duration
  ac_grammar :: string
  ac_max_tokens :: int
  ac_api_key :: string
  ac_no_thinking :: bool

type_synonym ai_option = "ai_client \<Rightarrow> ai_client"

definition WithModel :: "string \<Rightarrow> ai_option" where
  "WithModel model c = (if model \<noteq> [] then c\<lparr>ac_model := model\<rparr> else c)"

definition WithTimeout :: "duration \<Rightarrow> ai_option" where
  "WithTimeout d c = (if d > 0 then c\<lparr>ac_timeout := d\<rparr> else c)"

definition WithMaxRetries :: "int \<Rightarrow> ai_option" where
  "WithMaxRetries n c = (if n \<ge> 0 then c\<lparr>ac_max_retries := n\<rparr> else c)"

definition WithRetryBackoff :: "duration \<Rightarrow> ai_option" where
  "WithRetryBackoff d c = (if d > 0 then c\<lparr>ac_backoff := d\<rparr> else c)"

definition WithGrammar :: "string \<Rightarrow> ai_option" where
  "WithGrammar gbnf c = c\<lparr>ac_grammar := gbnf\<rparr>"

definition WithMaxTokens :: "int \<Rightarrow> ai_option" where
  "WithMaxTokens n c = (if n > 0 then c\<lparr>ac_max_tokens := n\<rparr> else c)"

definition WithAPIKey :: "string \<Rightarrow> ai_option" where
  "WithAPIKey key c = c\<lparr>ac_api_key := trim_space key\<rparr>"

definition WithDisableThinking :: ai_option where
  "WithDisableThinking c = c\<lparr>ac_no_thinking := True\<rparr>"

definition trim_right_slashes :: "string \<Rightarrow> string" where
  "trim_right_slashes s = rev (dropWhile (\<lambda>c. c = CHR ''/'') (rev s))"

definition New :: "string \<Rightarrow> ai_option list \<Rightarrow> ai_client" where
  "New baseURL opts =
     (let base = (if baseURL = [] then DefaultBaseURL else baseURL)
      in fold (\<lambda>opt c. opt c) opts
           \<lparr>ac_base_url = trim_right_slashes base, ac_model = defaultModel, ac_timeout = defaultTimeout,
            ac_max_retries = defaultMaxRetries, ac_backoff = defaultRetryBackoff, ac_grammar = [],
            ac_max_tokens = defaultMaxTokens, ac_api_key = [], ac_no_thinking = False\<rparr>)"

section \<open>The prompt\<close>

abbreviation lf :: string where "lf \<equiv> [CHR 0x0A]"

definition systemPrompt :: string where
  \<open>systemPrompt =
     ''You are the Hexward AI Assist narrator. You will receive one JSON evidence packet describing a '' @
     ''single security finding that a Hexward product's own deterministic engine already produced.'' @
     lf @
     lf @
     ''Rules you must follow exactly:'' @
     lf @
     ''1. Use ONLY the fields inside the evidence packet. Do not state any fact (an ID, a rule '' @
     ''number, an IP address, a hostname, a CVE identifier, a date, or any other specific value) that '' @
     ''is not present in the packet. Do not calculate, convert, round or re-express numbers and dates '' @
     ''(no "that is about 11 years"); quote them exactly as the packet gives them. If something '' @
     ''relevant is not in the packet, say plainly that the evidence does not contain it.'' @
     lf @
     ''2. You narrate; you do not decide. Never invent a new finding, never change or imply a '' @
     ''different severity, never claim something is fixed, safe, or dangerous beyond what the packet '' @
     ''already states.'' @
     lf @
     ''3. If the feature is hexward.explain_finding: explain in plain language what the finding '' @
     ''means, using only its check, title, target, severity, status, remediation and evidence fields, '' @
     ''and why it matters to the owner of that target. Keep the explanation to at most four '' @
     ''sentences. In what_to_verify give two to four concrete checks a person can actually perform '' @
     ''before acting (for example: confirm who owns the target, confirm the change window, re-run the '' @
     ''check after the fix) '' @
     em_dash @
     '' do not simply restate evidence values as list items. You may restate the packet's own '' @
     ''remediation text; never invent a different fix, command, or configuration.'' @
     lf @
     ''4. If the feature is rulehawk.explain_finding: explain in plain language why the rule '' @
     ''relationship in the packet matters, and list what a human should verify before touching the '' @
     ''rule. Never draft a replacement rule or CLI command.'' @
     lf @
     ''5. If the feature is auditlight.why_disappeared: explain, using only the packet's "status" '' @
     ''field and its plain meaning (fixed / no_longer_detected / check_failed / target_skipped), '' @
     ''which of those happened and what that means for how much the report can be trusted. Never '' @
     ''claim "fixed" for any other status value.'' @
     lf @
     ''6. Respond with a single JSON object matching the required schema exactly: {"explanation": '' @
     ''string, "what_to_verify": [string, ...], "disclaimer": string}. No prose outside the JSON '' @
     ''object.''\<close>

definition languageInstruction :: "string \<Rightarrow> string" where
  \<open>languageInstruction lang =
     (if lang = ''id'' then
     ''Write the "explanation" and every "what_to_verify" item in Bahasa Indonesia. Keep rule text, '' @
     ''hostnames, IP addresses, identifiers and other field values exactly as they appear in the '' @
     ''packet '' @
     em_dash @
     '' do not translate them.''
      else
     ''Write the "explanation" and every "what_to_verify" item in English.'')\<close>

section \<open>The request\<close>

text \<open>
  \<open>json.Marshal\<close> of a \<open>json.RawMessage\<close>: the text must be valid JSON and is copied without
  blanks, with the characters HTML reacts to escaped. The flag says whether the position is
  inside a string.
\<close>

fun compact_json :: "bool \<Rightarrow> string \<Rightarrow> string" where
  "compact_json in_string [] = []"
| "compact_json in_string (c # s) =
     (if \<not> in_string \<and> is_json_space c then compact_json in_string s
      else if c = CHR ''<'' \<or> c = CHR ''>'' \<or> c = CHR ''&''
        then CHR 0x5C # ''u00'' @ [hex_digit (of_char c div 16), hex_digit (of_char c mod 16)] @ compact_json in_string s
      else if c = CHR 0xE2 \<and> take 2 s = [CHR 0x80, CHR 0xA8] then CHR 0x5C # ''u2028'' @ compact_json in_string (drop 2 s)
      else if c = CHR 0xE2 \<and> take 2 s = [CHR 0x80, CHR 0xA9] then CHR 0x5C # ''u2029'' @ compact_json in_string (drop 2 s)
      else if in_string \<and> c = CHR 0x5C then c # take 1 s @ compact_json in_string (drop 1 s)
      else c # compact_json (if c = CHR 0x22 then \<not> in_string else in_string) s)"

definition marshal_raw :: "string \<Rightarrow> string option" where
  "marshal_raw b = (if json_parse b = None then None else Some (compact_json False b))"

definition marshal_packet :: "evidence_packet \<Rightarrow> string option" where
  "marshal_packet p =
     map_option (\<lambda>raw. json_object
        ([(''feature'', json_string (ep_feature p)), (''product'', json_string (ep_product p)), (''finding'', raw)] @
         opt_field ''language'' (ep_language p)))
       (marshal_raw (ep_finding p))"

definition findingSeverity :: "evidence_packet \<Rightarrow> string" where
  "findingSeverity p =
     (if ep_feature p \<noteq> FeatureExplainFinding then []
      else (case Unmarshal (get_string ''severity'') (ep_finding p) of
              None \<Rightarrow> [] | Some s \<Rightarrow> trim_space s))"

definition severityInstruction :: "evidence_packet \<Rightarrow> string" where
  "severityInstruction p =
     (let sev = findingSeverity p in
      if sev = [] then []
      else ''The engine rated this finding '' @ go_quote sev @
        ''. If you mention severity, use exactly that word; never call it higher or lower. '')"

definition chat_message :: "string \<Rightarrow> string \<Rightarrow> string" where
  "chat_message role content = json_object [(''role'', json_string role), (''content'', json_string content)]"

definition system_text :: "string \<Rightarrow> string" where
  "system_text lang = systemPrompt @ lf @ ''7. '' @ languageInstruction lang"

definition user_text :: "evidence_packet \<Rightarrow> string \<Rightarrow> string" where
  "user_text p payload =
     payload @ lf @ lf @ severityInstruction p @ languageInstruction (ep_language p)"

definition request_body :: "ai_client \<Rightarrow> string \<Rightarrow> string \<Rightarrow> string" where
  "request_body c system user =
     json_object
       ([(''model'', json_string (ac_model c)),
         (''messages'', json_array [chat_message ''system'' system, chat_message ''user'' user]),
         (''temperature'', ''0.2'')] @
        opt_field ''grammar'' (ac_grammar c) @
        (if ac_max_tokens c = 0 then [] else [(''max_tokens'', itoa (ac_max_tokens c))]) @
        (if ac_no_thinking c then [(''chat_template_kwargs'', json_object [(''enable_thinking'', ''false'')])] else []))"

section \<open>One attempt\<close>

record explanation =
  ex_text :: string
  ex_verify :: "string list"
  ex_disclaimer :: string

definition truncate_bytes :: "string \<Rightarrow> nat \<Rightarrow> string" where
  "truncate_bytes b n = (if length b \<le> n then b else take n b @ ellipsis)"

text \<open>
  A pointer to a struct, and a slice of strings: a repeated key adds to the struct, and
  decodes into the elements the slice already has.
\<close>

definition get_obj_ptr :: "string \<Rightarrow> jobj \<Rightarrow> jobj option option" where
  "get_obj_ptr name obj =
     fold (\<lambda>v acc. Option.bind acc (\<lambda>old.
            case v of DNull \<Rightarrow> Some None
            | DObj fs \<Rightarrow> Some (Some ((case old of None \<Rightarrow> [] | Some gs \<Rightarrow> gs) @ fs))
            | _ \<Rightarrow> None))
       (field_values name obj) (Some None)"

fun decode_strings :: "string list \<Rightarrow> jdoc list \<Rightarrow> string list option" where
  "decode_strings old [] = Some []"
| "decode_strings old (d # ds) =
     (let rest = decode_strings (drop 1 old) ds in
      case d of DStr s \<Rightarrow> map_option ((#) s) rest
      | DNull \<Rightarrow> map_option ((#) (case old of [] \<Rightarrow> [] | x # _ \<Rightarrow> x)) rest
      | _ \<Rightarrow> None)"

definition get_strings :: "string \<Rightarrow> jobj \<Rightarrow> string list option" where
  "get_strings name obj =
     fold (\<lambda>v acc. Option.bind acc (\<lambda>old.
            case v of DArr xs \<Rightarrow> decode_strings old xs | DNull \<Rightarrow> Some [] | _ \<Rightarrow> None))
       (field_values name obj) (Some [])"

definition dec_message :: "jobj \<Rightarrow> (string \<times> string) option" where
  "dec_message o' = do {
     m \<leftarrow> get_obj ''message'' o';
     r \<leftarrow> get_string ''role'' m;
     c \<leftarrow> get_string ''content'' m;
     Some (r, c) }"

text \<open>The choices and, where the server reported one, the error's message.\<close>

definition dec_response :: "jobj \<Rightarrow> ((string \<times> string) list \<times> string option) option" where
  "dec_response o' = do {
     cs \<leftarrow> get_list dec_message ''choices'' o';
     e \<leftarrow> get_obj_ptr ''error'' o';
     case e of
       None \<Rightarrow> Some (cs, None)
     | Some fs \<Rightarrow> do {
         m \<leftarrow> get_string ''message'' fs;
         t \<leftarrow> get_string ''type'' fs;
         Some (cs, Some m) } }"

definition dec_explanation :: "jobj \<Rightarrow> explanation option" where
  "dec_explanation o' = do {
     t \<leftarrow> get_string ''explanation'' o';
     w \<leftarrow> get_strings ''what_to_verify'' o';
     d \<leftarrow> get_string ''disclaimer'' o';
     Some \<lparr>ex_text = t, ex_verify = w, ex_disclaimer = d\<rparr> }"

text \<open>What the model's content, the body of a success, and an answer of the transport come to.\<close>

definition judge_content :: "string \<Rightarrow> ai_error + explanation" where
  "judge_content content = (case Unmarshal dec_explanation content of
     None \<Rightarrow> Inl (invalid_response
       ('': model content was not the required JSON schema: '' @ truncate_bytes content 300))
   | Some ex \<Rightarrow>
       if trim_space (ex_text ex) = [] then Inl (invalid_response '': empty explanation field'')
       else Inr ex)"

definition judge_body :: "string \<Rightarrow> ai_error + explanation" where
  "judge_body body = (case Unmarshal dec_response body of
     None \<Rightarrow> Inl (invalid_response ('': not valid JSON: '' @ truncate_bytes body 300))
   | Some (choices, err) \<Rightarrow>
       (case err of
          Some msg \<Rightarrow> Inl (unavailable ('': sidecar reported an error: '' @ msg))
        | None \<Rightarrow> (case choices of
            [] \<Rightarrow> Inl (invalid_response '': response had no choices'')
          | (_, content) # _ \<Rightarrow> judge_content content)))"

definition judge :: "ai_client \<Rightarrow> transport \<Rightarrow> ai_error + explanation" where
  "judge c t = (case t of
     NoAnswer e \<Rightarrow> Inl \<lparr>er_kind = OtherError, er_retryable = True,
         er_text = ''aiclient: request to '' @ ac_base_url c @ '': '' @ e\<rparr>
   | BadBody e \<Rightarrow> Inl \<lparr>er_kind = OtherError, er_retryable = True,
         er_text = ''aiclient: read response body: '' @ e\<rparr>
   | Answer resp \<Rightarrow>
       (let body = take (2 ^ 20) (hr_body resp);
            status = '': HTTP '' @ itoa (hr_code resp) @ '': '' @ truncate_bytes body 300
        in if hr_code resp \<ge> 500 then Inl (unavailable status)
           else if hr_code resp \<ge> 400 then Inl (invalid_request status)
           else judge_body body))"

definition completions_url :: "ai_client \<Rightarrow> string" where
  "completions_url c = ac_base_url c @ ''/v1/chat/completions''"

definition completions_request :: "ai_client \<Rightarrow> string \<Rightarrow> http_request" where
  "completions_request c body =
     \<lparr>hq_method = ''POST'', hq_url = completions_url c,
      hq_headers = (''Content-Type'', ''application/json'') #
        (if ac_api_key c \<noteq> [] then [(''Authorization'', ''Bearer '' @ ac_api_key c)] else []),
      hq_body = body\<rparr>"

definition doRequest :: "'w ai_env \<Rightarrow> ai_client \<Rightarrow> string \<Rightarrow> ('w, ai_error + explanation) state" where
  "doRequest env c body = (case ae_url_error env (completions_url c) of
     Some e \<Rightarrow> ret (Inl (plain_error (''aiclient: build request: '' @ e)))
   | None \<Rightarrow> do {
       t \<leftarrow> ae_http env (ac_timeout c) (completions_request c body);
       ret (judge c t) })"

section \<open>The retry loop\<close>

definition finish_explanation :: "string \<Rightarrow> explanation \<Rightarrow> explanation" where
  "finish_explanation sev ex =
     (let ex1 = (if sev \<noteq> [] then ex\<lparr>ex_text := dropConflictingSeverity (ex_text ex) sev\<rparr> else ex)
      in ex1\<lparr>ex_disclaimer := CanonicalDisclaimer\<rparr>)"

definition given_up :: "ai_client \<Rightarrow> string \<Rightarrow> ai_error" where
  "given_up c latest = \<lparr>er_kind = Unavailable, er_retryable = False,
     er_text = ErrUnavailable @ '' (after '' @ itoa (ac_max_retries c + 1) @ '' attempt(s)): '' @ latest\<rparr>"

text \<open>The attempts that are left, the number of the next one, and the text of the last error.\<close>

fun explain_from ::
  "'w ai_env \<Rightarrow> ai_client \<Rightarrow> string \<Rightarrow> string \<Rightarrow> nat \<Rightarrow> int \<Rightarrow> string \<Rightarrow> ('w, ai_error + explanation) state" where
  "explain_from env c body sev 0 attempt latest = ret (Inl (given_up c latest))"
| "explain_from env c body sev (Suc n) attempt latest = do {
     cancelled \<leftarrow> (if attempt > 0 then ae_wait env (wrap64 (attempt * ac_backoff c)) else ret None);
     case cancelled of
       Some e \<Rightarrow> ret (Inl (plain_error e))
     | None \<Rightarrow> do {
         r \<leftarrow> doRequest env c body;
         case r of
           Inr ex \<Rightarrow> ret (Inr (finish_explanation sev ex))
         | Inl e \<Rightarrow> if \<not> isRetryable e then ret (Inl e)
                    else explain_from env c body sev n (attempt + 1) (er_text e) } }"

definition Explain :: "'w ai_env \<Rightarrow> ai_client \<Rightarrow> evidence_packet \<Rightarrow> ('w, ai_error + explanation) state" where
  "Explain env c p0 =
     (if ep_feature p0 = [] then ret (Inl (plain_error ''aiclient: EvidencePacket.Feature is required''))
      else if ep_product p0 = [] then ret (Inl (plain_error ''aiclient: EvidencePacket.Product is required''))
      else if ep_finding p0 = [] then ret (Inl (plain_error ''aiclient: EvidencePacket.Finding is required''))
      else (let p = p0\<lparr>ep_language := NormalizeLanguage (ep_language p0)\<rparr> in
        case marshal_packet p of
          None \<Rightarrow> ret (Inl (plain_error (''aiclient: marshal evidence packet: '' @ json_error)))
        | Some payload \<Rightarrow>
            explain_from env c (request_body c (system_text (ep_language p)) (user_text p payload))
              (findingSeverity p) (nat (ac_max_retries c + 1)) 0 ''<nil>''))"

end
