(* ===== verification/Web_Server.thy ===== *)
theory Web_Server
  imports Sched Sqlite_Store License Domain_Verify Channels Ai_Client
begin

text \<open>
  The dashboard API (\<open>web/server.go\<close>): the server over a store, a scheduler and an
  activation, and its handlers as steps from a request and a state to a response and a state.
  A handler is atomic; the immediate scan of an added target is recorded as launched and runs
  as a step of its own. The static files and the routes of other products are not modelled.
\<close>

section \<open>The stores behind the server\<close>

record 's store_api = "'s store_ops" +
  op_get :: "'s \<Rightarrow> string \<Rightarrow> string \<Rightarrow> store_error + store_rec option"
  op_list_open :: "'s \<Rightarrow> string \<Rightarrow> store_error + store_rec list"
  op_list_all :: "'s \<Rightarrow> string \<Rightarrow> store_error + store_rec list"

text \<open>The engine sees only the operations it calls.\<close>

definition engine_ops :: "'s store_api \<Rightarrow> 's store_ops" where
  "engine_ops api = \<lparr>op_list_by_target = op_list_by_target api, op_upsert = op_upsert api\<rparr>"

text \<open>Saving reports an error; deleting may panic, which is \<open>None\<close>, and its error is ignored.\<close>

record 's target_api =
  ta_save :: "string \<Rightarrow> string \<Rightarrow> string \<Rightarrow> 's \<Rightarrow> store_error + 's"
  ta_delete :: "string \<Rightarrow> string \<Rightarrow> 's \<Rightarrow> 's option"

definition mem_api :: "mem_store store_api" where
  "mem_api = \<lparr>op_list_by_target = mem_ListByTarget, op_upsert = mem_Upsert,
     op_get = (\<lambda>s m fp. Inr (mem_Get s m fp)), op_list_open = (\<lambda>s m. Inr (mem_ListOpen s m)),
     op_list_all = (\<lambda>s m. Inr (mem_ListAll s m))\<rparr>"

definition mem_target_api :: "mem_store target_api" where
  "mem_target_api = \<lparr>ta_save = (\<lambda>m raw c s. Inr (mem_SaveTarget s m raw c)), ta_delete = (\<lambda>m c s. mem_DeleteTarget s m c)\<rparr>"

definition sql_api :: "float_reader \<Rightarrow> sqlite store_api" where
  "sql_api flt = \<lparr>op_list_by_target = sql_ListByTarget flt, op_upsert = sql_Upsert,
     op_get = (\<lambda>s m fp. Inr (sql_Get flt s m fp)), op_list_open = (\<lambda>s m. Inr (sql_ListOpen flt s m)),
     op_list_all = (\<lambda>s m. Inr (sql_ListAll flt s m))\<rparr>"

definition sql_target_api :: "sqlite target_api" where
  "sql_target_api = \<lparr>ta_save = (\<lambda>m raw c s. Inr (sql_SaveTarget m raw c s)), ta_delete = (\<lambda>m c s. Some (sql_DeleteTarget m c s))\<rparr>"

section \<open>The server\<close>

record ai_assist =
  aa_client :: ai_client
  aa_endpoint :: string
  aa_keyed :: bool
  aa_language :: string

text \<open>The metadata of an exported event.\<close>

record export_meta = hfs_meta +
  hm_version :: string
  hm_host :: string

text \<open>
  What does not change: the product, the interfaces, the issuer's key, and the environment
  (the zone of the clock, how an error of the collector reads, writing a file, which gives the
  content afterwards and whether it succeeded, and the line of the event library for a snapshot of a finding).
\<close>

record ('s, 'e) server =
  sv_module :: module_info
  sv_api :: "'s store_api"
  sv_targets :: "'s target_api option"
  sv_limits :: "(tier \<Rightarrow> limits option) option"
  sv_verify :: "(string \<Rightarrow> store_error + challenge list) option"
  sv_lib :: license_lib
  sv_pub :: string
  sv_license_file :: string
  sv_ai :: "ai_assist option"
  sv_new_id :: id_gen
  sv_zone :: "time \<Rightarrow> int"
  sv_error_text :: "'e \<Rightarrow> string"
  sv_write_file :: "string \<Rightarrow> string option \<Rightarrow> string option \<times> bool"
  sv_export_meta :: export_meta
  sv_export_line :: "export_meta \<Rightarrow> hfs_source \<Rightarrow> time \<Rightarrow> string option"

text \<open>What does: the scheduler, the store, the activation, the license file and launched scans.\<close>

record ('s, 'e) web =
  wb_sched :: "'e scheduler"
  wb_store :: 's
  wb_activation :: activation
  wb_file :: "string option"
  wb_launched :: "target list"

definition NewServer :: "('s, 'e) server \<Rightarrow> 'e scheduler \<Rightarrow> 's \<Rightarrow> string option \<Rightarrow> time \<Rightarrow> ('s, 'e) web" where
  "NewServer sv sched st file now =
     (let key = (if sv_license_file sv \<noteq> [] then (case file of Some b \<Rightarrow> trim_space b | None \<Rightarrow> []) else [])
      in \<lparr>wb_sched = sched, wb_store = st,
          wb_activation = Activate (sv_lib sv) (sv_pub sv) (mi_id (sv_module sv)) key now,
          wb_file = file, wb_launched = []\<rparr>)"

definition effLimits :: "('s, 'e) server \<Rightarrow> ('s, 'e) web \<Rightarrow> limits" where
  "effLimits sv w =
     (case (case sv_limits sv of None \<Rightarrow> None | Some table \<Rightarrow> table (act_tier (wb_activation w))) of
        Some l \<Rightarrow> l | None \<Rightarrow> act_limits (wb_activation w))"

definition canAdd :: "limits \<Rightarrow> int \<Rightarrow> bool" where
  "canAdd l current \<longleftrightarrow> l_max_targets l = 0 \<or> current < l_max_targets l"

abbreviation module_id :: "('s, 'e) server \<Rightarrow> string" where
  "module_id sv \<equiv> mi_id (sv_module sv)"

section \<open>Requests and responses\<close>

record request =
  rq_query :: "(string \<times> string) list"
  rq_body :: string
  rq_now :: time

text \<open>A panic of a handler closes the connection without an answer: code 0.\<close>

record response =
  rp_code :: int
  rp_type :: string
  rp_body :: string

definition query_get :: "string \<Rightarrow> request \<Rightarrow> string" where
  "query_get k rq = (case map_of (rq_query rq) k of None \<Rightarrow> [] | Some v \<Rightarrow> v)"

text \<open>\<open>json.NewDecoder(body).Decode(&req)\<close>: the first value of the body; what follows is left.\<close>

definition decode_body :: "(jobj \<Rightarrow> 'a option) \<Rightarrow> string \<Rightarrow> 'a option" where
  "decode_body dec b =
     (case json_value (2 * length b + 2) b of
        None \<Rightarrow> None | Some (v, rest) \<Rightarrow> Option.bind (obj_fields v) dec)"

text \<open>An encoder ends its value with a newline; a value it cannot encode leaves the body empty.\<close>

definition writeJSON :: "string option \<Rightarrow> response" where
  "writeJSON v = \<lparr>rp_code = 200, rp_type = ''application/json'',
     rp_body = (case v of None \<Rightarrow> [] | Some b \<Rightarrow> b @ [CHR 0x0A])\<rparr>"

definition httpError :: "int \<Rightarrow> string \<Rightarrow> response" where
  "httpError code msg = \<lparr>rp_code = code, rp_type = ''application/json'',
     rp_body = json_object [(''error'', json_string msg)] @ [CHR 0x0A]\<rparr>"

definition ok_reply :: response where
  "ok_reply = writeJSON (Some (json_object [(''ok'', json_string ''true'')]))"

definition panicked :: response where
  "panicked = \<lparr>rp_code = 0, rp_type = [], rp_body = []\<rparr>"

definition json_bool :: "bool \<Rightarrow> string" where
  "json_bool b = (if b then ''true'' else ''false'')"

section \<open>Reading handlers\<close>

definition severity_counts :: "store_rec list \<Rightarrow> (string \<times> jval) list" where
  "severity_counts recs =
     map (\<lambda>(k, n). (k, JInt n))
       (fold (\<lambda>r m. amap_upd (f_severity r) (\<lambda>old. (case old of None \<Rightarrow> 0 | Some n \<Rightarrow> n) + 1) m) recs [])"

definition handleSummary :: "('s, 'e) server \<Rightarrow> ('s, 'e) web \<Rightarrow> response" where
  "handleSummary sv w = (case op_list_open (sv_api sv) (wb_store w) (module_id sv) of
     Inl _ \<Rightarrow> httpError 500 ''store error''
   | Inr open_recs \<Rightarrow>
       (let act = wb_activation w;
            lim = effLimits sv w
        in writeJSON (map_option (\<lambda>counts. json_object
             ([(''product'', json_string (mi_name (sv_module sv))), (''tier'', json_string (act_tier act))] @
              opt_field ''notice'' (act_notice act) @
              [(''counts'', counts), (''open_total'', itoa (int (length open_recs))),
               (''targets'', itoa (int (length (ListTargets (module_id sv) (wb_sched w))))),
               (''max_targets'', itoa (l_max_targets lim)), (''can_scan_now'', json_bool (l_scan_now lim)),
               (''target_kind'', json_string (mi_target_kind (sv_module sv)))]))
             (json_marshal (JMap (severity_counts open_recs))))))"

text \<open>Resolved for more than a day, or without the instant it was resolved at.\<close>

definition stale :: "time \<Rightarrow> store_rec \<Rightarrow> bool" where
  "stale now r \<longleftrightarrow> f_status r = StatusResolved \<and>
     (case f_resolved_at r of None \<Rightarrow> True | Some t \<Rightarrow> time_sub now t > 24 * hour)"

definition finding_json :: "(time \<Rightarrow> int) \<Rightarrow> store_rec \<Rightarrow> string option" where
  "finding_json zone r = do {
     ev \<leftarrow> evidence_field (f_evidence r);
     first \<leftarrow> marshal_time zone (f_first_seen r);
     seen \<leftarrow> marshal_time zone (f_last_seen r);
     Some (json_object
       ([(''fingerprint'', json_string (f_fingerprint r)), (''target'', json_string (f_target r)),
         (''check'', json_string (f_check r)), (''title'', json_string (f_title r)),
         (''severity'', json_string (f_severity r)), (''status'', json_string (f_status r)),
         (''remediation'', json_string (f_remediation r))] @ ev @
        [(''first_seen'', first), (''last_seen'', seen)])) }"

definition handleFindings :: "('s, 'e) server \<Rightarrow> request \<Rightarrow> ('s, 'e) web \<Rightarrow> response" where
  "handleFindings sv rq w = (case op_list_all (sv_api sv) (wb_store w) (module_id sv) of
     Inl _ \<Rightarrow> httpError 500 ''store error''
   | Inr recs \<Rightarrow> writeJSON (map_option json_array
       (those (map (finding_json (sv_zone sv)) (filter (\<lambda>r. \<not> stale (rq_now rq) r) recs)))))"

definition handleListTargets :: "('s, 'e) server \<Rightarrow> ('s, 'e) web \<Rightarrow> response" where
  "handleListTargets sv w = writeJSON (Some (json_array
     (map (\<lambda>t. json_object [(''Raw'', json_string (t_raw t)), (''Canonical'', json_string (t_canonical t))])
       (ListTargets (module_id sv) (wb_sched w)))))"

text \<open>A map is written with its keys in order.\<close>

definition handleGetLicense :: "('s, 'e) server \<Rightarrow> ('s, 'e) web \<Rightarrow> response" where
  "handleGetLicense sv w =
     (let act = wb_activation w;
          base = [(''notice'', json_string (act_notice act)), (''tier'', json_string (act_tier act))]
      in writeJSON (case act_license act of
           None \<Rightarrow> Some (json_object base)
         | Some lic \<Rightarrow> map_option (\<lambda>exp. json_object
             ([(''email'', json_string (lic_email lic)), (''expires_at'', exp)] @ base))
             (marshal_time (sv_zone sv) (lic_expires_at lic))))"

definition challenge_json :: "challenge \<Rightarrow> string" where
  "challenge_json c = json_object
     [(''dns_record'', json_string (DNSRecordName c)), (''dns_value'', json_string (DNSRecordValue c)),
      (''domain'', json_string (ch_domain c)), (''http_contents'', json_string (HTTPFileContents c)),
      (''http_url'', json_string (HTTPURL c)), (''instructions'', json_string (Instructions c)),
      (''state'', json_string (ch_state c))]"

definition handleVerification :: "('s, 'e) server \<Rightarrow> response" where
  "handleVerification sv = (case sv_verify sv of
     None \<Rightarrow> writeJSON (Some (json_object [(''applicable'', json_bool False), (''challenges'', json_array [])]))
   | Some lst \<Rightarrow> (case lst (module_id sv) of
       Inl _ \<Rightarrow> httpError 500 ''verification store error''
     | Inr cs \<Rightarrow> writeJSON (Some (json_object
         [(''applicable'', json_bool True), (''challenges'', json_array (map challenge_json cs))]))))"

text \<open>Metadata without a product are the module's.\<close>

definition filled_meta :: "('s, 'e) server \<Rightarrow> export_meta" where
  "filled_meta sv =
     (if hm_product (sv_export_meta sv) = []
      then (sv_export_meta sv)\<lparr>hm_product := module_id sv, hm_version := mi_version (sv_module sv)\<rparr>
      else sv_export_meta sv)"

definition handleFindingsExport :: "('s, 'e) server \<Rightarrow> request \<Rightarrow> ('s, 'e) web \<Rightarrow> response" where
  "handleFindingsExport sv rq w =
     (let f = query_get ''format'' rq in
      if f \<noteq> [] \<and> f \<noteq> ''hfs'' then httpError 400 ''format must be hfs''
      else (case op_list_all (sv_api sv) (wb_store w) (module_id sv) of
        Inl _ \<Rightarrow> httpError 500 ''store error''
      | Inr recs \<Rightarrow>
          \<lparr>rp_code = 200, rp_type = ''application/x-ndjson; charset=utf-8'',
           rp_body = concat (map (\<lambda>r. case sv_export_line sv (filled_meta sv) (hfs_Source (to_finding r)) (rq_now rq) of
               None \<Rightarrow> [] | Some line \<Rightarrow> line @ [CHR 0x0A])
             (filter (\<lambda>r. \<not> stale (rq_now rq) r) recs))\<rparr>))"

section \<open>Handlers that change something\<close>

definition dec_status_request :: "jobj \<Rightarrow> (string \<times> string) option" where
  "dec_status_request o' = do {
     fp \<leftarrow> get_string ''fingerprint'' o';
     st \<leftarrow> get_string ''status'' o';
     Some (fp, st) }"

definition handleFindingStatus :: "('s, 'e) server \<Rightarrow> request \<Rightarrow> ('s, 'e) web \<Rightarrow> response \<times> ('s, 'e) web" where
  "handleFindingStatus sv rq w = (case decode_body dec_status_request (rq_body rq) of
     None \<Rightarrow> (httpError 400 ''invalid JSON'', w)
   | Some (fp, status) \<Rightarrow>
       if status \<noteq> StatusAcknowledged \<and> status \<noteq> StatusSuppressed \<and> status \<noteq> StatusOpen
       then (httpError 400 ''status must be acknowledged, suppressed, or open'', w)
       else (case op_get (sv_api sv) (wb_store w) (module_id sv) fp of
           Inl _ \<Rightarrow> (httpError 404 ''finding not found'', w)
         | Inr None \<Rightarrow> (httpError 404 ''finding not found'', w)
         | Inr (Some r) \<Rightarrow>
             (case op_upsert (sv_api sv) (wb_store w) (r\<lparr>f_status := status\<rparr>) of
                Inl _ \<Rightarrow> (httpError 500 ''store error'', w)
              | Inr st \<Rightarrow> (ok_reply, w\<lparr>wb_store := st\<rparr>))))"

definition sched_error_text :: "('e \<Rightarrow> string) \<Rightarrow> 'e sched_error \<Rightarrow> string" where
  "sched_error_text text e = (case e of
     EmptyModuleID \<Rightarrow> ''collector ModuleInfo.ID must not be empty''
   | AlreadyRegistered m \<Rightarrow> ''module already registered: '' @ m
   | UnknownModule m \<Rightarrow> ''unknown module: '' @ m
   | InvalidTarget x \<Rightarrow> text x
   | AlreadyStarted \<Rightarrow> ''scheduler already started'')"

definition upgrade_url :: string where
  "upgrade_url = ''https://whop.com/nizar-tuanku/tenantwatch?utm_source=app''"

definition handleAddTarget :: "('s, 'e) server \<Rightarrow> request \<Rightarrow> ('s, 'e) web \<Rightarrow> response \<times> ('s, 'e) web" where
  "handleAddTarget sv rq w = (case decode_body (get_string ''target'') (rq_body rq) of
     None \<Rightarrow> (httpError 400 ''invalid JSON'', w)
   | Some raw \<Rightarrow>
       if \<not> canAdd (effLimits sv w) (int (length (ListTargets (module_id sv) (wb_sched w))))
       then (httpError 402 (''target limit reached for your tier '' @ em_dash @ '' Pro and Team: '' @ upgrade_url), w)
       else (case AddTarget (module_id sv) raw (wb_sched w) of
           Inl e \<Rightarrow> (httpError 400 (sched_error_text (sv_error_text sv) e), w)
         | Inr (sched, t, scans) \<Rightarrow>
             (let w1 = w\<lparr>wb_sched := sched, wb_launched := wb_launched w @ (if scans then [t] else [])\<rparr>;
                  done = writeJSON (Some (json_object [(''canonical'', json_string (t_canonical t))]))
              in case sv_targets sv of
                   None \<Rightarrow> (done, w1)
                 | Some ta \<Rightarrow>
                     (case ta_save ta (module_id sv) (t_raw t) (t_canonical t) (wb_store w1) of
                        Inl _ \<Rightarrow> (httpError 500 ''target added but could not be persisted'', w1)
                      | Inr st \<Rightarrow> (done, w1\<lparr>wb_store := st\<rparr>)))))"

definition handleRemoveTarget :: "('s, 'e) server \<Rightarrow> request \<Rightarrow> ('s, 'e) web \<Rightarrow> response \<times> ('s, 'e) web" where
  "handleRemoveTarget sv rq w =
     (let canonical = query_get ''canonical'' rq in
      if canonical = [] then (httpError 400 ''canonical query parameter required'', w)
      else (let w1 = w\<lparr>wb_sched := RemoveTarget (module_id sv) canonical (wb_sched w)\<rparr> in
        case sv_targets sv of
          None \<Rightarrow> (ok_reply, w1)
        | Some ta \<Rightarrow> (case ta_delete ta (module_id sv) canonical (wb_store w1) of
            None \<Rightarrow> (panicked, w1)
          | Some st \<Rightarrow> (ok_reply, w1\<lparr>wb_store := st\<rparr>))))"

definition handleScanNow :: "('s, 'e) server \<Rightarrow> request \<Rightarrow> ('s, 'e) web \<Rightarrow> response \<times> ('s, 'e) web" where
  "handleScanNow sv rq w =
     (if \<not> l_scan_now (effLimits sv w)
      then (httpError 402 (''on-demand scans are a Pro feature '' @ em_dash @
              '' scheduled scans continue as normal. Pro and Team: '' @ upgrade_url), w)
      else (case ScanNow (engine_ops (sv_api sv)) (sv_new_id sv) (rq_now rq) (module_id sv) (wb_sched w) (wb_store w) of
          Inl e \<Rightarrow> (httpError 500 (sched_error_text (sv_error_text sv) e), w)
        | Inr st \<Rightarrow> (ok_reply, w\<lparr>wb_store := st\<rparr>)))"

definition handleSetLicense :: "('s, 'e) server \<Rightarrow> request \<Rightarrow> ('s, 'e) web \<Rightarrow> response \<times> ('s, 'e) web" where
  "handleSetLicense sv rq w = (case decode_body (get_string ''key'') (rq_body rq) of
     None \<Rightarrow> (httpError 400 ''invalid JSON'', w)
   | Some raw \<Rightarrow>
       (let key = trim_space raw;
            act = Activate (sv_lib sv) (sv_pub sv) (module_id sv) key (rq_now rq);
            done = writeJSON (Some (json_object [(''tier'', json_string (act_tier act))]))
        in if act_tier act = TierFree \<and> key \<noteq> [] then (httpError 400 (act_notice act), w)
           else if sv_license_file sv = [] then (done, w\<lparr>wb_activation := act\<rparr>)
           else (case sv_write_file sv (key @ [CHR 0x0A]) (wb_file w) of
               (file, False) \<Rightarrow> (httpError 500 ''could not persist license key'', w\<lparr>wb_file := file\<rparr>)
             | (file, True) \<Rightarrow> (done, w\<lparr>wb_file := file, wb_activation := act\<rparr>))))"

end
