(* ===== verification/Web_Ai.thy ===== *)
theory Web_Ai
  imports Web_Server
begin

text \<open>
  The optional narration of a finding (\<open>web/ai.go\<close>): the configuration, the gate of the
  edition, and the two handlers. Parsing an address and reading the key file are arguments.
\<close>

section \<open>Configuration\<close>

record ai_config =
  ai_url :: string
  ai_key_file :: string
  ai_language :: string
  ai_no_thinking :: bool

text \<open>\<open>parse\<close> gives the scheme and the host of an address, \<open>read\<close> a file or its error.\<close>

definition NewAIAssist ::
  "(string \<Rightarrow> (string \<times> string) option) \<Rightarrow> (string \<Rightarrow> string + string) \<Rightarrow> ai_config \<Rightarrow> string + ai_assist option" where
  "NewAIAssist parse read cfg =
     (let raw = trim_space (ai_url cfg) in
      if raw = [] then Inr None
      else if (case parse raw of None \<Rightarrow> True
               | Some (scheme, host) \<Rightarrow> scheme \<noteq> ''http'' \<and> scheme \<noteq> ''https'' \<or> host = [])
      then Inl (''ai-assist-url must be an http(s) base URL such as http://127.0.0.1:8435, got '' @ go_quote raw)
      else (let endpoint = trim_right_slashes raw;
                lang = NormalizeLanguage (ai_language cfg);
                base_opts = [WithTimeout (120 * second), WithMaxRetries 0, WithMaxTokens 300];
                finish = (\<lambda>keyed opts. \<lparr>aa_client = New endpoint (opts @ (if ai_no_thinking cfg then [WithDisableThinking] else [])),
                   aa_endpoint = endpoint, aa_keyed = keyed, aa_language = lang\<rparr>)
            in if ai_key_file cfg = [] then Inr (Some (finish False base_opts))
               else (case read (ai_key_file cfg) of
                   Inl e \<Rightarrow> Inl (''read ai-assist-key-file: '' @ e)
                 | Inr b \<Rightarrow>
                     (let key = trim_space b in
                      if key = [] then Inl (''ai-assist-key-file '' @ ai_key_file cfg @ '' is empty'')
                      else Inr (Some (finish True (base_opts @ [WithAPIKey key])))))))"

section \<open>The gate\<close>

text \<open>\<open>None\<close> when narration may be used, otherwise the sentence shown instead.\<close>

definition aiAllowed :: "('s, 'e) server \<Rightarrow> ('s, 'e) web \<Rightarrow> string option" where
  "aiAllowed sv w = (case sv_ai sv of
     None \<Rightarrow> Some ''AI Assist is off. Start with -ai-assist-url to enable it.''
   | Some a \<Rightarrow>
       if aa_keyed a \<and> act_tier (wb_activation w) \<noteq> TierPro \<and> act_tier (wb_activation w) \<noteq> TierTeam
       then Some (''A dedicated AI host or your own endpoint (API key) needs a Pro or Team licence. '' @
              ''The free edition works with a hexward-ai sidecar on the same host.'')
       else None)"

definition true_field :: "string \<Rightarrow> bool \<Rightarrow> (string \<times> string) list" where
  "true_field name b = (if b then [(name, json_bool True)] else [])"

definition handleAIStatus :: "('s, 'e) server \<Rightarrow> ('s, 'e) web \<Rightarrow> response" where
  "handleAIStatus sv w =
     (let reason = (case aiAllowed sv w of None \<Rightarrow> [] | Some t \<Rightarrow> t)
      in writeJSON (Some (json_object
           ([(''enabled'', json_bool (aiAllowed sv w = None))] @ opt_field ''reason'' reason @
            (case sv_ai sv of None \<Rightarrow> []
             | Some a \<Rightarrow> opt_field ''language'' (aa_language a) @ true_field ''keyed'' (aa_keyed a))))))"

section \<open>Explaining a finding\<close>

definition unavailable_reply :: "string \<Rightarrow> response" where
  "unavailable_reply reason =
     writeJSON (Some (json_object ([(''available'', json_bool False)] @ opt_field ''reason'' reason)))"

definition explained_reply :: "explanation \<Rightarrow> response" where
  "explained_reply ex =
     writeJSON (Some (json_object
       ([(''available'', json_bool True)] @ opt_field ''explanation'' (ex_text ex) @
        (if ex_verify ex = [] then [] else [(''what_to_verify'', json_array (map json_string (ex_verify ex)))]) @
        opt_field ''disclaimer'' (ex_disclaimer ex))))"

definition finding_of_record :: "('s, 'e) server \<Rightarrow> store_rec \<Rightarrow> core_finding" where
  "finding_of_record sv r =
     \<lparr>cf_fingerprint = f_fingerprint r, cf_module = module_id sv, cf_check = f_check r, cf_title = f_title r,
      cf_target = f_target r, cf_severity = f_severity r, cf_status = f_status r,
      cf_remediation = f_remediation r, cf_evidence = f_evidence r\<rparr>"

text \<open>
  A body is read up to 4096 bytes. A value that is complete within them is decoded whatever
  follows; one that is not fails, because reading on is an error. The web state is only read:
  the handler acts on the outside world alone.
\<close>

definition handleExplainFinding ::
  "('s, 'e) server \<Rightarrow> 'w ai_env \<Rightarrow> request \<Rightarrow> ('s, 'e) web \<Rightarrow> ('w, response) state" where
  "handleExplainFinding sv env rq w =
     (case decode_body (get_string ''fingerprint'') (take 4096 (rq_body rq)) of
        None \<Rightarrow> ret (httpError 400 ''fingerprint is required'')
      | Some fp \<Rightarrow>
          if trim_space fp = [] then ret (httpError 400 ''fingerprint is required'')
          else (case op_get (sv_api sv) (wb_store w) (module_id sv) fp of
            Inl _ \<Rightarrow> ret (httpError 500 ''store error'')
          | Inr None \<Rightarrow> ret (httpError 404 ''no such finding'')
          | Inr (Some r) \<Rightarrow>
              (case (aiAllowed sv w, sv_ai sv) of
                 (Some reason, _) \<Rightarrow> ret (unavailable_reply reason)
               | (None, None) \<Rightarrow> ret (unavailable_reply [])
               | (None, Some a) \<Rightarrow>
                   (case NewFindingPacket (module_id sv) (aa_language a) (finding_of_record sv r) of
                      Inl _ \<Rightarrow> ret (unavailable_reply ''This finding has no title or severity to explain.'')
                    | Inr packet \<Rightarrow> do {
                        x \<leftarrow> Explain env (aa_client a) packet;
                        ret (case x of
                          Inl _ \<Rightarrow> unavailable_reply ''The AI Assist sidecar did not answer. The finding is unaffected.''
                        | Inr ex \<Rightarrow> explained_reply ex) }))))"

end
