(* ===== verification/Web_Handler.thy ===== *)
theory Web_Handler
  imports Web_Ai
begin

text \<open>
  The mux of the dashboard (\<open>Handler\<close> and \<open>registerAI\<close> in \<open>web\<close>) and the behaviours of the
  running server: requests and scans in any order, each one atomic step.
\<close>

section \<open>Routes\<close>

datatype endpoint = Summary | Findings | FindingsExport | FindingStatus | TargetList | TargetAdd
  | TargetRemove | Scan | LicenseGet | LicenseSet | Verification | AIStatus | ExplainFinding

definition routes :: "((string \<times> string) \<times> endpoint) list" where
  "routes =
     [((''GET'', ''/api/summary''), Summary),
      ((''GET'', ''/api/findings''), Findings),
      ((''GET'', ''/api/findings/export''), FindingsExport),
      ((''POST'', ''/api/findings/status''), FindingStatus),
      ((''GET'', ''/api/targets''), TargetList),
      ((''POST'', ''/api/targets''), TargetAdd),
      ((''DELETE'', ''/api/targets''), TargetRemove),
      ((''POST'', ''/api/scan''), Scan),
      ((''GET'', ''/api/license''), LicenseGet),
      ((''POST'', ''/api/license''), LicenseSet),
      ((''GET'', ''/api/verification''), Verification)]"

definition registerAI :: "((string \<times> string) \<times> endpoint) list" where
  "registerAI =
     [((''GET'', ''/api/ai''), AIStatus), ((''POST'', ''/api/findings/explain''), ExplainFinding)]"

text \<open>
  A pattern for \<open>GET\<close> also takes \<open>HEAD\<close>. \<open>None\<close> is what these patterns do not take: the
  static files, or the mux's refusal.
\<close>

definition route :: "string \<Rightarrow> string \<Rightarrow> endpoint option" where
  "route verb path = map_of (routes @ registerAI) (if verb = ''HEAD'' then ''GET'' else verb, path)"

definition serve ::
  "('s, 'e) server \<Rightarrow> 'w ai_env \<Rightarrow> endpoint \<Rightarrow> request \<Rightarrow> ('s, 'e) web \<Rightarrow> ('w, response \<times> ('s, 'e) web) state" where
  "serve sv env ep rq w = (case ep of
     Summary \<Rightarrow> ret (handleSummary sv w, w)
   | Findings \<Rightarrow> ret (handleFindings sv rq w, w)
   | FindingsExport \<Rightarrow> ret (handleFindingsExport sv rq w, w)
   | FindingStatus \<Rightarrow> ret (handleFindingStatus sv rq w)
   | TargetList \<Rightarrow> ret (handleListTargets sv w, w)
   | TargetAdd \<Rightarrow> ret (handleAddTarget sv rq w)
   | TargetRemove \<Rightarrow> ret (handleRemoveTarget sv rq w)
   | Scan \<Rightarrow> ret (handleScanNow sv rq w)
   | LicenseGet \<Rightarrow> ret (handleGetLicense sv w, w)
   | LicenseSet \<Rightarrow> ret (handleSetLicense sv rq w)
   | Verification \<Rightarrow> ret (handleVerification sv, w)
   | AIStatus \<Rightarrow> ret (handleAIStatus sv w, w)
   | ExplainFinding \<Rightarrow> do { resp \<leftarrow> handleExplainFinding sv env rq w; ret (resp, w) })"

definition Handler ::
  "('s, 'e) server \<Rightarrow> 'w ai_env \<Rightarrow> string \<Rightarrow> string \<Rightarrow> request \<Rightarrow> ('s, 'e) web \<Rightarrow> ('w, response \<times> ('s, 'e) web) state option" where
  "Handler sv env verb path rq w = map_option (\<lambda>ep. serve sv env ep rq w) (route verb path)"

section \<open>The running server\<close>

text \<open>
  A step is a served request, a scan of the scheduler's sweep, or a scan that adding a target
  launched.
\<close>

inductive web_step :: "('s, 'e) server \<Rightarrow> 'w ai_env \<Rightarrow> ('s, 'e) web \<Rightarrow> ('s, 'e) web \<Rightarrow> bool"
  for sv env where
  step_request: "Handler sv env verb path rq w = Some act \<Longrightarrow> run_state act u = ((resp, w'), u') \<Longrightarrow>
    web_step sv env w w'"
| step_sweep: "map_of (sd_modules (wb_sched w)) m = Some reg \<Longrightarrow> t \<in> set (snapshotTargets reg) \<Longrightarrow>
    web_step sv env w (w\<lparr>wb_store := fst (scanOne (engine_ops (sv_api sv)) (sv_new_id sv) now reg t (wb_store w))\<rparr>)"
| step_launched: "map_of (sd_modules (wb_sched w)) (module_id sv) = Some reg \<Longrightarrow> t \<in> set (wb_launched w) \<Longrightarrow>
    web_step sv env w (w\<lparr>wb_launched := remove1 t (wb_launched w),
      wb_store := fst (scanOne (engine_ops (sv_api sv)) (sv_new_id sv) now reg t (wb_store w))\<rparr>)"

inductive web_run :: "('s, 'e) server \<Rightarrow> 'w ai_env \<Rightarrow> ('s, 'e) web \<Rightarrow> ('s, 'e) web \<Rightarrow> bool"
  for sv env w0 where
  run_start: "web_run sv env w0 w0"
| run_step: "web_run sv env w0 w \<Longrightarrow> web_step sv env w w' \<Longrightarrow> web_run sv env w0 w'"

section \<open>What a request can change\<close>

lemma run_state_serve:
  "run_state (serve sv env ep rq w) u = ((resp, w'), u') \<Longrightarrow>
     w' = w \<or>
     ep = FindingStatus \<and> handleFindingStatus sv rq w = (resp, w') \<or>
     ep = TargetAdd \<and> handleAddTarget sv rq w = (resp, w') \<or>
     ep = TargetRemove \<and> handleRemoveTarget sv rq w = (resp, w') \<or>
     ep = Scan \<and> handleScanNow sv rq w = (resp, w') \<or>
     ep = LicenseSet \<and> handleSetLicense sv rq w = (resp, w')"
  by (cases ep) (auto simp: serve_def run_state_bind split: prod.splits)

text \<open>A request of a reading method changes nothing.\<close>

lemma reading_request:
  assumes "Handler sv env verb path rq w = Some act" "run_state act u = ((resp, w'), u')"
    "verb = ''GET'' \<or> verb = ''HEAD''"
  shows "w' = w"
proof -
  obtain ep where ep: "route verb path = Some ep" "act = serve sv env ep rq w"
    using assms(1) by (auto simp: Handler_def)
  have "ep \<notin> {FindingStatus, TargetAdd, TargetRemove, Scan, LicenseSet}"
    using ep(1) assms(3) by (auto simp: route_def routes_def registerAI_def split: if_splits)
  then show ?thesis using run_state_serve assms(2) ep(2) by fastforce
qed

text \<open>The part of the state each handler leaves alone.\<close>

lemma web_same [simp]:
  "w\<lparr>wb_store := wb_store w\<rparr> = w" "w\<lparr>wb_file := wb_file w, wb_activation := wb_activation w\<rparr> = w"
  by simp_all

lemma status_frame:
  assumes "handleFindingStatus sv rq w = (resp, w')"
  obtains st where "w' = w\<lparr>wb_store := st\<rparr>"
proof -
  have "w' = w \<or> (\<exists>st. w' = w\<lparr>wb_store := st\<rparr>)"
    using assms by (auto simp: handleFindingStatus_def split: option.splits if_splits sum.splits)
  with that show thesis by (metis web_same(1))
qed

lemma add_frame:
  assumes "handleAddTarget sv rq w = (resp, w')"
  obtains "w' = w"
  | raw sched t scans st where "canAdd (effLimits sv w) (int (length (ListTargets (module_id sv) (wb_sched w))))"
    "AddTarget (module_id sv) raw (wb_sched w) = Inr (sched, t, scans)"
    "w' = w\<lparr>wb_sched := sched, wb_launched := wb_launched w @ (if scans then [t] else []), wb_store := st\<rparr>"
proof (cases "w' = w")
  case False
  then obtain raw sched t scans where step:
    "canAdd (effLimits sv w) (int (length (ListTargets (module_id sv) (wb_sched w))))"
    "decode_body (get_string ''target'') (rq_body rq) = Some raw"
    "AddTarget (module_id sv) raw (wb_sched w) = Inr (sched, t, scans)"
    using assms by (auto simp: handleAddTarget_def split: option.splits if_splits sum.splits)
  define w1 where "w1 = w\<lparr>wb_sched := sched, wb_launched := wb_launched w @ (if scans then [t] else [])\<rparr>"
  have "w' = w1 \<or> (\<exists>st. w' = w1\<lparr>wb_store := st\<rparr>)"
    using assms step unfolding handleAddTarget_def Let_def w1_def [symmetric]
    by (auto simp: w1_def [symmetric] simp del: if_split split: option.splits sum.splits)
  then obtain st where "w' = w1\<lparr>wb_store := st\<rparr>" by (metis web_same(1))
  then show thesis using that(2) [OF step(1,3)] by (auto simp: w1_def)
qed (use that(1) in simp)

lemma remove_frame:
  assumes "handleRemoveTarget sv rq w = (resp, w')"
  obtains "w' = w" | c st where "w' = w\<lparr>wb_sched := RemoveTarget (module_id sv) c (wb_sched w), wb_store := st\<rparr>"
proof -
  define w1 where "w1 = w\<lparr>wb_sched := RemoveTarget (module_id sv) (query_get ''canonical'' rq) (wb_sched w)\<rparr>"
  have "w' = w \<or> w' = w1 \<or> (\<exists>st. w' = w1\<lparr>wb_store := st\<rparr>)"
    using assms unfolding handleRemoveTarget_def Let_def w1_def [symmetric]
    by (auto split: option.splits if_splits)
  then obtain st where "w' = w \<or> w' = w1\<lparr>wb_store := st\<rparr>" by (metis web_same(1))
  then show thesis using that by (auto simp: w1_def)
qed

lemma scan_frame:
  assumes "handleScanNow sv rq w = (resp, w')"
  obtains "w' = w" | st where "l_scan_now (effLimits sv w)"
    "ScanNow (engine_ops (sv_api sv)) (sv_new_id sv) (rq_now rq) (module_id sv) (wb_sched w) (wb_store w) = Inr st"
    "w' = w\<lparr>wb_store := st\<rparr>"
  using assms that by (auto simp: handleScanNow_def split: sum.splits if_splits)

lemma license_frame:
  assumes "handleSetLicense sv rq w = (resp, w')"
  obtains fl where "w' = w\<lparr>wb_file := fl\<rparr>"
  | fl raw where "w' = w\<lparr>wb_file := fl,
      wb_activation := Activate (sv_lib sv) (sv_pub sv) (module_id sv) (trim_space raw) (rq_now rq)\<rparr>"
proof -
  have "w' = w \<or> (\<exists>fl. w' = w\<lparr>wb_file := fl\<rparr>) \<or>
    (\<exists>fl raw. w' = w\<lparr>wb_file := fl,
        wb_activation := Activate (sv_lib sv) (sv_pub sv) (module_id sv) (trim_space raw) (rq_now rq)\<rparr> \<or>
      w' = w\<lparr>wb_activation := Activate (sv_lib sv) (sv_pub sv) (module_id sv) (trim_space raw) (rq_now rq)\<rparr>)"
    using assms by (auto simp: handleSetLicense_def Let_def split: option.splits if_splits prod.splits bool.splits)
  moreover have "x = x\<lparr>wb_file := wb_file x\<rparr>" "x\<lparr>wb_activation := a\<rparr> = x\<lparr>wb_file := wb_file x, wb_activation := a\<rparr>"
    for x :: "('s, 'e) web" and a by simp_all
  ultimately show thesis using that by metis
qed

section \<open>What a step can change\<close>

lemma request_run:
  assumes "Handler sv env verb path rq w = Some act" "run_state act u = ((resp, w'), u')"
  obtains ep where "route verb path = Some ep" "run_state (serve sv env ep rq w) u = ((resp, w'), u')"
  using assms that by (auto simp: Handler_def)

lemma request_sched:
  assumes "run_state (serve sv env ep rq w) u = ((resp, w'), u')"
  shows "wb_sched w' = wb_sched w \<and> wb_launched w' = wb_launched w \<or>
    (\<exists>raw t scans. ep = TargetAdd \<and> canAdd (effLimits sv w) (int (length (ListTargets (module_id sv) (wb_sched w)))) \<and>
       AddTarget (module_id sv) raw (wb_sched w) = Inr (wb_sched w', t, scans) \<and>
       set (wb_launched w') \<subseteq> insert t (set (wb_launched w))) \<or>
    (\<exists>c. ep = TargetRemove \<and> wb_sched w' = RemoveTarget (module_id sv) c (wb_sched w) \<and> wb_launched w' = wb_launched w)"
  using run_state_serve [OF assms]
proof (elim disjE conjE)
  assume ep: "ep = TargetAdd" and add: "handleAddTarget sv rq w = (resp, w')"
  show ?thesis
  proof (rule add_frame [OF add])
    fix raw sched t scans st
    assume can: "canAdd (effLimits sv w) (int (length (ListTargets (module_id sv) (wb_sched w))))"
      and at: "AddTarget (module_id sv) raw (wb_sched w) = Inr (sched, t, scans)"
      and w': "w' = w\<lparr>wb_sched := sched, wb_launched := wb_launched w @ (if scans then [t] else []), wb_store := st\<rparr>"
    have "set (wb_launched w') \<subseteq> insert t (set (wb_launched w))" "wb_sched w' = sched" by (auto simp: w')
    then show ?thesis using ep can at by blast
  qed simp
next
  assume "ep = TargetRemove" "handleRemoveTarget sv rq w = (resp, w')"
  then show ?thesis by (elim remove_frame) auto
next
  assume "handleFindingStatus sv rq w = (resp, w')"
  then show ?thesis by (elim status_frame) simp
next
  assume "handleScanNow sv rq w = (resp, w')"
  then show ?thesis by (elim scan_frame) simp_all
next
  assume "handleSetLicense sv rq w = (resp, w')"
  then show ?thesis by (elim license_frame) simp_all
qed simp

lemma request_activation:
  assumes "run_state (serve sv env ep rq w) u = ((resp, w'), u')"
  shows "wb_activation w' = wb_activation w \<or>
    (\<exists>key now. wb_activation w' = Activate (sv_lib sv) (sv_pub sv) (module_id sv) key now)"
  using run_state_serve [OF assms]
proof (elim disjE conjE)
  assume "handleAddTarget sv rq w = (resp, w')"
  then show ?thesis by (elim add_frame) auto
next
  assume "handleRemoveTarget sv rq w = (resp, w')"
  then show ?thesis by (elim remove_frame) auto
next
  assume "handleFindingStatus sv rq w = (resp, w')"
  then show ?thesis by (elim status_frame) simp
next
  assume "handleScanNow sv rq w = (resp, w')"
  then show ?thesis by (elim scan_frame) simp_all
next
  assume "handleSetLicense sv rq w = (resp, w')"
  then show ?thesis by (elim license_frame) auto
qed simp

lemma step_sched:
  assumes "web_step sv env w w'"
  shows "wb_sched w' = wb_sched w \<and> set (wb_launched w') \<subseteq> set (wb_launched w) \<or>
    (\<exists>raw t scans. canAdd (effLimits sv w) (int (length (ListTargets (module_id sv) (wb_sched w)))) \<and>
       AddTarget (module_id sv) raw (wb_sched w) = Inr (wb_sched w', t, scans) \<and>
       set (wb_launched w') \<subseteq> insert t (set (wb_launched w))) \<or>
    (\<exists>c. wb_sched w' = RemoveTarget (module_id sv) c (wb_sched w) \<and> wb_launched w' = wb_launched w)"
  using assms
proof cases
  case (step_request verb pth rq act u resp u')
  obtain ep where "run_state (serve sv env ep rq w) u = ((resp, w'), u')"
    using step_request by (rule request_run)
  from request_sched [OF this] show ?thesis by (metis order_refl)
qed (auto dest: set_remove1_subset [THEN subsetD])

lemma step_activation:
  assumes "web_step sv env w w'"
  shows "wb_activation w' = wb_activation w \<or>
    (\<exists>key now. wb_activation w' = Activate (sv_lib sv) (sv_pub sv) (module_id sv) key now)"
  using assms
proof cases
  case (step_request verb pth rq act u resp u')
  obtain ep where "run_state (serve sv env ep rq w) u = ((resp, w'), u')"
    using step_request by (rule request_run)
  from request_activation [OF this] show ?thesis .
qed auto

text \<open>So every activation a server has ever had comes from a key.\<close>

lemma run_activation:
  assumes "web_run sv env (NewServer sv sched st fl now) w"
  shows "\<exists>key now. wb_activation w = Activate (sv_lib sv) (sv_pub sv) (module_id sv) key now"
  using assms
proof (induction rule: web_run.induct)
  case run_start
  then show ?case by (auto simp: NewServer_def Let_def)
next
  case (run_step w w')
  then show ?case using step_activation by metis
qed

end
