(* ===== verification/Startup.thy ===== *)
theory Startup
  imports Web_Handler Channel_Flags Sched_Props Notify
begin

text \<open>
  The start of the program (\<open>cmd/tenantwatch/main.go\<close>): the decisions of \<open>main\<close> from the
  flags, the credentials and the database to the running server, its scheduler and its
  channels, in the order in which a wrong setting stops it. Parsing the flags, opening the
  database, signals and the listening socket are not modelled.
\<close>

section \<open>The issuer's key\<close>

text \<open>\<open>base64.StdEncoding\<close>: the standard alphabet, padded; line breaks are skipped.\<close>

definition std_val :: "char \<Rightarrow> nat option" where
  "std_val c = (if c = CHR ''+'' then Some 62 else if c = CHR ''/'' then Some 63
     else if c = CHR ''-'' \<or> c = CHR ''_'' then None else b64_val c)"

definition std_decode :: "string \<Rightarrow> string option" where
  "std_decode s =
     (let t = filter (\<lambda>c. c \<noteq> CHR 0x0A \<and> c \<noteq> CHR 0x0D) s;
          body = takeWhile (\<lambda>c. c \<noteq> CHR ''='') t;
          pad = drop (length body) t
      in if length t mod 4 = 0 \<and> length pad \<le> 2 \<and> list_all (\<lambda>c. c = CHR ''='') pad
         then (case those (map std_val body) of None \<Rightarrow> None | Some vs \<Rightarrow> b64_bytes vs)
         else None)"

definition issuer_pub :: "string \<Rightarrow> string" where
  "issuer_pub key = (if key \<noteq> [] then (case std_decode key of Some b \<Rightarrow> b | None \<Rightarrow> []) else [])"

section \<open>Flags and channels\<close>

record start_flags =
  fl_license :: string
  fl_channels :: channel_flags
  fl_slack :: string
  fl_tg_token :: string
  fl_tg_chat :: string
  fl_ai :: ai_config

datatype ('tls, 'mode) start_channel =
    FlagChannel "('tls, 'mode) channel"
  | SlackChannel string
  | TelegramChannel string string

text \<open>The exit code and the message after the program's name.\<close>

datatype start_error = Fatal int string

definition upgradeNeeded :: "string \<Rightarrow> string \<Rightarrow> string" where
  "upgradeNeeded flag what = flag @ '' needs '' @ what @ '', which are part of the Pro and Team editions. '' @
     ''The free edition sends to webhook and syslog. '' @
     ''Upgrade at https://whop.com/nizar-tuanku/tenantwatch?utm_source=app''"

definition start_slack :: "tier \<Rightarrow> start_flags \<Rightarrow> string + ('tls, 'mode) start_channel list" where
  "start_slack t fl =
     (if fl_slack fl = [] then Inr []
      else if \<not> product_AllowsChannel t ''slack'' then Inl (upgradeNeeded ''-slack-webhook'' ''Slack alerts'')
      else Inr [SlackChannel (fl_slack fl)])"

definition start_telegram :: "tier \<Rightarrow> start_flags \<Rightarrow> string + ('tls, 'mode) start_channel list" where
  "start_telegram t fl =
     (if fl_tg_token fl = [] \<and> fl_tg_chat fl = [] then Inr []
      else if \<not> product_AllowsChannel t ''telegram''
      then Inl (upgradeNeeded ''-telegram-token/-telegram-chat'' ''Telegram alerts'')
      else if fl_tg_token fl = [] \<or> fl_tg_chat fl = []
      then Inl ''telegram needs both -telegram-token and -telegram-chat''
      else Inr [TelegramChannel (fl_tg_token fl) (fl_tg_chat fl)])"

definition start_channels ::
  "('tls, 'mode) sink_lib \<Rightarrow> tier \<Rightarrow> start_flags \<Rightarrow> start_error + ('tls, 'mode) start_channel list" where
  "start_channels lib t fl = (case build_channels lib (fl_channels fl) of
     Inl e \<Rightarrow> Inl (Fatal 2 e)
   | Inr chans \<Rightarrow> (case start_slack t fl of
        Inl e \<Rightarrow> Inl (Fatal 1 e)
      | Inr slack \<Rightarrow> (case start_telegram t fl of
           Inl e \<Rightarrow> Inl (Fatal 1 e)
         | Inr telegram \<Rightarrow> Inr (map FlagChannel chans @ slack @ telegram))))"

section \<open>The main program\<close>

text \<open>A saved target that is no longer accepted is skipped.\<close>

definition restore_targets :: "string \<Rightarrow> string list \<Rightarrow> 'e scheduler \<Rightarrow> 'e scheduler" where
  "restore_targets module saved s =
     fold (\<lambda>raw s. case AddTarget module raw s of Inl _ \<Rightarrow> s | Inr (s', t, scans) \<Rightarrow> s') saved s"

definition empty_config :: sched_config where
  "empty_config = \<lparr>sc_workers = 0, sc_scan_timeout = 0, sc_retry_base = 0, sc_retry_max = 0, sc_interval_override = 0\<rparr>"

text \<open>A dispatcher with the default settings is bound to the scheduler when there is a channel.\<close>

definition start_dispatcher :: "('tls, 'mode) start_channel list \<Rightarrow> dispatcher option" where
  "start_dispatcher chans =
     (if chans = [] then None
      else Some (NewDispatcher \<lparr>nc_flush_interval = 0, nc_max_batch = 0, nc_min_severity = [],
                   nc_retries = 0, nc_retry_delay = 0\<rparr>))"

record ('tls, 'mode, 'e) running =
  ru_server :: "(sqlite, 'e tenant_error) server"
  ru_web :: "(sqlite, 'e tenant_error) web"
  ru_channels :: "('tls, 'mode) start_channel list"
  ru_dispatcher :: "dispatcher option"
  ru_loops :: "string list"

text \<open>
  \<open>sv\<close> carries what \<open>main\<close> takes over as it is: the libraries, the clock's zone, the file
  writer and the interfaces of the store.
\<close>

definition main_server ::
  "(sqlite, 'e tenant_error) server \<Rightarrow> float_reader \<Rightarrow> string \<Rightarrow> string \<Rightarrow> start_flags \<Rightarrow> ai_assist option \<Rightarrow>
     (sqlite, 'e tenant_error) server" where
  "main_server sv flt key host fl ai = sv\<lparr>
     sv_module := Describe, sv_api := sql_api flt, sv_targets := Some sql_target_api,
     sv_limits := Some product_TierLimits, sv_verify := None, sv_pub := issuer_pub key,
     sv_license_file := fl_license fl, sv_ai := ai,
     sv_export_meta := \<lparr>hm_product = mi_id Describe, hm_version = mi_version Describe, hm_host = host\<rparr>\<rparr>"

definition startup ::
  "(sqlite, 'e tenant_error) server \<Rightarrow> float_reader \<Rightarrow> ('tls, 'mode) sink_lib \<Rightarrow>
     (string \<Rightarrow> (string \<times> string) option) \<Rightarrow> (string \<Rightarrow> string + string) \<Rightarrow> string \<Rightarrow> string \<Rightarrow>
     string + 'e source \<Rightarrow> start_flags \<Rightarrow> sqlite \<Rightarrow> string option \<Rightarrow> time \<Rightarrow>
     start_error + ('tls, 'mode, 'e) running" where
  "startup sv0 flt lib parse read key host loaded fl db file now = (case loaded of
     Inl e \<Rightarrow> Inl (Fatal 1 e)
   | Inr src \<Rightarrow> (case Register (tenant_collector src) (NewScheduler empty_config) of
        Inl e \<Rightarrow> Inl (Fatal 1 (sched_error_text (sv_error_text sv0) e))
      | Inr sched0 \<Rightarrow>
          (let sched1 = restore_targets (mi_id Describe) (sql_ListSavedTargets (mi_id Describe) db) sched0;
               sv1 = main_server sv0 flt key host fl None;
               w1 = NewServer sv1 sched1 db file now
           in case NewAIAssist parse read (fl_ai fl) of
             Inl e \<Rightarrow> Inl (Fatal 2 e)
           | Inr ai \<Rightarrow> (case start_channels lib (act_tier (wb_activation w1)) fl of
                Inl e \<Rightarrow> Inl e
              | Inr chans \<Rightarrow> (case Start sched1 of
                   Inl e \<Rightarrow> Inl (Fatal 1 (sched_error_text (sv_error_text sv0) e))
                 | Inr (sched2, loops) \<Rightarrow>
                     Inr \<lparr>ru_server = main_server sv0 flt key host fl ai, ru_web = w1\<lparr>wb_sched := sched2\<rparr>,
                       ru_channels = chans, ru_dispatcher = start_dispatcher chans, ru_loops = loops\<rparr>)))))"

end
