(* ===== verification/Ai_Client_Props.thy ===== *)
theory Ai_Client_Props
  imports Ai_Client
begin

text \<open>
  The retry loop against a scripted sidecar, and what an explanation that is handed out is
  known to satisfy.
\<close>

section \<open>A scripted sidecar\<close>

text \<open>Answer number \<open>i\<close> is the \<open>i\<close>-th of the script; requests and waits are recorded.\<close>

record script =
  st_answer :: "nat \<Rightarrow> transport"
  st_asked :: "http_request list"
  st_waits :: "duration list"

definition script_env :: "script ai_env" where
  "script_env = \<lparr>
     ae_http = (\<lambda>d r. State (\<lambda>s. (st_answer s (length (st_asked s)), s\<lparr>st_asked := st_asked s @ [r]\<rparr>))),
     ae_wait = (\<lambda>d. State (\<lambda>s. (None, s\<lparr>st_waits := st_waits s @ [d]\<rparr>))),
     ae_url_error = (\<lambda>_. None)\<rparr>"

definition script_start :: "(nat \<Rightarrow> transport) \<Rightarrow> script" where
  "script_start answers = \<lparr>st_answer = answers, st_asked = [], st_waits = []\<rparr>"

text \<open>An answer settles the loop unless it is an error worth another attempt.\<close>

definition settles :: "ai_client \<Rightarrow> transport \<Rightarrow> bool" where
  "settles c t \<longleftrightarrow> (case judge c t of Inr _ \<Rightarrow> True | Inl e \<Rightarrow> \<not> isRetryable e)"

definition outcome :: "ai_client \<Rightarrow> string \<Rightarrow> transport \<Rightarrow> ai_error + explanation" where
  "outcome c sev t = map_sum id (finish_explanation sev) (judge c t)"

definition error_text :: "ai_client \<Rightarrow> transport \<Rightarrow> string" where
  "error_text c t = (case judge c t of Inl e \<Rightarrow> er_text e | Inr _ \<Rightarrow> [])"

text \<open>The waits before the attempts from number \<open>k\<close> on.\<close>

definition waits_from :: "ai_client \<Rightarrow> nat \<Rightarrow> nat \<Rightarrow> duration list" where
  "waits_from c k n = map (\<lambda>i. wrap64 (int i * ac_backoff c)) (filter (\<lambda>i. 0 < i) [k..<k + n])"

lemma waits_from_Suc:
  "waits_from c k (Suc n) = (if 0 < k then [wrap64 (int k * ac_backoff c)] else []) @ waits_from c (Suc k) n"
proof -
  have "[k..<k + Suc n] = k # [Suc k..<Suc k + n]" by (simp add: upt_conv_Cons)
  then show ?thesis by (simp add: waits_from_def)
qed

text \<open>
  \<open>tried c sev req ans n i\<close>: with \<open>n\<close> attempts, of which \<open>i\<close> are made, the loop ends with
  this result.
\<close>

definition loop_result :: "ai_client \<Rightarrow> string \<Rightarrow> (nat \<Rightarrow> transport) \<Rightarrow> nat \<Rightarrow> nat \<Rightarrow> string \<Rightarrow> nat \<Rightarrow> ai_error + explanation \<Rightarrow> bool" where
  "loop_result c sev ans k n latest tries res \<longleftrightarrow>
     (0 < tries \<and> tries \<le> n \<and> settles c (ans (k + tries - 1)) \<and> (\<forall>j < tries - 1. \<not> settles c (ans (k + j))) \<and>
        res = outcome c sev (ans (k + tries - 1))) \<or>
     (tries = n \<and> (\<forall>j < n. \<not> settles c (ans (k + j))) \<and>
        res = Inl (given_up c (if n = 0 then latest else error_text c (ans (k + n - 1)))))"

lemma loop_result_settled: "settles c (ans k) \<Longrightarrow> loop_result c sev ans k (Suc n) latest 1 (outcome c sev (ans k))"
  by (simp add: loop_result_def)

lemma loop_result_retry:
  assumes "\<not> settles c (ans k)" "loop_result c sev ans (Suc k) n (error_text c (ans k)) tries res"
  shows "loop_result c sev ans k (Suc n) latest (Suc tries) res"
proof -
  have all: "(\<forall>j < Suc m. \<not> settles c (ans (k + j))) \<longleftrightarrow> (\<forall>j < m. \<not> settles c (ans (Suc k + j)))" for m
    using assms(1) by (auto simp: less_Suc_eq_0_disj)
  from assms(2) consider
    "0 < tries" "tries \<le> n" "settles c (ans (Suc k + tries - 1))" "\<forall>j < tries - 1. \<not> settles c (ans (Suc k + j))"
      "res = outcome c sev (ans (Suc k + tries - 1))"
  | "tries = n" "\<forall>j < n. \<not> settles c (ans (Suc k + j))"
      "res = Inl (given_up c (if n = 0 then error_text c (ans k) else error_text c (ans (Suc k + n - 1))))"
    unfolding loop_result_def by blast
  then show ?thesis
  proof cases
    case 1
    then have "\<forall>j < tries. \<not> settles c (ans (k + j))" using all [of "tries - 1"] by simp
    then show ?thesis using 1 unfolding loop_result_def by simp
  next
    case 2
    then show ?thesis using all [of n] unfolding loop_result_def by (cases n) simp_all
  qed
qed

lemma run_doRequest_script:
  "run_state (doRequest script_env c body) s =
     (judge c (st_answer s (length (st_asked s))), s\<lparr>st_asked := st_asked s @ [completions_request c body]\<rparr>)"
  by (simp add: doRequest_def script_env_def)

lemma explain_from_script:
  assumes "length (st_asked s) = k"
  shows "\<exists>tries res. loop_result c sev (st_answer s) k n latest tries res \<and>
    run_state (explain_from script_env c body sev n (int k) latest) s =
      (res, s\<lparr>st_asked := st_asked s @ replicate tries (completions_request c body),
             st_waits := st_waits s @ waits_from c k tries\<rparr>)"
  using assms
proof (induction n arbitrary: s k latest)
  case 0
  have "run_state (explain_from script_env c body sev 0 (int k) latest) s =
      (Inl (given_up c latest), s\<lparr>st_asked := st_asked s @ replicate 0 (completions_request c body),
             st_waits := st_waits s @ waits_from c k 0\<rparr>)" by (simp add: waits_from_def)
  moreover have "loop_result c sev (st_answer s) k 0 latest 0 (Inl (given_up c latest))" by (simp add: loop_result_def)
  ultimately show ?case by blast
next
  case (Suc n)
  let ?w = "if 0 < k then [wrap64 (int k * ac_backoff c)] else []"
  let ?s1 = "s\<lparr>st_asked := st_asked s @ [completions_request c body], st_waits := st_waits s @ ?w\<rparr>"
  let ?t = "st_answer s k"
  have run: "run_state (explain_from script_env c body sev (Suc n) (int k) latest) s =
      (case judge c ?t of Inr ex \<Rightarrow> (Inr (finish_explanation sev ex), ?s1)
       | Inl e \<Rightarrow> if \<not> isRetryable e then (Inl e, ?s1)
                 else run_state (explain_from script_env c body sev n (int (Suc k)) (er_text e)) ?s1)"
  proof -
    have wait: "run_state (if int k > 0 then ae_wait script_env (wrap64 (int k * ac_backoff c)) else ret None) s =
        (None, s\<lparr>st_waits := st_waits s @ ?w\<rparr>)" by (simp add: script_env_def)
    have req: "run_state (doRequest script_env c body) (s\<lparr>st_waits := st_waits s @ ?w\<rparr>) = (judge c ?t, ?s1)"
      using Suc.prems unfolding run_doRequest_script by simp
    have succ: "int k + 1 = int (Suc k)" by simp
    show ?thesis
      by (cases "judge c ?t") (simp_all only: explain_from.simps run_state_bind wait req prod.case option.case
          sum.case run_state_return succ if_distrib [of "\<lambda>m. run_state m ?s1"])
  qed
  show ?case
  proof (cases "settles c ?t")
    case True
    have "waits_from c k 1 = ?w" using waits_from_Suc [of c k 0] by (simp add: waits_from_def)
    then have "run_state (explain_from script_env c body sev (Suc n) (int k) latest) s =
      (outcome c sev ?t, s\<lparr>st_asked := st_asked s @ replicate 1 (completions_request c body),
             st_waits := st_waits s @ waits_from c k 1\<rparr>)"
      using True run by (auto simp: settles_def outcome_def split: sum.splits)
    then show ?thesis using loop_result_settled [of c "st_answer s" k, OF True] by blast
  next
    case False
    then have run': "run_state (explain_from script_env c body sev (Suc n) (int k) latest) s =
        run_state (explain_from script_env c body sev n (int (Suc k)) (error_text c ?t)) ?s1"
      using run by (auto simp: settles_def error_text_def split: sum.splits)
    have "length (st_asked ?s1) = Suc k" using Suc.prems by simp
    from Suc.IH [OF this, of "error_text c ?t"] obtain tries res where
      "loop_result c sev (st_answer s) (Suc k) n (error_text c ?t) tries res"
      "run_state (explain_from script_env c body sev n (int (Suc k)) (error_text c ?t)) ?s1 =
        (res, ?s1\<lparr>st_asked := st_asked ?s1 @ replicate tries (completions_request c body),
             st_waits := st_waits ?s1 @ waits_from c (Suc k) tries\<rparr>)" by auto
    then show ?thesis using loop_result_retry [of c "st_answer s" k, OF False] run' waits_from_Suc [of c k tries]
      by (intro exI [of _ "Suc tries"] exI [of _ res]) simp
  qed
qed

section \<open>Explain\<close>

definition prompt_of :: "ai_client \<Rightarrow> evidence_packet \<Rightarrow> string \<Rightarrow> string" where
  "prompt_of c p payload =
     request_body c (system_text (NormalizeLanguage (ep_language p)))
       (user_text (p\<lparr>ep_language := NormalizeLanguage (ep_language p)\<rparr>) payload)"

lemma Explain_loop:
  assumes "ep_feature p \<noteq> []" "ep_product p \<noteq> []" "ep_finding p \<noteq> []"
    and "marshal_packet (p\<lparr>ep_language := NormalizeLanguage (ep_language p)\<rparr>) = Some payload"
  shows "Explain env c p = explain_from env c (prompt_of c p payload) (findingSeverity p)
    (nat (ac_max_retries c + 1)) 0 ''<nil>''"
  using assms by (simp add: Explain_def prompt_of_def findingSeverity_def)

text \<open>
  C30. Against a sidecar that answers by any script and a context that is not cancelled,
  \<open>Explain\<close> returns: it sends the same request at most one time more than it may retry, with a
  growing wait before each repetition, stops at the first answer that is an explanation or an
  error not worth a retry and returns that, and otherwise reports the sidecar unavailable with
  the last error.
\<close>

theorem explain_retries:
  assumes "ep_feature p \<noteq> []" "ep_product p \<noteq> []" "ep_finding p \<noteq> []" "0 \<le> ac_max_retries c"
    and "marshal_packet (p\<lparr>ep_language := NormalizeLanguage (ep_language p)\<rparr>) = Some payload"
    and "run_state (Explain script_env c p) (script_start ans) = (res, s)"
  shows "\<exists>i \<le> nat (ac_max_retries c).
    st_asked s = replicate (Suc i) (completions_request c (prompt_of c p payload)) \<and>
    st_waits s = map (\<lambda>k. wrap64 (int k * ac_backoff c)) [1..<Suc i] \<and>
    (\<forall>j < i. \<not> settles c (ans j)) \<and>
    (if settles c (ans i) then res = outcome c (findingSeverity p) (ans i)
     else i = nat (ac_max_retries c) \<and> res = Inl (given_up c (error_text c (ans i))))"
proof -
  let ?n = "nat (ac_max_retries c + 1)" and ?s = "script_start ans" and ?sev = "findingSeverity p"
  have n: "?n = Suc (nat (ac_max_retries c))" using assms(4) by linarith
  obtain tries res' where l: "loop_result c ?sev ans 0 ?n ''<nil>'' tries res'"
    and run: "run_state (explain_from script_env c (prompt_of c p payload) ?sev ?n (int 0) ''<nil>'') ?s =
      (res', ?s\<lparr>st_asked := st_asked ?s @ replicate tries (completions_request c (prompt_of c p payload)),
             st_waits := st_waits ?s @ waits_from c 0 tries\<rparr>)"
    using explain_from_script [of ?s 0 c ?sev ?n "''<nil>''" "prompt_of c p payload"]
    by (auto simp: script_start_def)
  have eq: "res' = res" "st_asked s = replicate tries (completions_request c (prompt_of c p payload))"
    "st_waits s = waits_from c 0 tries"
    using run assms(6) Explain_loop [OF assms(1-3,5), of script_env c] by (auto simp: script_start_def)
  obtain i where i: "tries = Suc i" using l n by (cases tries) (auto simp: loop_result_def)
  have "filter (\<lambda>i. 0 < i) [0..<Suc i] = [1..<Suc i]"
    by (subst upt_conv_Cons) (auto simp: filter_id_conv)
  then have "waits_from c 0 tries = map (\<lambda>k. wrap64 (int k * ac_backoff c)) [1..<Suc i]"
    by (simp only: waits_from_def i add_0)
  then show ?thesis using l eq i n by (intro exI [of _ i]) (auto simp: loop_result_def less_Suc_eq)
qed

theorem explain_retries_witness:
  "\<exists>res s. run_state (Explain script_env (New [] []) \<lparr>ep_feature = FeatureExplainFinding, ep_product = ''tenantwatch'',
       ep_finding = ''{}'', ep_language = ''en''\<rparr>) (script_start (\<lambda>_. NoAnswer ''refused'')) = (res, s) \<and>
     length (st_asked s) = 3 \<and>
     res = Inl (given_up (New [] []) ''aiclient: request to http://127.0.0.1:8435: refused'')"
proof -
  let ?p = "\<lparr>ep_feature = FeatureExplainFinding, ep_product = ''tenantwatch'', ep_finding = ''{}'', ep_language = ''en''\<rparr>"
  let ?c = "New [] []" and ?ans = "\<lambda>_ :: nat. NoAnswer ''refused''"
  have "json_parse ''{}'' \<noteq> None" by code_simp
  then obtain payload where pay: "marshal_packet (?p\<lparr>ep_language := NormalizeLanguage (ep_language ?p)\<rparr>) = Some payload"
    by (auto simp: marshal_packet_def marshal_raw_def)
  have c: "ac_max_retries ?c = 2" "ac_base_url ?c = ''http://127.0.0.1:8435''"
    by (simp_all add: New_def defaultMaxRetries_def DefaultBaseURL_def trim_right_slashes_def)
  obtain res s where run: "run_state (Explain script_env ?c ?p) (script_start ?ans) = (res, s)" by fastforce
  have "\<not> settles ?c (?ans i)" "error_text ?c (?ans i) = ''aiclient: request to http://127.0.0.1:8435: refused''" for i
    using c(2) by (simp_all add: settles_def error_text_def judge_def isRetryable_def)
  then show ?thesis
    using explain_retries [OF _ _ _ _ pay run] run c(1) by (auto simp: FeatureExplainFinding_def)
qed

text \<open>Whatever the environment, an explanation that is handed out has these properties.\<close>

lemma judge_content_text: "judge_content content = Inr ex \<Longrightarrow> trim_space (ex_text ex) \<noteq> []"
  by (auto simp: judge_content_def split: option.splits if_splits)

lemma judge_body_text: "judge_body body = Inr ex \<Longrightarrow> trim_space (ex_text ex) \<noteq> []"
  by (auto simp: judge_body_def split: option.splits prod.splits list.splits dest: judge_content_text)

lemma judge_text: "judge c t = Inr ex \<Longrightarrow> trim_space (ex_text ex) \<noteq> []"
  by (cases t) (simp_all add: judge_def Let_def judge_body_text split: if_splits)

lemma finish_explanation_props:
  assumes "trim_space (ex_text ex) \<noteq> []"
  shows "ex_disclaimer (finish_explanation sev ex) = CanonicalDisclaimer \<and> ex_text (finish_explanation sev ex) \<noteq> []"
proof -
  have "ex_text ex \<noteq> []" using assms by (metis dropWhile.simps(1) rev.simps(1) trim_space_def)
  moreover have "dropConflictingSeverity t sev \<noteq> []" if "t \<noteq> []" for t
    using that unfolding dropConflictingSeverity_def Let_def by (simp only: split: if_split) simp
  ultimately show ?thesis by (simp add: finish_explanation_def Let_def)
qed

lemma explain_from_Inr:
  "fst (run_state (explain_from env c body sev n k latest) w) = Inr ex \<Longrightarrow>
     ex_disclaimer ex = CanonicalDisclaimer \<and> ex_text ex \<noteq> []"
proof (induction n arbitrary: k latest w)
  case (Suc n)
  obtain r w1 where w1: "run_state (if k > 0 then ae_wait env (wrap64 (k * ac_backoff c)) else ret None) w = (r, w1)"
    by fastforce
  obtain a w2 where w2: "run_state (doRequest env c body) w1 = (a, w2)" by fastforce
  have step: "run_state (explain_from env c body sev (Suc n) k latest) w =
      (case r of Some e \<Rightarrow> (Inl (plain_error e), w1)
       | None \<Rightarrow> (case a of Inr ex \<Rightarrow> (Inr (finish_explanation sev ex), w2)
           | Inl e \<Rightarrow> if \<not> isRetryable e then (Inl e, w2)
                     else run_state (explain_from env c body sev n (k + 1) (er_text e)) w2))"
    by (simp only: explain_from.simps run_state_bind w1 prod.case split: option.split)
       (simp add: w2 split: sum.split)
  have "trim_space (ex_text x) \<noteq> []" if "a = Inr x" for x
    using that w2 judge_text unfolding doRequest_def by (auto split: option.splits prod.splits)
  then show ?case using Suc step finish_explanation_props by (auto split: option.splits sum.splits if_splits)
qed simp

lemma Explain_Inr:
  "fst (run_state (Explain env c p) w) = Inr ex \<Longrightarrow> ex_disclaimer ex = CanonicalDisclaimer \<and> ex_text ex \<noteq> []"
  using explain_from_Inr by (fastforce simp: Explain_def Let_def split: if_splits option.splits)

end
