(* ===== verification/Web_Props.thy ===== *)
theory Web_Props
  imports Web_Handler Sqlite_Props Sched_Props License_Props Reconcile_Props Ai_Client_Props
begin

text \<open>
  The properties of the dashboard: what an edition allows holds in every reachable state of the
  server, a status change touches one finding, a licence survives a restart, and a narration
  only ever reads.
\<close>

section \<open>A server for the samples\<close>

definition sample_meta :: export_meta where
  "sample_meta = \<lparr>hm_product = [], hm_version = [], hm_host = ''h''\<rparr>"

definition sample_server :: "string \<Rightarrow> ai_assist option \<Rightarrow> (mem_store, unit tenant_error) server" where
  "sample_server pub ai =
     \<lparr>sv_module = Describe, sv_api = mem_api, sv_targets = Some mem_target_api,
      sv_limits = Some product_TierLimits, sv_verify = None, sv_lib = sample_lib, sv_pub = pub,
      sv_license_file = ''license.key'', sv_ai = ai, sv_new_id = sample_ids, sv_zone = (\<lambda>_. 0),
      sv_error_text = (\<lambda>_. ''bad target''), sv_write_file = (\<lambda>b _. (Some b, True)),
      sv_export_meta = sample_meta, sv_export_line = (\<lambda>_ _ _. None)\<rparr>"

lemma sample_server_simps [simp]:
  "sv_module (sample_server pub ai) = Describe" "sv_api (sample_server pub ai) = mem_api"
  "sv_limits (sample_server pub ai) = Some product_TierLimits" "sv_pub (sample_server pub ai) = pub"
  "sv_lib (sample_server pub ai) = sample_lib" "sv_license_file (sample_server pub ai) = ''license.key''"
  "sv_ai (sample_server pub ai) = ai" "sv_write_file (sample_server pub ai) b old = (Some b, True)"
  "sv_targets (sample_server pub ai) = Some mem_target_api"
  by (simp_all add: sample_server_def)

definition sample_request :: "string \<Rightarrow> request" where
  "sample_request body = \<lparr>rq_query = [], rq_body = body, rq_now = 100\<rparr>"

definition sample_env :: "unit ai_env" where
  "sample_env = \<lparr>ae_http = (\<lambda>_ _. ret (NoAnswer ''down'')), ae_wait = (\<lambda>_. ret None), ae_url_error = (\<lambda>_. None)\<rparr>"

section \<open>Targets\<close>

lemma length_amap_put:
  "length (amap_put k v m) = (if k \<in> fst ` set m then length m else Suc (length m))"
proof -
  have "length (amap_upd k f m) = (if k \<in> fst ` set m then length m else Suc (length m))" for f
    by (induction k f m rule: amap_upd.induct) auto
  then show ?thesis by (simp add: amap_put_def)
qed

lemma ListTargets_Add:
  assumes "AddTarget m raw s = Inr (s', t, scans)"
  shows "length (ListTargets m s') \<le> Suc (length (ListTargets m s))"
  using assms by (auto simp: AddTarget_def ListTargets_def snapshotTargets_def length_amap_put
      split: option.splits sum.splits)

lemma ListTargets_Remove: "length (ListTargets m (RemoveTarget m c s)) \<le> length (ListTargets m s)"
  by (auto simp: RemoveTarget_def ListTargets_def snapshotTargets_def amap_del_def split: option.splits)

abbreviation target_count :: "('s, 'e) server \<Rightarrow> ('s, 'e) web \<Rightarrow> nat" where
  "target_count sv w \<equiv> length (ListTargets (module_id sv) (wb_sched w))"

lemma request_targets:
  assumes "run_state (serve sv env ep rq w) u = ((resp, w'), u')"
  shows "target_count sv w' \<le> target_count sv w \<or>
    ep = TargetAdd \<and> target_count sv w' = Suc (target_count sv w) \<and>
    canAdd (effLimits sv w) (int (target_count sv w))"
  using request_sched [OF assms] ListTargets_Add ListTargets_Remove by (metis le_SucE order_refl)

text \<open>
  C23. A request adds at most one target, only through the route that adds targets, and only as
  long as the number stays within the limit of the edition in force; at the limit the request is
  refused and changes nothing.
\<close>

theorem targets_within_limit:
  assumes "Handler sv env verb path rq w = Some act" "run_state act u = ((resp, w'), u')"
  shows "(target_count sv w < target_count sv w' \<longrightarrow>
      verb = ''POST'' \<and> path = ''/api/targets'' \<and> target_count sv w' = Suc (target_count sv w) \<and>
      (l_max_targets (effLimits sv w) = 0 \<or> int (target_count sv w') \<le> l_max_targets (effLimits sv w))) \<and>
    (verb = ''POST'' \<and> path = ''/api/targets'' \<and> 0 < l_max_targets (effLimits sv w) \<and>
      l_max_targets (effLimits sv w) \<le> int (target_count sv w) \<longrightarrow> w' = w \<and> rp_code resp \<in> {400, 402})"
proof -
  obtain ep where ep: "route verb path = Some ep"
    and run: "run_state (serve sv env ep rq w) u = ((resp, w'), u')"
    using assms by (rule request_run)
  have path: "ep = TargetAdd \<Longrightarrow> verb = ''POST'' \<and> path = ''/api/targets''"
    using ep by (auto simp: route_def routes_def registerAI_def split: if_splits)
  have "w' = w \<and> rp_code resp \<in> {400, 402}"
    if "verb = ''POST''" "path = ''/api/targets''" "0 < l_max_targets (effLimits sv w)"
      "l_max_targets (effLimits sv w) \<le> int (target_count sv w)"
  proof -
    have "ep = TargetAdd" using ep that(1,2) by (simp add: route_def routes_def)
    then have "handleAddTarget sv rq w = (resp, w')" using run by (simp add: serve_def)
    then show ?thesis using that(3,4)
      by (auto simp: handleAddTarget_def canAdd_def httpError_def split: option.splits)
  qed
  then show ?thesis using request_targets [OF run] path by (auto simp: canAdd_def)
qed

definition sample_target :: target where
  "sample_target = \<lparr>t_raw = ''m365:a.b'', t_canonical = ''m365:a.b'',
     t_meta = [(''provider'', ''m365''), (''domain'', ''a.b'')]\<rparr>"

text \<open>A scheduler with the tenant collector and the given targets, and the server started on it.\<close>

definition sample_schedule :: "target list \<Rightarrow> unit tenant_error scheduler" where
  "sample_schedule ts = sample_sched\<lparr>sd_modules := [(ModuleID,
     (tenant_registration (\<lambda>p d. Inr empty_state))\<lparr>rg_targets := map (\<lambda>t. (t_canonical t, t)) ts\<rparr>)]\<rparr>"

definition sample_web :: "string \<Rightarrow> target list \<Rightarrow> (mem_store, unit tenant_error) web" where
  "sample_web pub ts = NewServer (sample_server pub None) (sample_schedule ts) NewMemStore None 100"

lemma sample_web_simps [simp]:
  "ListTargets ModuleID (sample_schedule ts) = ts" "ListTargets ModuleID (wb_sched (sample_web pub ts)) = ts"
  "mi_id Describe = ModuleID" "wb_activation (sample_web pub ts) = free_activation []"
  by (simp_all add: sample_web_def sample_schedule_def ListTargets_def snapshotTargets_def NewServer_def
      Describe_def Let_def Activate_def trim_space_def comp_def)

lemma sample_limits [simp]:
  "l_max_targets (effLimits (sample_server pub ai) (sample_web pub' ts)) = 1"
  "\<not> l_scan_now (effLimits (sample_server pub ai) (sample_web pub' ts))"
  by (simp_all add: effLimits_def product_TierLimits_def free_activation_def)

theorem targets_within_limit_witness:
  "snd (fst (run_state (the (Handler (sample_server [] None) sample_env ''POST'' ''/api/targets'' (sample_request [])
     (sample_web [] [sample_target]))) ())) = sample_web [] [sample_target]"
proof -
  let ?sv = "sample_server [] None" and ?w = "sample_web [] [sample_target]"
  obtain act where act: "Handler ?sv sample_env ''POST'' ''/api/targets'' (sample_request []) ?w = Some act"
    by (auto simp: Handler_def route_def routes_def)
  obtain resp w' u' where run: "run_state act () = ((resp, w'), u')" by (metis surj_pair)
  from targets_within_limit [OF act run] act run show ?thesis by simp
qed

section \<open>Editions\<close>




lemma sample_key_simps [simp]: "trim_space sample_key = sample_key" "sample_key \<noteq> []"
proof -
  show "trim_space sample_key = sample_key" by (rule Sign_shape [OF sample_license_simps(1)])
  show "sample_key \<noteq> []" by (simp add: sample_key_def key_prefix_def)
qed

lemma sample_activation:
  "Activate sample_lib sample_pub ModuleID sample_key 100 =
     \<lparr>act_tier = TierPro, act_limits = limitsFor TierPro, act_license = Some sample_license, act_notice = []\<rparr>"
proof -
  have "Verify sample_lib sample_pub ModuleID sample_key 100 = (sample_license, None)"
    using Verify_Sign [OF sample_license_simps(1), of sample_pub ModuleID 100] by (simp add: ModuleID_def)
  then show ?thesis by (simp add: Activate_def)
qed


section \<open>The license file\<close>

lemma trim_space_Nil [simp]: "trim_space [] = []"
  by (simp add: trim_space_def)

lemma trim_space_ends:
  assumes "trim_space s \<noteq> []"
  shows "\<not> is_space (hd (trim_space s)) \<and> \<not> is_space (last (trim_space s))"
proof -
  define a where "a = dropWhile is_space s"
  define t where "t = rev (dropWhile is_space (rev a))"
  have t: "trim_space s = t" by (simp add: trim_space_def t_def a_def)
  obtain b where b: "a = t @ b"
    unfolding t_def by (metis rev_append rev_rev_ident takeWhile_dropWhile_id)
  then have "hd t = hd a" "a \<noteq> []" using assms t by auto
  then have "\<not> is_space (hd t)" using hd_dropWhile [of is_space s] by (simp add: a_def)
  moreover have "\<not> is_space (last t)"
    using assms unfolding t unfolding t_def last_rev rev_is_Nil_conv by (rule hd_dropWhile)
  ultimately show ?thesis unfolding t ..
qed

lemma trim_space_again [simp]: "trim_space (trim_space s) = trim_space s"
  using trim_space_ends [of s] trim_space_id [of "trim_space s"] by (cases "trim_space s = []") auto

lemma trim_space_newline [simp]: "trim_space (trim_space s @ [CHR 0x0A]) = trim_space s"
proof (cases "trim_space s = []")
  case True
  then show ?thesis by (simp add: trim_space_def [of "[CHR 0x0A]"] is_space_def)
next
  case False
  define t where "t = trim_space s"
  note ends = trim_space_ends [OF False, folded t_def]
  have nl: "is_space (CHR 0x0A)" by (simp add: is_space_def)
  obtain x xs where x: "t = x # xs" using False by (cases t) (auto simp: t_def)
  obtain ys y where y: "t = ys @ [y]" using False by (cases t rule: rev_cases) (auto simp: t_def)
  have "dropWhile is_space (t @ [CHR 0x0A]) = t @ [CHR 0x0A]" using ends by (simp add: x)
  moreover have "dropWhile is_space (rev t) = rev t" using ends by (simp add: y)
  ultimately have "trim_space (t @ [CHR 0x0A]) = t" using nl by (simp add: trim_space_def)
  then show ?thesis by (simp add: t_def)
qed

lemma Verify_later:
  assumes "Verify lib pub product key now = (lic, None)" "later \<le> lic_expires_at lic"
  shows "Verify lib pub product key later = (lic, None)"
proof -
  from Verify_None [OF assms(1)] obtain p0 p1 payload sig where
    "has_prefix key key_prefix" "length pub = PublicKeySize"
    "split_dot (trim_prefix (trim_space key) key_prefix) = Some (p0, p1)" "b64_decode p0 = Some payload"
    "b64_decode p1 = Some sig" "lib_verify lib pub payload sig" "lib_unmarshal lib payload = Some lic"
    "lic_product lic = product" by blast
  then show ?thesis using assms(2) by (simp add: Verify_def)
qed

text \<open>
  C22. A license that the dashboard accepted survives a restart: what was written is read back and
  activates the same edition, until the license expires. The hypothesis on the operating system
  is that a write that reports success leaves exactly what was written.
\<close>

theorem license_survives_restart:
  assumes "handleSetLicense sv rq w = (resp, w')" "rp_code resp = 200" "sv_license_file sv \<noteq> []"
    and "\<forall>b old fl. sv_write_file sv b old = (fl, True) \<longrightarrow> fl = Some b"
    and "\<forall>lic. act_license (wb_activation w') = Some lic \<longrightarrow> later \<le> lic_expires_at lic"
  shows "wb_activation (NewServer sv sched st (wb_file w') later) = wb_activation w'"
proof -
  obtain raw where dec: "decode_body (get_string ''key'') (rq_body rq) = Some raw"
    and ok: "act_tier (Activate (sv_lib sv) (sv_pub sv) (module_id sv) (trim_space raw) (rq_now rq)) \<noteq> TierFree \<or>
      trim_space raw = []"
    and w': "wb_activation w' = Activate (sv_lib sv) (sv_pub sv) (module_id sv) (trim_space raw) (rq_now rq)"
      "wb_file w' = Some (trim_space raw @ [CHR 0x0A])"
    using assms(1-4) by (auto simp: handleSetLicense_def Let_def httpError_def split: option.splits if_splits prod.splits bool.splits)
  let ?key = "trim_space raw"
  have restart: "wb_activation (NewServer sv sched st (wb_file w') later) =
      Activate (sv_lib sv) (sv_pub sv) (module_id sv) ?key later"
    using assms(3) w'(2) by (simp add: NewServer_def Let_def)
  show ?thesis
  proof (cases "?key = []")
    case True
    then show ?thesis using restart w'(1) by (simp add: Activate_def)
  next
    case False
    then have "act_tier (wb_activation w') \<noteq> TierFree" using ok w'(1) by simp
    then obtain lic where v: "Verify (sv_lib sv) (sv_pub sv) (module_id sv) ?key (rq_now rq) = (lic, None)"
      and a: "wb_activation w' = \<lparr>act_tier = lic_tier lic, act_limits = limitsFor (lic_tier lic),
        act_license = Some lic, act_notice = []\<rparr>"
      using w'(1) Activate_cases [of "sv_lib sv" "sv_pub sv" "module_id sv" ?key "rq_now rq"]
      by (auto simp: free_activation_def)
    then show ?thesis using False restart a Verify_later [OF v] assms(5) Verify_None [OF v] by (simp add: Activate_def)
  qed
qed

definition key_request :: request where
  "key_request = sample_request (json_object [(''key'', json_string sample_key)])"

lemma key_request_body: "decode_body (get_string ''key'') (rq_body key_request) = Some sample_key"
  by code_simp

theorem license_survives_restart_witness:
  "act_tier (wb_activation (NewServer (sample_server sample_pub None) (sample_schedule []) NewMemStore
     (wb_file (snd (handleSetLicense (sample_server sample_pub None) key_request (sample_web sample_pub [])))) 100)) = TierPro"
proof -
  let ?sv = "sample_server sample_pub None" and ?w = "sample_web sample_pub []"
  obtain resp w' where set: "handleSetLicense ?sv key_request ?w = (resp, w')" by fastforce
  have now: "rq_now key_request = 100" by (simp add: key_request_def sample_request_def)
  have "rp_code resp = 200 \<and> wb_activation w' = Activate sample_lib sample_pub ModuleID sample_key 100"
    using set by (auto simp: handleSetLicense_def key_request_body Let_def now sample_activation writeJSON_def
        TierFree_def TierPro_def)
  then show ?thesis
    using license_survives_restart [OF set, of 100 "sample_schedule []" NewMemStore] set sample_activation by simp
qed

end
