(* ===== verification/Startup_Props.thy ===== *)
theory Startup_Props
  imports Startup Web_Props
begin

text \<open>
  The properties of the start of the program: every configured channel starts or the program does
  not, a chat channel needs a paid edition, and a restart monitors the tenants it monitored before.
\<close>

section \<open>Channels\<close>

lemma startup_parts:
  assumes "startup sv0 flt lib parse read key host loaded fl db licfile now = Inr ru"
  obtains src sched0 sched2 loops ai where "loaded = Inr src"
    "Register (tenant_collector src) (NewScheduler empty_config) = Inr sched0"
    "NewAIAssist parse read (fl_ai fl) = Inr ai" "ru_server ru = main_server sv0 flt key host fl ai"
    "Start (restore_targets ModuleID (sql_ListSavedTargets ModuleID db) sched0) = Inr (sched2, loops)"
    "ru_web ru = (NewServer (main_server sv0 flt key host fl None)
       (restore_targets ModuleID (sql_ListSavedTargets ModuleID db) sched0) db licfile now)\<lparr>wb_sched := sched2\<rparr>"
    "start_channels lib (act_tier (wb_activation (ru_web ru))) fl = Inr (ru_channels ru)"
    "ru_dispatcher ru = start_dispatcher (ru_channels ru)" "ru_loops ru = loops"
  using assms by (auto simp: startup_def Let_def split: sum.splits)

lemma chat_tiers:
  "product_AllowsChannel t ''slack'' \<Longrightarrow> t = TierPro \<or> t = TierTeam"
  "product_AllowsChannel t ''telegram'' \<Longrightarrow> t = TierPro \<or> t = TierTeam"
  by (auto simp: product_AllowsChannel_def product_TierLimits_def Let_def split: if_splits option.splits)

lemma Activate_license:
  "act_tier (Activate lib pub product key now) \<noteq> TierFree \<Longrightarrow> act_license (Activate lib pub product key now) \<noteq> None"
  using Activate_cases [of lib pub product key now] by (auto simp: free_activation_def)

lemma new_activation:
  obtains key where "wb_activation (NewServer sv sched st fl now) =
    Activate (sv_lib sv) (sv_pub sv) (mi_id (sv_module sv)) key now"
  by (auto simp: NewServer_def Let_def)

lemma chat_blocks:
  assumes "start_slack t fl = Inr slack" "start_telegram t fl = Inr telegram"
  shows "slack = (if fl_slack fl = [] then [] else [SlackChannel (fl_slack fl)])"
    and "telegram = (if fl_tg_token fl = [] then [] else [TelegramChannel (fl_tg_token fl) (fl_tg_chat fl)])"
    and "(fl_tg_token fl = []) = (fl_tg_chat fl = [])"
    and "fl_slack fl \<noteq> [] \<or> fl_tg_token fl \<noteq> [] \<Longrightarrow> t = TierPro \<or> t = TierTeam"
  using assms chat_tiers [of t] by (auto simp: start_slack_def start_telegram_def split: if_splits)


definition sample_start :: start_flags where
  "sample_start = \<lparr>fl_license = [], fl_channels = default_flags\<lparr>cf_webhook := ''https://h''\<rparr>, fl_slack = [],
     fl_tg_token = [], fl_tg_chat = [],
     fl_ai = \<lparr>ai_url = [], ai_key_file = [], ai_language = [], ai_no_thinking = False\<rparr>\<rparr>"

definition sql_server :: "float_reader \<Rightarrow> (sqlite, unit tenant_error) server" where
  "sql_server flt =
     \<lparr>sv_module = sample_mod, sv_api = sql_api flt, sv_targets = Some sql_target_api,
      sv_limits = Some product_TierLimits, sv_verify = None, sv_lib = sample_lib, sv_pub = [],
      sv_license_file = [], sv_ai = None, sv_new_id = sample_ids, sv_zone = (\<lambda>_. 0),
      sv_error_text = (\<lambda>_. ''bad target''), sv_write_file = (\<lambda>b _. (Some b, True)),
      sv_export_meta = sample_meta, sv_export_line = (\<lambda>_ _ _. None)\<rparr>"

lemma sample_startup:
  "\<exists>ru. startup (sql_server flt) flt plain_lib (\<lambda>_. None) Inl [] ''h'' (Inr (\<lambda>p d. Inr empty_state))
     sample_start db None 100 = Inr ru"
proof -
  have start: "sd_started (restore_targets m saved s) = sd_started s" for m saved and s :: "unit tenant_error scheduler"
    unfolding restore_targets_def
    by (induction saved arbitrary: s) (auto simp: AddTarget_def split: sum.splits option.splits)
  obtain sched0 :: "unit tenant_error scheduler"
    where reg: "Register (tenant_collector (\<lambda>p d. Inr empty_state)) (NewScheduler empty_config) = Inr sched0"
      "\<not> sd_started sched0"
    by (simp add: Register_def Let_def tenant_collector_def Describe_def ModuleID_def NewScheduler_def)
  have ai: "NewAIAssist (\<lambda>_. None) Inl (fl_ai sample_start) = Inr None"
    by (simp add: NewAIAssist_def sample_start_def)
  obtain chans where chans: "\<And>t. start_channels plain_lib t sample_start = Inr chans"
    by (simp add: sample_start_def start_channels_def start_slack_def start_telegram_def build_channels_def
      plain_lib_def default_flags_def build_webhook_def build_syslog_def build_hec_def)
  show ?thesis by (simp add: startup_def reg ai chans Start_def start Let_def)
qed


section \<open>Scans leave the rest of the store alone\<close>

lemma ingest_loop_preserves:
  assumes "\<And>s r s'. op_upsert ops s r = Inr s' \<Longrightarrow> P s \<Longrightarrow> P s'" "P (rs_store st)"
  shows "P (rs_store (fst (ingest_loop ops newID now mid byFP fs st)))"
  using assms(2)
proof (induction fs arbitrary: st)
  case (Cons f fs)
  obtain st' e where step: "ingest_step ops newID now mid byFP f st = (st', e)" by fastforce
  have "P (rs_store st')"
    using step Cons.prems assms(1)
    by (auto simp: ingest_step_def Let_def split: option.splits sum.splits if_splits)
  then show ?case using Cons.IH step by (cases e) auto
qed simp

lemma resolve_loop_preserves:
  assumes "\<And>s r s'. op_upsert ops s r = Inr s' \<Longrightarrow> P s \<Longrightarrow> P s'" "P (rs_store st)"
  shows "P (rs_store (fst (resolve_loop ops now k rs st)))"
  using assms(2)
proof (induction rs arbitrary: st)
  case (Cons r rs)
  obtain st' e where step: "resolve_step ops now k r st = (st', e)" by fastforce
  have "P (rs_store st')"
    using step Cons.prems assms(1)
    by (auto simp: resolve_step_def Let_def split: sum.splits if_splits)
  then show ?case using Cons.IH step by (cases e) auto
qed simp

lemma Reconcile_preserves:
  assumes "\<And>s r s'. op_upsert ops s r = Inr s' \<Longrightarrow> P s \<Longrightarrow> P s'" "P s"
  shows "P (fst (Reconcile ops newID now mi t fresh s))"
proof (cases "op_list_by_target ops s (mi_id mi) t")
  case (Inl e)
  then show ?thesis using assms(2) by (simp add: Reconcile_def)
next
  case (Inr existing)
  let ?st0 = "\<lparr>rs_store = s, rs_seen = [], rs_res = empty_result, rs_ids = 0\<rparr>"
  obtain st1 e where ing: "ingest_loop ops newID now (mi_id mi) (by_fingerprint existing) fresh ?st0 = (st1, e)"
    by fastforce
  have st1: "P (rs_store st1)"
    using ingest_loop_preserves [of ops P ?st0 newID now "mi_id mi" "by_fingerprint existing" fresh] assms ing by simp
  obtain st2 e2 where res: "resolve_loop ops now (ResolveAfterOrDefault mi) existing st1 = (st2, e2)" by fastforce
  have "P (rs_store st2)"
    using resolve_loop_preserves [of ops P st1 now "ResolveAfterOrDefault mi" existing] assms(1) st1 res by simp
  then show ?thesis using Inr ing res st1 by (cases e) (simp_all add: Reconcile_def)
qed

lemma scanOne_preserves:
  assumes "\<And>s r s'. op_upsert ops s r = Inr s' \<Longrightarrow> P s \<Longrightarrow> P s'" "P s"
  shows "P (fst (scanOne ops newID now reg t s))"
proof (cases "co_collect (rg_collector reg) now t")
  case (Inr fs)
  obtain s' res e where "Reconcile ops newID now (rg_info reg) (t_canonical t) fs s = (s', res, e)"
    by (metis surj_pair)
  then show ?thesis using Inr Reconcile_preserves [of ops P s newID now "rg_info reg" "t_canonical t" fs] assms
    by (cases e) (simp_all add: scanOne_def)
qed (use assms(2) in \<open>simp add: scanOne_def\<close>)

lemma ScanNow_preserves:
  assumes "\<And>s r s'. op_upsert ops s r = Inr s' \<Longrightarrow> P s \<Longrightarrow> P s'" "P s" "ScanNow ops newID now m sched s = Inr s'"
  shows "P s'"
proof -
  have "P (fold (\<lambda>t st. fst (scanOne ops newID now reg t st)) ts s)" for reg ts
    using assms(2)
  proof (induction ts arbitrary: s)
    case (Cons t ts)
    have "P (fst (scanOne ops newID now reg t s))" by (rule scanOne_preserves) (use assms(1) Cons.prems in auto)
    then show ?case using Cons.IH by simp
  qed simp
  then show ?thesis using assms(3) by (auto simp: ScanNow_def split: option.splits)
qed

section \<open>Monitored tenants across a restart\<close>

definition saved_names :: "string \<Rightarrow> sqlite \<Rightarrow> string set" where
  "saved_names m db = {c. \<exists>raw. (m, raw, c) \<in> set (db_targets db)}"

text \<open>What is saved is accepted again, under its canonical name.\<close>

definition saved_ok :: "string \<Rightarrow> sqlite \<Rightarrow> bool" where
  "saved_ok m db \<longleftrightarrow> (\<forall>(m', raw, c) \<in> set (db_targets db).
     m' = m \<longrightarrow> (case ValidateTarget raw of Inl _ \<Rightarrow> False | Inr t \<Rightarrow> t_canonical t = c))"

text \<open>The targets of the tenant module, by canonical name.\<close>

definition monitors :: "'e tenant_error scheduler \<Rightarrow> string set \<Rightarrow> bool" where
  "monitors s names \<longleftrightarrow> (\<exists>src reg. map_of (sd_modules s) ModuleID = Some reg \<and>
     rg_collector reg = tenant_collector src \<and> fst ` set (rg_targets reg) = names \<and>
     (\<forall>(c, t) \<in> set (rg_targets reg). c = t_canonical t))"

lemma monitors_names:
  assumes "monitors s names"
  shows "t_canonical ` set (ListTargets ModuleID s) = names"
proof -
  from assms obtain reg where reg: "map_of (sd_modules s) ModuleID = Some reg" "fst ` set (rg_targets reg) = names"
    "\<forall>(c, t) \<in> set (rg_targets reg). c = t_canonical t" by (auto simp: monitors_def)
  have "fst ` set m = t_canonical ` snd ` set m" if "\<forall>(c, t) \<in> set m. c = t_canonical t" for m :: "(string \<times> target) list"
    using that by (induction m) auto
  from this [OF reg(3)] show ?thesis using reg(1,2) by (simp add: ListTargets_def snapshotTargets_def)
qed

lemma monitors_Register:
  "Register (tenant_collector src) (NewScheduler cfg) = Inr s \<Longrightarrow> monitors s {}"
  by (auto simp: Register_def Let_def NewScheduler_def monitors_def tenant_collector_def Describe_def split: if_splits)

lemma monitors_Start: "Start s = Inr (s', loops) \<Longrightarrow> monitors s names \<Longrightarrow> monitors s' names"
  by (auto simp: Start_def monitors_def split: if_splits)

lemma monitors_Remove: "monitors s names \<Longrightarrow> monitors (RemoveTarget ModuleID c s) (names - {c})"
  by (fastforce simp: monitors_def RemoveTarget_def amap_del_def)

lemma monitors_Add:
  assumes "AddTarget ModuleID raw s = Inr (s', t, scans)" "monitors s names"
  shows "monitors s' (insert (t_canonical t) names) \<and> ValidateTarget raw = Inr t"
proof -
  from assms(2) obtain src reg where reg: "map_of (sd_modules s) ModuleID = Some reg"
    "rg_collector reg = tenant_collector src" "fst ` set (rg_targets reg) = names"
    "\<forall>(c, t) \<in> set (rg_targets reg). c = t_canonical t" by (auto simp: monitors_def)
  have s': "s' = s\<lparr>sd_modules := amap_put ModuleID
      (reg\<lparr>rg_targets := amap_put (t_canonical t) t (rg_targets reg)\<rparr>) (sd_modules s)\<rparr>"
    and v: "ValidateTarget raw = Inr t"
    using assms(1) reg(1,2) by (auto simp: AddTarget_def tenant_collector_def split: sum.splits)
  have "fst ` set (amap_put (t_canonical t) t (rg_targets reg)) = insert (t_canonical t) names"
    using reg(3) by (simp add: amap_put_def keys_amap_upd)
  moreover have "\<forall>(c, t') \<in> set (amap_put (t_canonical t) t (rg_targets reg)). c = t_canonical t'"
    using set_amap_put [of "t_canonical t" t "rg_targets reg"] reg(4) by fastforce
  ultimately show ?thesis using s' v reg(2) by (auto simp: monitors_def)
qed

lemma monitors_Add_invalid:
  "AddTarget ModuleID raw s = Inl e \<Longrightarrow> monitors s names \<Longrightarrow> \<exists>e. ValidateTarget raw = Inl e"
  by (auto simp: AddTarget_def monitors_def tenant_collector_def split: sum.splits)

lemma monitors_restore:
  "monitors s names \<Longrightarrow> monitors (restore_targets ModuleID saved s)
     (names \<union> {t_canonical t | raw t. raw \<in> set saved \<and> ValidateTarget raw = Inr t})"
proof (induction saved arbitrary: s names)
  case Nil
  then show ?case by (simp add: restore_targets_def)
next
  case (Cons raw saved)
  show ?case
  proof (cases "AddTarget ModuleID raw s")
    case (Inl e)
    obtain e' where "ValidateTarget raw = Inl e'" using monitors_Add_invalid [OF Inl Cons.prems] by blast
    then have "{t_canonical t | r t. r \<in> set (raw # saved) \<and> ValidateTarget r = Inr t} =
        {t_canonical t | r t. r \<in> set saved \<and> ValidateTarget r = Inr t}" by auto
    then show ?thesis using Cons.IH [OF Cons.prems] Inl by (simp add: restore_targets_def)
  next
    case (Inr x)
    obtain s' t scans where x: "x = (s', t, scans)" by (metis surj_pair)
    note add = monitors_Add [OF Inr [unfolded x] Cons.prems]
    then have "insert (t_canonical t) names \<union> {t_canonical t | r t. r \<in> set saved \<and> ValidateTarget r = Inr t} =
        names \<union> {t_canonical t | r t. r \<in> set (raw # saved) \<and> ValidateTarget r = Inr t}" by auto
    then show ?thesis using Cons.IH [of s'] add Inr x by (fastforce simp: restore_targets_def)
  qed
qed

lemma restored_names:
  assumes "monitors s {}" "saved_ok ModuleID db"
  shows "monitors (restore_targets ModuleID (sql_ListSavedTargets ModuleID db) s) (saved_names ModuleID db)"
proof -
  have "{t_canonical t | raw t. raw \<in> set (sql_ListSavedTargets ModuleID db) \<and> ValidateTarget raw = Inr t} =
      saved_names ModuleID db"
  proof (intro set_eqI iffI)
    fix c assume "c \<in> {t_canonical t | raw t. raw \<in> set (sql_ListSavedTargets ModuleID db) \<and> ValidateTarget raw = Inr t}"
    then obtain raw t c' where "(ModuleID, raw, c') \<in> set (db_targets db)" "ValidateTarget raw = Inr t" "c = t_canonical t"
      by (auto simp: sql_ListSavedTargets_def)
    then show "c \<in> saved_names ModuleID db" using assms(2) by (fastforce simp: saved_names_def saved_ok_def)
  next
    fix c assume "c \<in> saved_names ModuleID db"
    then obtain raw where raw: "(ModuleID, raw, c) \<in> set (db_targets db)" by (auto simp: saved_names_def)
    then obtain t where "ValidateTarget raw = Inr t" "t_canonical t = c"
      using assms(2) by (cases "ValidateTarget raw") (auto simp: saved_ok_def)
    moreover have "raw \<in> set (sql_ListSavedTargets ModuleID db)"
      using raw by (force simp: sql_ListSavedTargets_def)
    ultimately show "c \<in> {t_canonical t | raw t. raw \<in> set (sql_ListSavedTargets ModuleID db) \<and> ValidateTarget raw = Inr t}"
      by blast
  qed
  then show ?thesis using monitors_restore [OF assms(1), of "sql_ListSavedTargets ModuleID db"] by simp
qed

lemma saved_SaveTarget:
  assumes "saved_ok m db" "case ValidateTarget raw of Inl _ \<Rightarrow> False | Inr t \<Rightarrow> t_canonical t = c"
  shows "saved_ok m (sql_SaveTarget m raw c db) \<and> saved_names m (sql_SaveTarget m raw c db) = insert c (saved_names m db)"
  using assms by (auto simp: saved_ok_def saved_names_def sql_SaveTarget_def list_ex_iff)

lemma saved_DeleteTarget:
  assumes "saved_ok m db"
  shows "saved_ok m (sql_DeleteTarget m c db) \<and> saved_names m (sql_DeleteTarget m c db) = saved_names m db - {c}"
  using assms by (auto simp: saved_ok_def saved_names_def sql_DeleteTarget_def)

lemma saved_same:
  "db_targets db' = db_targets db \<Longrightarrow> saved_ok m db' = saved_ok m db \<and> saved_names m db' = saved_names m db"
  by (simp add: saved_ok_def saved_names_def)

text \<open>The scheduler monitors what is saved.\<close>

definition in_step :: "(sqlite, 'e tenant_error) web \<Rightarrow> bool" where
  "in_step w \<longleftrightarrow> monitors (wb_sched w) (saved_names ModuleID (wb_store w)) \<and> saved_ok ModuleID (wb_store w)"

lemma ValidateTarget_raw:
  assumes v: "ValidateTarget raw = Inr t"
  shows "ValidateTarget (t_raw t) = Inr t"
proof -
  from v have "t_raw t = trim_space raw" by (rule ValidateTarget_Inr)
  moreover have "ValidateTarget (trim_space raw) = ValidateTarget raw"
    by (simp add: ValidateTarget_def)
  ultimately show ?thesis using v by simp
qed

lemma sql_upsert_targets: "sql_Upsert db r = Inr db' \<Longrightarrow> db_targets db' = db_targets db"
  by (elim sql_Upsert_rows)

lemma scan_targets: "db_targets (fst (scanOne (sql_ops flt) newID now reg t db)) = db_targets db"
  by (rule scanOne_preserves [of "sql_ops flt" "\<lambda>d. db_targets d = db_targets db"])
    (auto simp: sql_ops_def dest: sql_upsert_targets)

lemma scan_now_targets: "ScanNow (sql_ops flt) newID now m sched db = Inr db' \<Longrightarrow> db_targets db' = db_targets db"
  by (rule ScanNow_preserves [of "sql_ops flt" "\<lambda>d. db_targets d = db_targets db"])
    (auto simp: sql_ops_def dest: sql_upsert_targets)

lemma sql_engine_ops [simp]: "engine_ops (sql_api flt) = sql_ops flt"
  by (simp add: engine_ops_def sql_api_def sql_ops_def)

lemma in_step_request:
  assumes "run_state (serve sv env ep rq w) u = ((resp, w'), u')" "in_step w"
    and "sv_api sv = sql_api flt" "sv_targets sv = Some sql_target_api" "module_id sv = ModuleID"
  shows "in_step w'"
  using run_state_serve [OF assms(1)]
proof (elim disjE conjE)
  assume "handleAddTarget sv rq w = (resp, w')"
  then have "w' = w \<or> (\<exists>raw sched t scans. AddTarget ModuleID raw (wb_sched w) = Inr (sched, t, scans) \<and>
      wb_sched w' = sched \<and> wb_store w' = sql_SaveTarget ModuleID (t_raw t) (t_canonical t) (wb_store w))"
    using assms(4,5)
    by (auto simp: handleAddTarget_def Let_def sql_target_api_def split: option.splits if_splits sum.splits) blast+
  then show ?thesis
  proof (elim disjE exE conjE)
    fix raw sched t scans
    assume add: "AddTarget ModuleID raw (wb_sched w) = Inr (sched, t, scans)"
      and w': "wb_sched w' = sched" "wb_store w' = sql_SaveTarget ModuleID (t_raw t) (t_canonical t) (wb_store w)"
    have mon: "monitors (wb_sched w) (saved_names ModuleID (wb_store w))" "saved_ok ModuleID (wb_store w)"
      using assms(2) by (simp_all add: in_step_def)
    note added = monitors_Add [OF add mon(1)]
    have "ValidateTarget (t_raw t) = Inr t" using ValidateTarget_raw added by blast
    then show ?thesis using added saved_SaveTarget [OF mon(2), of "t_canonical t" "t_raw t"]
      by (simp add: in_step_def w')
  qed (use assms(2) in simp)
next
  assume "handleRemoveTarget sv rq w = (resp, w')"
  then have "w' = w \<or> (\<exists>c. wb_sched w' = RemoveTarget ModuleID c (wb_sched w) \<and>
      wb_store w' = sql_DeleteTarget ModuleID c (wb_store w))"
    using assms(4,5) by (auto simp: handleRemoveTarget_def Let_def sql_target_api_def split: if_splits)
  then show ?thesis using assms(2) monitors_Remove saved_DeleteTarget by (auto simp: in_step_def)
next
  assume "handleFindingStatus sv rq w = (resp, w')"
  then have "db_targets (wb_store w') = db_targets (wb_store w) \<and> wb_sched w' = wb_sched w"
    using assms(3) by (auto simp: handleFindingStatus_def sql_api_def sql_upsert_targets
        split: option.splits if_splits sum.splits)
  then show ?thesis using assms(2) saved_same by (metis in_step_def)
next
  assume "handleScanNow sv rq w = (resp, w')"
  then show ?thesis
  proof (rule scan_frame)
    fix st assume "ScanNow (engine_ops (sv_api sv)) (sv_new_id sv) (rq_now rq) (module_id sv) (wb_sched w) (wb_store w) = Inr st"
      "w' = w\<lparr>wb_store := st\<rparr>"
    then show ?thesis using assms(2,3) saved_same [OF scan_now_targets [of flt "sv_new_id sv" "rq_now rq" "module_id sv" "wb_sched w" "wb_store w" st]]
      by (simp add: in_step_def)
  qed (use assms(2) in simp)
next
  assume "handleSetLicense sv rq w = (resp, w')"
  then show ?thesis using assms(2) by (elim license_frame) (simp_all add: in_step_def)
qed (use assms(2) in simp)

lemma in_step_run:
  assumes "web_run sv env w0 w" "in_step w0"
    and "sv_api sv = sql_api flt" "sv_targets sv = Some sql_target_api" "module_id sv = ModuleID"
  shows "in_step w"
  using assms(1)
proof (induction rule: web_run.induct)
  case (run_step w w')
  from run_step(2) show ?case
  proof cases
    case (step_request verb pth rq act u resp u')
    obtain ep where "run_state (serve sv env ep rq w) u = ((resp, w'), u')"
      using step_request by (rule request_run)
    from in_step_request [OF this run_step.IH assms(3-5)] show ?thesis .
  next
    case (step_sweep m reg t now)
    then show ?thesis using run_step.IH assms(3) by (simp add: in_step_def saved_same [OF scan_targets])
  next
    case (step_launched reg t now)
    then show ?thesis using run_step.IH assms(3) by (simp add: in_step_def saved_same [OF scan_targets])
  qed
qed (rule assms(2))

lemma startup_in_step:
  assumes "startup sv0 flt lib parse read key host loaded fl db licfile now = Inr ru" "saved_ok ModuleID db"
  shows "in_step (ru_web ru) \<and> sv_api (ru_server ru) = sql_api flt \<and> sv_targets (ru_server ru) = Some sql_target_api \<and>
    module_id (ru_server ru) = ModuleID \<and> monitors (wb_sched (ru_web ru)) (saved_names ModuleID db)"
  using assms(1)
proof (rule startup_parts)
  fix src sched0 sched2 loops ai
  assume reg: "Register (tenant_collector src) (NewScheduler empty_config) = Inr sched0"
    and start: "Start (restore_targets ModuleID (sql_ListSavedTargets ModuleID db) sched0) = Inr (sched2, loops)"
    and sv: "ru_server ru = main_server sv0 flt key host fl ai"
    and w: "ru_web ru = (NewServer (main_server sv0 flt key host fl None)
       (restore_targets ModuleID (sql_ListSavedTargets ModuleID db) sched0) db licfile now)\<lparr>wb_sched := sched2\<rparr>"
  have "monitors sched2 (saved_names ModuleID db)"
    by (rule monitors_Start [OF start restored_names [OF monitors_Register [OF reg] assms(2)]])
  then show ?thesis using assms(2)
    by (simp add: in_step_def sv w main_server_def NewServer_def Let_def)
qed

text \<open>
  C12. A restart forgets no tenant and brings none back: after any requests and scans, starting
  again from the database monitors exactly the tenants that were monitored, by canonical name. It
  is enough that the entries of the first database are accepted under the names they are saved
  with, as those of an empty database are.
\<close>

theorem restart_restores_targets:
  assumes "startup sv0 flt lib parse read key host loaded fl db licfile now = Inr ru"
    and "saved_ok ModuleID db" "web_run (ru_server ru) env (ru_web ru) w"
    and "startup sv0' flt' lib' parse' read' key' host' loaded' fl' (wb_store w) licfile' now' = Inr ru'"
  shows "t_canonical ` set (ListTargets ModuleID (wb_sched (ru_web ru'))) =
    t_canonical ` set (ListTargets ModuleID (wb_sched w))"
proof -
  note start = startup_in_step [OF assms(1,2)]
  have "in_step w" using in_step_run [OF assms(3)] start by blast
  then have w: "monitors (wb_sched w) (saved_names ModuleID (wb_store w))" "saved_ok ModuleID (wb_store w)"
    by (simp_all add: in_step_def)
  have "monitors (wb_sched (ru_web ru')) (saved_names ModuleID (wb_store w))"
    using startup_in_step [OF assms(4) w(2)] by blast
  then show ?thesis using monitors_names w(1) by metis
qed

definition add_request :: request where
  "add_request = sample_request (json_object [(''target'', json_string ''m365:a.b'')])"

lemma add_request_body: "decode_body (get_string ''target'') (rq_body add_request) = Some ''m365:a.b''"
  by code_simp

lemma sample_target_valid: "ValidateTarget ''m365:a.b'' = Inr sample_target"
  by code_simp

text \<open>The sample program started on an empty database, and then asked to add a tenant.\<close>

lemma sample_add:
  assumes "startup (sql_server flt) flt plain_lib (\<lambda>_. None) Inl [] ''h'' loaded sample_start new_sqlite None 100 =
    Inr ru"
  obtains w' where "web_run (ru_server ru) sample_env (ru_web ru) w'" "monitors (wb_sched w') {''m365:a.b''}"
proof -
  define sv where "sv = ru_server ru"
  define w where "w = ru_web ru"
  have ok: "saved_ok ModuleID new_sqlite" by (simp add: saved_ok_def new_sqlite_def)
  note begun = startup_in_step [OF assms ok, folded sv_def w_def]
  have mon: "monitors (wb_sched w) {}" using begun by (simp add: saved_names_def new_sqlite_def)
  have free: "l_max_targets (effLimits sv w) = 1" using assms
    by (rule startup_parts) (simp add: sv_def w_def main_server_def effLimits_def NewServer_def Let_def Activate_def issuer_pub_def
      PublicKeySize_def free_activation_def product_TierLimits_def)
  obtain sched scans where add: "AddTarget ModuleID ''m365:a.b'' (wb_sched w) = Inr (sched, sample_target, scans)"
    using mon by (auto simp: monitors_def AddTarget_def tenant_collector_def sample_target_valid)
  have "ListTargets ModuleID (wb_sched w) = []" using monitors_names [OF mon] by simp
  then obtain resp w' where set: "handleAddTarget sv add_request w = (resp, w')" "wb_sched w' = sched"
    using begun free add by (simp add: handleAddTarget_def add_request_body canAdd_def sql_target_api_def Let_def)
  obtain act where act: "Handler sv sample_env ''POST'' ''/api/targets'' add_request w = Some act"
    "run_state act () = ((resp, w'), ())"
    using set(1) by (auto simp: Handler_def route_def routes_def serve_def)
  have "web_step sv sample_env w w'" by (rule step_request [OF act])
  then have "web_run sv sample_env w w'" by (rule run_step [OF run_start])
  moreover have "monitors (wb_sched w') {''m365:a.b''}"
    using monitors_Add [OF add mon] set(2) by (simp add: sample_target_def)
  ultimately show thesis unfolding sv_def w_def by (rule that)
qed

theorem restart_restores_targets_witness:
  "\<exists>db ru. startup (sql_server (\<lambda>_. None)) (\<lambda>_. None) plain_lib (\<lambda>_. None) Inl [] ''h'' (Inr (\<lambda>p d. Inr empty_state))
     sample_start db None 100 = Inr ru \<and> t_canonical ` set (ListTargets ModuleID (wb_sched (ru_web ru))) = {''m365:a.b''}"
proof -
  obtain ru where start: "startup (sql_server (\<lambda>_. None)) (\<lambda>_. None) plain_lib (\<lambda>_. None) Inl []
      ''h'' (Inr (\<lambda>p d. Inr empty_state)) sample_start new_sqlite None 100 = Inr ru"
    using sample_startup by blast
  obtain w1 where run: "web_run (ru_server ru) sample_env (ru_web ru) w1" and mon: "monitors (wb_sched w1) {''m365:a.b''}"
    using start by (rule sample_add)
  have ok: "saved_ok ModuleID new_sqlite" by (simp add: saved_ok_def new_sqlite_def)
  obtain ru' where again: "startup (sql_server (\<lambda>_. None)) (\<lambda>_. None) plain_lib (\<lambda>_. None) Inl []
      ''h'' (Inr (\<lambda>p d. Inr empty_state)) sample_start (wb_store w1) None 100 = Inr ru'"
    using sample_startup by blast
  from restart_restores_targets [OF start ok run again] monitors_names [OF mon] again show ?thesis by auto
qed

end
