(* ===== verification/Web_Findings.thy ===== *)
theory Web_Findings
  imports Startup_Props
begin

text \<open>
  What the dashboard does to a finding: the user's status is a write to exactly one record of
  either store, the engine respects it in later scans, and narrating a finding only reads it.
\<close>

section \<open>What the handler relies on from a store\<close>

text \<open>
  \<open>view\<close> is the part of a record that is read back as it was written; for the database this
  leaves out the evidence, which is read back as JSON keeps it.
\<close>

locale finding_api =
  fixes api :: "'s store_api"
    and view :: "store_rec \<Rightarrow> store_rec"
    and ok :: "string \<Rightarrow> bool"
    and inv :: "'s \<Rightarrow> bool"
  assumes get_total: "\<exists>x. op_get api s m fp = Inr x"
    and rewrite_total: "inv s \<Longrightarrow> ok m \<Longrightarrow> op_get api s m fp = Inr (Some r) \<Longrightarrow>
      \<exists>s'. op_upsert api s (r\<lparr>f_status := st\<rparr>) = Inr s'"
    and rewrite_inv: "inv s \<Longrightarrow> ok m \<Longrightarrow> op_get api s m fp = Inr (Some r) \<Longrightarrow>
      op_upsert api s (r\<lparr>f_status := st\<rparr>) = Inr s' \<Longrightarrow> inv s'"
    and rewrite_same: "inv s \<Longrightarrow> ok m \<Longrightarrow> op_get api s m fp = Inr (Some r) \<Longrightarrow>
      op_upsert api s (r\<lparr>f_status := st\<rparr>) = Inr s' \<Longrightarrow>
      \<exists>r'. op_get api s' m fp = Inr (Some r') \<and> view r' = view (r\<lparr>f_status := st\<rparr>)"
    and rewrite_other: "inv s \<Longrightarrow> ok m \<Longrightarrow> ok m' \<Longrightarrow> op_get api s m fp = Inr (Some r) \<Longrightarrow>
      op_upsert api s (r\<lparr>f_status := st\<rparr>) = Inr s' \<Longrightarrow> (m', fp') \<noteq> (m, fp) \<Longrightarrow>
      op_get api s' m' fp' = op_get api s m' fp'"
begin

definition status_done :: "('s, 'e) server \<Rightarrow> ('s, 'e) web \<Rightarrow> string \<Rightarrow> store_rec \<Rightarrow> finding_status \<Rightarrow> ('s, 'e) web \<Rightarrow> bool" where
  "status_done sv w fp r st w' \<longleftrightarrow> (\<exists>s'. w' = w\<lparr>wb_store := s'\<rparr> \<and> inv s' \<and>
     (\<exists>r'. op_get api s' (module_id sv) fp = Inr (Some r') \<and> view r' = view (r\<lparr>f_status := st\<rparr>)) \<and>
     (\<forall>m' fp'. ok m' \<longrightarrow> (m', fp') \<noteq> (module_id sv, fp) \<longrightarrow> op_get api s' m' fp' = op_get api (wb_store w) m' fp'))"

lemma status_handled:
  assumes "sv_api sv = api" "inv (wb_store w)" "ok (module_id sv)"
    and "decode_body dec_status_request (rq_body rq) = Some (fp, st)"
    and "st \<in> {StatusOpen, StatusAcknowledged, StatusSuppressed}"
    and "op_get api (wb_store w) (module_id sv) fp = Inr (Some r)"
  shows "\<exists>w'. handleFindingStatus sv rq w = (ok_reply, w') \<and> status_done sv w fp r st w'"
proof -
  obtain s' where up: "op_upsert api (wb_store w) (r\<lparr>f_status := st\<rparr>) = Inr s'"
    using rewrite_total [OF assms(2,3,6)] by blast
  have "status_done sv w fp r st (w\<lparr>wb_store := s'\<rparr>)"
    unfolding status_done_def using rewrite_inv [OF assms(2,3,6) up] rewrite_same [OF assms(2,3,6) up]
      rewrite_other [OF assms(2,3) _ assms(6) up] by blast
  then show ?thesis using assms(1,4-6) up by (auto simp: handleFindingStatus_def)
qed

lemma status_refused:
  assumes "sv_api sv = api"
    and "\<forall>fp st. decode_body dec_status_request (rq_body rq) = Some (fp, st) \<longrightarrow>
      st \<in> {StatusOpen, StatusAcknowledged, StatusSuppressed} \<longrightarrow> op_get api (wb_store w) (module_id sv) fp = Inr None"
  shows "\<exists>code msg. handleFindingStatus sv rq w = (httpError code msg, w) \<and> code \<in> {400, 404}"
  using assms get_total [of "wb_store w" "module_id sv"] unfolding handleFindingStatus_def
  by (cases "decode_body dec_status_request (rq_body rq)") force+

end

lemma mem_api_simps [simp]:
  "op_get mem_api s m fp = Inr (mem_Get s m fp)" "op_upsert mem_api = mem_Upsert"
  "engine_ops mem_api = mem_ops"
  by (simp_all add: mem_api_def engine_ops_def mem_ops_def)

lemma sql_api_simps [simp]:
  "op_get (sql_api flt) s m fp = Inr (sql_Get flt s m fp)" "op_upsert (sql_api flt) = sql_Upsert"
  "engine_ops (sql_api flt) = sql_ops flt"
  by (simp_all add: sql_api_def engine_ops_def sql_ops_def)

interpretation mem_findings: finding_api mem_api id ok_module mem_inv
proof unfold_locales
  fix s m fp r st s' assume s: "mem_inv s" "ok_module m" "op_get mem_api s m fp = Inr (Some r)"
    "op_upsert mem_api s (r\<lparr>f_status := st\<rparr>) = Inr s'"
  then have key: "f_module r = m" "f_fingerprint r = fp" using mem_Get_Some [of s m fp r] by auto
  show "mem_inv s'" using s key mem_upsert_inv [of s "r\<lparr>f_status := st\<rparr>" s'] by simp
  show "\<exists>r'. op_get mem_api s' m fp = Inr (Some r') \<and> id r' = id (r\<lparr>f_status := st\<rparr>)"
    using s(4) key by (auto simp: mem_Upsert_def mem_Get_def)
  fix m' fp' assume "ok_module m'" "(m', fp') \<noteq> (m, fp)"
  then show "op_get mem_api s' m' fp' = op_get mem_api s m' fp'"
    using s(2,4) key by (auto simp: mem_Upsert_def mem_Get_def store_key_inj)
qed (simp_all add: mem_Upsert_def)

lemma sql_Get_key:
  assumes "sql_Get flt s m fp = Some r"
  shows "f_module r = m" "f_fingerprint r = fp" "(m, fp) \<in> row_key ` set (db_findings s)" "fine_evidence (f_evidence r)"
proof -
  obtain x where x: "x \<in> set (db_findings s)" "row_key x = (m, fp)" "r = scanRecord flt x"
    using assms by (auto simp: sql_Get_def find_Some_iff) (metis nth_mem)
  then show "f_module r = m" "f_fingerprint r = fp" "(m, fp) \<in> row_key ` set (db_findings s)"
    by (auto simp: row_key_def image_iff)
  show "fine_evidence (f_evidence r)"
    using read_evidence_fine by (auto simp: x(3) scanRecord_def fine_evidence_def [of None] split: option.split)
qed

lemma bare_stored_record:
  "same_identity r q \<Longrightarrow> bare (stored_record flt (Some q) r) = bare r"
  by (cases r) (simp add: stored_record_def bare_def same_identity_def)

interpretation sql_findings: finding_api "sql_api flt" bare "\<lambda>_. True" sql_inv for flt
proof unfold_locales
  fix s m fp r st assume "op_get (sql_api flt) s m fp = Inr (Some r)"
  then have get: "sql_Get flt s m fp = Some r" by simp
  note key = sql_Get_key [OF this]
  obtain ev where "marshalEvidence (f_evidence r) = Inr ev" using key(4) by (auto simp: fine_iff)
  then show "\<exists>s'. op_upsert (sql_api flt) s (r\<lparr>f_status := st\<rparr>) = Inr s'"
    using key(1-3) by (simp add: sql_Upsert_def insert_or_update_def)
  fix s' assume up: "op_upsert (sql_api flt) s (r\<lparr>f_status := st\<rparr>) = Inr s'"
  then have rec: "sql_Upsert s (r\<lparr>f_status := st\<rparr>) = Inr s'" by simp
  show "sql_inv s \<Longrightarrow> sql_inv s'" using sql_Upsert_inv [OF rec] .
  show "\<exists>r'. op_get (sql_api flt) s' m fp = Inr (Some r') \<and> bare r' = bare (r\<lparr>f_status := st\<rparr>)"
    using sql_Get_Upsert [OF rec, of flt m fp] key(1,2) get by (simp add: bare_stored_record same_identity_def)
  fix m' fp' assume "(m', fp') \<noteq> (m, fp)"
  then show "op_get (sql_api flt) s' m' fp' = op_get (sql_api flt) s m' fp'"
    using sql_Get_Upsert [OF rec, of flt m' fp'] key(1,2) by auto
qed simp

section \<open>The user's status\<close>

lemma status_keeps_targets:
  assumes "sv_api sv = sql_api flt" "handleFindingStatus sv rq w = (resp, w')"
  shows "db_targets (wb_store w') = db_targets (wb_store w)"
  using assms sql_upsert_targets
  by (auto simp: handleFindingStatus_def split: option.splits if_splits sum.splits)


definition status_request :: "string \<Rightarrow> request" where
  "status_request st = sample_request
     (json_object [(''fingerprint'', json_string ''fp''), (''status'', json_string st)])"

lemma suppress_request_body:
  "decode_body dec_status_request (rq_body (status_request StatusSuppressed)) = Some (''fp'', StatusSuppressed)"
  by code_simp

definition sample_db :: sqlite where
  "sample_db = new_sqlite\<lparr>db_findings := [row_values (new_record ''m'' 5 ''i'' sample_f) None]\<rparr>"

definition sql_web :: "(sqlite, unit tenant_error) web" where
  "sql_web = NewServer (sql_server (\<lambda>_. None)) sample_sched sample_db None 100"

lemma bare_status: "bare z = (bare r)\<lparr>f_status := st\<rparr> \<Longrightarrow> f_status z = st"
  by (drule arg_cong [of _ _ f_status]) simp


lemma scannable_mono:
  assumes "scannable mi t s fresh"
    "\<And>fp r'. mem_Get s' (mi_id mi) fp = Some r' \<Longrightarrow> \<exists>r. mem_Get s (mi_id mi) fp = Some r \<and> f_target r = f_target r'"
  shows "scannable mi t s' fresh"
  using scannable_D [OF assms(1)] assms(2) unfolding scannable_def
  by (fastforce simp: list_all_iff split: option.split)

text \<open>
  A finding that the user suppressed in the dashboard stays silent: however many scans follow,
  whatever they report about its tenant, it stays suppressed and none of them announces it, as
  new or as resolved.
\<close>

theorem suppression_lasts:
  assumes "sv_api sv = mem_api" "mem_inv (wb_store w)" "ok_module (module_id sv)" "\<forall>t n. sv_new_id sv t n \<noteq> None"
    and "decode_body dec_status_request (rq_body rq) = Some (fp, StatusSuppressed)"
    and "handleFindingStatus sv rq w = (ok_reply, w')"
    and "\<forall>r. mem_Get (wb_store w) (module_id sv) fp = Some r \<longrightarrow> f_target r = t"
    and "\<forall>scan \<in> set ((now, fresh) # scans). scannable (sv_module sv) t (wb_store w) (snd scan)"
    and "Reconcile (engine_ops (sv_api sv)) (sv_new_id sv) now (sv_module sv) t fresh
      (run_scans (sv_new_id sv) (sv_module sv) t scans (wb_store w')) = (s', res, None)"
  shows "map_option f_status (mem_Get s' (module_id sv) fp) = Some StatusSuppressed \<and>
    fp \<notin> f_fingerprint ` set (rr_newly_open res) \<and> fp \<notin> f_fingerprint ` set (rr_resolved res)"
proof -
  let ?s = "wb_store w" and ?m = "module_id sv" and ?mi = "sv_module sv" and ?st = "wb_store w'"
  have valid: "StatusSuppressed \<in> {StatusOpen, StatusAcknowledged, StatusSuppressed}" by simp
  obtain r where r: "mem_Get ?s ?m fp = Some r"
    using assms(1,5,6) by (cases "mem_Get ?s ?m fp")
      (auto simp: handleFindingStatus_def ok_reply_def writeJSON_def httpError_def)
  then have "op_get mem_api ?s ?m fp = Inr (Some r)" by simp
  from mem_findings.status_handled [OF assms(1-3,5) valid this] assms(6)
  have st: "mem_inv ?st" "mem_Get ?st ?m fp = Some (r\<lparr>f_status := StatusSuppressed\<rparr>)"
    and other: "\<And>fp'. fp' \<noteq> fp \<Longrightarrow> mem_Get ?st ?m fp' = mem_Get ?s ?m fp'"
    using assms(3) by (auto simp: mem_findings.status_done_def)
  have same: "\<exists>q. mem_Get ?s ?m fp' = Some q \<and> f_target q = f_target q'" if "mem_Get ?st ?m fp' = Some q'" for fp' q'
    using that st(2) other r by (cases "fp' = fp") auto
  have scan: "scannable ?mi t ?st fr" if "scannable ?mi t ?s fr" for fr
    by (rule scannable_mono [OF that same])
  have ids: "sv_new_id sv a n \<noteq> None" for a n using assms(4) by simp
  have all: "scannable ?mi t ?st (snd sc)" if "sc \<in> set scans" for sc
    using assms(8) scan that by simp
  let ?fin = "run_scans (sv_new_id sv) ?mi t scans ?st"
  have target: "f_target q = t" if "mem_Get ?st ?m fp = Some q" for q
    using that st(2) assms(7) r by auto
  have start: "phase_of (mem_Get ?st ?m fp) = Present StatusSuppressed (r_absent_streak r)"
    by (simp add: st(2) phase_of_def)
  have runs: "phase_of (mem_Get ?fin ?m fp) = lifecycle_run (ResolveAfterOrDefault ?mi)
      (map (\<lambda>sc. reported (snd sc) fp \<noteq> None) scans) (phase_of (mem_Get ?st ?m fp))"
    by (rule run_scans_lifecycle) (use ids all target st assms(3) in auto)
  have "\<exists>n. phase_of (mem_Get ?fin ?m fp) = Present StatusSuppressed n"
    unfolding runs start by (rule lifecycle_suppressed)
  then have "\<exists>q. mem_Get ?fin ?m fp = Some q \<and> f_status q = StatusSuppressed"
    by (auto simp: phase_of_Present)
  then obtain q where q: "mem_Get ?fin ?m fp = Some q" "f_status q = StatusSuppressed" by blast
  have "mem_inv ?fin \<and> (scannable ?mi t ?st fresh \<longrightarrow> scannable ?mi t ?fin fresh)"
    by (rule run_scans_keeps) (use ids all st assms(3) in auto)
  then have "mem_inv ?fin" "scannable ?mi t ?fin fresh" using scan assms(8) by simp_all
  moreover have "Reconcile mem_ops (sv_new_id sv) now ?mi t fresh ?fin = (s', res, None)"
    using assms(1,9) by simp
  ultimately show ?thesis using suppressed_effect [OF _ _ assms(3) _ q] by blast
qed

theorem suppression_lasts_witness:
  "map_option f_status (mem_Get (fst (Reconcile mem_ops sample_ids 9 sample_mod ''t'' [sample_f]
     (run_scans sample_ids sample_mod ''t'' [(7, []), (8, [])] (wb_store (snd (handleFindingStatus
       ((sample_server [] None)\<lparr>sv_module := sample_mod\<rparr>) (status_request StatusSuppressed)
       ((sample_web [] [])\<lparr>wb_store := sample_store StatusOpen 1\<rparr>))))))) ''m'' ''fp'') = Some StatusSuppressed"
proof -
  let ?sv = "(sample_server [] None)\<lparr>sv_module := sample_mod\<rparr>"
  let ?w = "(sample_web [] [])\<lparr>wb_store := sample_store StatusOpen 1\<rparr>"
  obtain w' where set: "handleFindingStatus ?sv (status_request StatusSuppressed) ?w = (ok_reply, w')"
    by (simp add: handleFindingStatus_def suppress_request_body mem_Upsert_def)
  have ids: "sv_new_id (sample_server [] None) = sample_ids" by (simp add: sample_server_def)
  show ?thesis
    using suppression_lasts [of ?sv ?w "status_request StatusSuppressed" "''fp''" w' "''t''" 9 "[sample_f]" "[(7, []), (8, [])]"
        "fst (Reconcile mem_ops sample_ids 9 sample_mod ''t'' [sample_f]
           (run_scans sample_ids sample_mod ''t'' [(7, []), (8, [])] (wb_store w')))"
        "fst (snd (Reconcile mem_ops sample_ids 9 sample_mod ''t'' [sample_f]
           (run_scans sample_ids sample_mod ''t'' [(7, []), (8, [])] (wb_store w'))))"]
      set sample_run [of 9 sample_mod "''t''" "[sample_f]"]
    by (simp add: ids suppress_request_body del: run_scans.simps)
qed

text \<open>
  Reopening in the dashboard keeps the absence count of the record, so where a reported finding
  needs the threshold of absences to resolve, a reopened one resolves at the next absence.
\<close>

lemma reopened_resolves_at_once:
  "map_option f_status (mem_Get (run_scans sample_ids sample_mod ''t'' [(9, [])] (wb_store (snd (handleFindingStatus
     ((sample_server [] None)\<lparr>sv_module := sample_mod\<rparr>) (status_request StatusOpen)
     ((sample_web [] [])\<lparr>wb_store := sample_store StatusResolved 2\<rparr>))))) ''m'' ''fp'') = Some StatusResolved"
proof -
  let ?sv = "(sample_server [] None)\<lparr>sv_module := sample_mod\<rparr>"
  let ?w = "(sample_web [] [])\<lparr>wb_store := sample_store StatusResolved 2\<rparr>"
  have body: "decode_body dec_status_request (rq_body (status_request StatusOpen)) = Some (''fp'', StatusOpen)"
    by code_simp
  have get: "op_get mem_api (wb_store ?w) (module_id ?sv) ''fp'' =
      Inr (Some ((new_record ''m'' 5 ''i'' sample_f)\<lparr>f_status := StatusResolved, r_absent_streak := 2\<rparr>))"
    by simp
  obtain w' where set: "handleFindingStatus ?sv (status_request StatusOpen) ?w = (ok_reply, w')"
    and st: "mem_inv (wb_store w')" "mem_Get (wb_store w') ''m'' ''fp'' =
      Some ((new_record ''m'' 5 ''i'' sample_f)\<lparr>f_status := StatusOpen, r_absent_streak := 2\<rparr>)"
    using mem_findings.status_handled [OF _ _ _ body _ get] by (auto simp: mem_findings.status_done_def)
  have "phase_of (mem_Get (run_scans sample_ids sample_mod ''t'' [(9, [])] (wb_store w')) (mi_id sample_mod) ''fp'') =
    lifecycle_run 2 [False] (Present StatusOpen 2)"
    by (subst run_scans_lifecycle) (use st in \<open>auto simp: scannable_def phase_of_def sample_f_def\<close>)
  then show ?thesis using set by (auto simp: phase_of_Present)
qed

section \<open>Narration\<close>

text \<open>What the handler comes to, before anything is sent.\<close>

lemma explain_cases:
  obtains (refused) code msg where "handleExplainFinding sv env rq w = ret (httpError code msg)"
    "\<And>fp r. decode_body (get_string ''fingerprint'') (take 4096 (rq_body rq)) = Some fp \<Longrightarrow> trim_space fp \<noteq> [] \<Longrightarrow>
      op_get (sv_api sv) (wb_store w) (module_id sv) fp \<noteq> Inr (Some r)"
  | (off) reason where "handleExplainFinding sv env rq w = ret (unavailable_reply reason)"
  | (asked) a packet where "aiAllowed sv w = None" "sv_ai sv = Some a"
    "handleExplainFinding sv env rq w = do {
       x \<leftarrow> Explain env (aa_client a) packet;
       ret (case x of
         Inl _ \<Rightarrow> unavailable_reply ''The AI Assist sidecar did not answer. The finding is unaffected.''
       | Inr ex \<Rightarrow> explained_reply ex) }"
proof (cases "decode_body (get_string ''fingerprint'') (take 4096 (rq_body rq))")
  case None
  show thesis by (rule refused [of 400 "''fingerprint is required''"]) (simp_all add: handleExplainFinding_def None)
next
  case (Some fp)
  note dec = this
  show thesis
  proof (cases "trim_space fp = []")
    case True
    show thesis
      by (rule refused [of 400 "''fingerprint is required''"]) (use dec True in \<open>auto simp: handleExplainFinding_def\<close>)
  next
    case False
    show thesis
    proof (cases "op_get (sv_api sv) (wb_store w) (module_id sv) fp")
      case (Inl e)
      show thesis
        by (rule refused [of 500 "''store error''"]) (use dec False Inl in \<open>auto simp: handleExplainFinding_def\<close>)
    next
      case (Inr found)
      show thesis
      proof (cases found)
        case None
        show thesis
          by (rule refused [of 404 "''no such finding''"]) (use dec False Inr None in \<open>auto simp: handleExplainFinding_def\<close>)
      next
        case (Some r)
        note stored = Inr [unfolded Some]
        show thesis
        proof (cases "aiAllowed sv w")
          case (Some reason)
          show thesis by (rule off [of reason]) (simp add: handleExplainFinding_def dec False stored Some)
        next
          case None
          note allowed = this
          show thesis
          proof (cases "sv_ai sv")
            case None
            show thesis by (rule off [of "[]"]) (simp add: handleExplainFinding_def dec False stored None allowed)
          next
            case (Some a)
            show thesis
            proof (cases "NewFindingPacket (module_id sv) (aa_language a) (finding_of_record sv r)")
              case (Inl e)
              show thesis by (rule off [of "''This finding has no title or severity to explain.''"])
                (simp add: handleExplainFinding_def dec False stored allowed Some Inl)
            next
              case (Inr packet)
              show thesis by (rule asked [OF allowed Some])
                (simp add: handleExplainFinding_def dec False stored allowed Some Inr)
            qed
          qed
        qed
      qed
    qed
  qed
qed

text \<open>
  C24. Narration only ever reads, and only when it may: whatever the sidecar does, the request
  changes no state of the dashboard; nothing is sent when narration is off or when it needs a
  key and the edition is free; a stored finding always gets an answer with code 200, and a text
  is shown only with the fixed disclaimer.
\<close>

theorem narration_only_reads:
  assumes "Handler sv env ''POST'' ''/api/findings/explain'' rq w = Some act"
    and "run_state act u = ((resp, w'), u')"
  shows "w' = w \<and>
    ((case sv_ai sv of None \<Rightarrow> True
      | Some a \<Rightarrow> aa_keyed a \<and> act_tier (wb_activation w) \<notin> {TierPro, TierTeam}) \<longrightarrow> u' = u) \<and>
    (\<forall>fp r. decode_body (get_string ''fingerprint'') (take 4096 (rq_body rq)) = Some fp \<longrightarrow> trim_space fp \<noteq> [] \<longrightarrow>
       op_get (sv_api sv) (wb_store w) (module_id sv) fp = Inr (Some r) \<longrightarrow> rp_code resp = 200) \<and>
    ((\<exists>code msg. resp = httpError code msg) \<or> (\<exists>reason. resp = unavailable_reply reason) \<or>
     (\<exists>ex. resp = explained_reply ex \<and> ex_disclaimer ex = CanonicalDisclaimer \<and> ex_text ex \<noteq> []))"
proof -
  have "act = serve sv env ExplainFinding rq w"
    using assms(1) by (simp add: Handler_def route_def routes_def registerAI_def)
  then have w': "w' = w" and run: "run_state (handleExplainFinding sv env rq w) u = (resp, u')"
    using assms(2) by (auto simp: serve_def run_state_bind split: prod.splits)
  have ok: "rp_code (unavailable_reply reason) = 200" "rp_code (explained_reply ex) = 200" for reason ex
    by (simp_all add: unavailable_reply_def explained_reply_def writeJSON_def)
  show ?thesis
  proof (cases rule: explain_cases [of sv env rq w])
    case (refused code msg)
    then show ?thesis using run w' by auto
  next
    case (off reason)
    then show ?thesis using run w' ok by auto
  next
    case (asked a packet)
    have may: "\<not> (aa_keyed a \<and> act_tier (wb_activation w) \<notin> {TierPro, TierTeam})"
      using asked(1,2) by (auto simp: aiAllowed_def split: if_splits)
    obtain x u1 where ex: "run_state (Explain env (aa_client a) packet) u = (x, u1)" by fastforce
    show ?thesis
    proof (cases x)
      case (Inl e)
      then show ?thesis using run asked(2,3) ex w' may ok by (auto simp: run_state_bind)
    next
      case (Inr e)
      then have "ex_disclaimer e = CanonicalDisclaimer \<and> ex_text e \<noteq> []"
        using Explain_Inr [of env "aa_client a" packet u] ex by simp
      then show ?thesis using Inr run asked(2,3) ex w' may ok by (auto simp: run_state_bind)
    qed
  qed
qed

text \<open>A sidecar that counts the requests it gets, and one that would need a key.\<close>

definition counting_env :: "nat ai_env" where
  "counting_env = \<lparr>ae_http = (\<lambda>_ _. State (\<lambda>n. (NoAnswer ''down'', Suc n))), ae_wait = (\<lambda>_. ret None),
     ae_url_error = (\<lambda>_. None)\<rparr>"

definition keyed_assist :: ai_assist where
  "keyed_assist = \<lparr>aa_client = New ''http://h'' [WithAPIKey ''k''], aa_endpoint = ''http://h'', aa_keyed = True,
     aa_language = ''en''\<rparr>"

theorem narration_only_reads_witness:
  "run_state (the (Handler (sample_server [] (Some keyed_assist)) counting_env ''POST'' ''/api/findings/explain''
       (status_request StatusOpen) (sample_web [] []))) 5 =
     (fst (run_state (the (Handler (sample_server [] (Some keyed_assist)) counting_env ''POST'' ''/api/findings/explain''
       (status_request StatusOpen) (sample_web [] []))) 5), 5)"
proof -
  let ?sv = "sample_server [] (Some keyed_assist)" and ?w = "sample_web [] []"
  obtain act where act: "Handler ?sv counting_env ''POST'' ''/api/findings/explain'' (status_request StatusOpen) ?w = Some act"
    by (auto simp: Handler_def route_def routes_def registerAI_def)
  obtain resp w' u' where run: "run_state act 5 = ((resp, w'), u')" by (metis surj_pair)
  have "act_tier (wb_activation ?w) \<notin> {TierPro, TierTeam}"
    by (simp add: free_activation_def TierFree_def TierPro_def TierTeam_def)
  then show ?thesis using narration_only_reads [OF act run] act run by (simp add: keyed_assist_def)
qed

end
