(* ===== verification/Sched_Races.thy ===== *)
theory Sched_Races
  imports Sched_Fleet_Props Web_Findings
begin

text \<open>
  What the user sets in the dashboard while scans are running, over the database: the engine
  writes back records it read earlier, so a status is safe from the scans that list the records
  after it was written, and only from those.
\<close>

section \<open>A suppressed finding among interleaving scans\<close>

definition silent_about :: "string \<Rightarrow> reconcile_result \<Rightarrow> bool" where
  "silent_about fp res \<longleftrightarrow> fp \<notin> f_fingerprint ` set (rr_newly_open res) \<and> fp \<notin> f_fingerprint ` set (rr_resolved res)"

text \<open>
  A scan in flight is current on a finding of target \<open>t\<close> when what it has read of it shows it
  suppressed, it has not announced it, and, scanning another target, it does not report it.
\<close>

definition all_suppressed :: "string \<Rightarrow> string \<Rightarrow> store_rec list \<Rightarrow> bool" where
  "all_suppressed m fp rs \<longleftrightarrow> (\<forall>r \<in> set rs. f_module r = m \<and> (f_fingerprint r = fp \<longrightarrow> f_status r = StatusSuppressed))"

definition not_foreign :: "string \<Rightarrow> string \<Rightarrow> 'e scan \<Rightarrow> finding list \<Rightarrow> bool" where
  "not_foreign t fp p fs \<longleftrightarrow> (t_canonical (sn_target p) \<noteq> t \<longrightarrow> fp \<notin> f_fingerprint ` set fs)"

definition current_on :: "string \<Rightarrow> string \<Rightarrow> string \<Rightarrow> 'e scan \<Rightarrow> bool" where
  "current_on m t fp p \<longleftrightarrow> silent_about fp (sn_res p) \<and>
     (case sn_pc p of
        Listing fs \<Rightarrow> not_foreign t fp p fs
      | Ingesting ex fs \<Rightarrow> not_foreign t fp p fs \<and> all_suppressed m fp ex \<and>
          (t_canonical (sn_target p) = t \<longrightarrow> by_fingerprint ex fp \<noteq> None)
      | Resolving rs \<Rightarrow> all_suppressed m fp rs
      | _ \<Rightarrow> True)"

definition suppressed_in :: "float_reader \<Rightarrow> string \<Rightarrow> string \<Rightarrow> string \<Rightarrow> sqlite \<Rightarrow> bool" where
  "suppressed_in flt m t fp db \<longleftrightarrow> sql_inv db \<and>
     (\<exists>r. sql_Get flt db m fp = Some r \<and> f_status r = StatusSuppressed \<and> f_target r = t)"

lemma by_fingerprint_D: "by_fingerprint rs fp = Some r \<Longrightarrow> r \<in> set rs \<and> f_fingerprint r = fp"
  by (auto simp: by_fingerprint_def dest!: map_of_SomeD)

text \<open>A write of another finding, or of this one as suppressed, leaves it suppressed.\<close>

lemma suppressed_write:
  assumes "suppressed_in flt m t fp db" "op_upsert (sql_ops flt) db r = Inr db'"
    and "f_module r = m" "f_fingerprint r = fp \<Longrightarrow> f_status r = StatusSuppressed"
  shows "suppressed_in flt m t fp db'"
proof -
  have up: "sql_Upsert db r = Inr db'" using assms(2) by (simp add: sql_ops_def)
  show ?thesis
    using assms(1,3,4) sql_Upsert_inv [OF up] sql_Get_Upsert [OF up, of flt m fp]
    by (auto simp: suppressed_in_def stored_record_def Let_def)
qed

lemma ingest_keeps:
  assumes "ingest_step (sql_ops flt) newID now m (by_fingerprint ex) f st = (st', e)"
    and "suppressed_in flt m t fp (rs_store st)" "silent_about fp (rs_res st)" "all_suppressed m fp ex"
    and "f_fingerprint f = fp \<Longrightarrow> by_fingerprint ex fp \<noteq> None"
  shows "suppressed_in flt m t fp (rs_store st') \<and> silent_about fp (rs_res st')"
proof (cases "ValidateForIngest f")
  case (Some x)
  then show ?thesis using assms(1-3) by (auto simp: ingest_step_def silent_about_def)
next
  case valid: None
  show ?thesis
  proof (cases "by_fingerprint ex (f_fingerprint f)")
    case None
    then have "f_fingerprint f \<noteq> fp" using assms(5) by auto
    have stays: "suppressed_in flt m t fp db'"
      if "op_upsert (sql_ops flt) (rs_store st) (new_record m now i (capEvidence f)) = Inr db'" for i db'
      by (rule suppressed_write [OF assms(2) that]) (use \<open>f_fingerprint f \<noteq> fp\<close> in auto)
    show ?thesis using assms(1-3) valid None stays \<open>f_fingerprint f \<noteq> fp\<close>
      by (auto simp: ingest_step_def Let_def silent_about_def split: option.splits sum.splits)
  next
    case (Some prev)
    have prev: "f_module prev = m" "f_fingerprint prev = f_fingerprint f"
      "f_fingerprint f = fp \<Longrightarrow> f_status prev = StatusSuppressed"
      using by_fingerprint_D [OF Some] assms(4) by (auto simp: all_suppressed_def)
    then have safe: "f_fingerprint f = fp \<Longrightarrow> f_status prev \<noteq> StatusResolved" by auto
    have stays: "suppressed_in flt m t fp db'"
      if "op_upsert (sql_ops flt) (rs_store st) (merged_record now (capEvidence f) prev) = Inr db'" for db'
      by (rule suppressed_write [OF assms(2) that]) (use prev in auto)
    show ?thesis using assms(1-3) valid Some stays safe prev(2)
      by (auto simp: ingest_step_def Let_def silent_about_def split: sum.splits if_splits)
  qed
qed

lemma resolve_keeps:
  assumes "resolve_step (sql_ops flt) now k r st = (st', e)"
    and "suppressed_in flt m t fp (rs_store st)" "silent_about fp (rs_res st)" "all_suppressed m fp (r # rs)"
  shows "suppressed_in flt m t fp (rs_store st') \<and> silent_about fp (rs_res st')"
proof (cases "f_fingerprint r = fp")
  case True
  then show ?thesis using assms by (auto simp: resolve_step_def all_suppressed_def split: if_splits)
next
  case False
  have "suppressed_in flt m t fp db'"
    if "op_upsert (sql_ops flt) (rs_store st) (age_record k now r) = Inr db'" for db'
    by (rule suppressed_write [OF assms(2) that]) (use False assms(4) in \<open>auto simp: all_suppressed_def\<close>)
  then show ?thesis using assms(1-3) False
    by (auto simp: resolve_step_def Let_def silent_about_def split: sum.splits if_splits)
qed

text \<open>A list of the target's records shows what the database holds.\<close>

lemma listed_suppressed:
  assumes "suppressed_in flt m t fp db" "op_list_by_target (sql_ops flt) db m c = Inr ex"
  shows "all_suppressed m fp ex \<and> (c = t \<longrightarrow> by_fingerprint ex fp \<noteq> None)"
proof -
  have ex: "ex = map (scanRecord flt) (filter (\<lambda>x. row_module x = m \<and> row_target x = c) (db_findings db))"
    using assms(2) by (simp add: sql_ops_def sql_ListByTarget_def)
  obtain x where x: "row_at (db_findings db) (m, fp) = Some x" "row_status x = StatusSuppressed" "row_target x = t"
    using assms(1) by (auto simp: suppressed_in_def sql_Get_row)
  have d: "distinct (map row_key (db_findings db))" using assms(1) by (simp add: suppressed_in_def sql_inv_def)
  have in_db: "x \<in> set (db_findings db)" "row_key x = (m, fp)" using x(1) row_at_Some [OF d] by auto
  have "all_suppressed m fp ex"
    unfolding all_suppressed_def ex
  proof (intro ballI conjI impI)
    fix r assume r: "r \<in> set (map (scanRecord flt) (filter (\<lambda>x. row_module x = m \<and> row_target x = c) (db_findings db)))"
    then show "f_module r = m" by auto
    assume "f_fingerprint r = fp"
    then obtain y where "y \<in> set (db_findings db)" "row_key y = (m, fp)" "r = scanRecord flt y"
      using r by (auto simp: row_key_def)
    then have "row_at (db_findings db) (m, fp) = Some y" using row_at_Some [OF d] by auto
    then show "f_status r = StatusSuppressed" using x(1,2) \<open>r = scanRecord flt y\<close> by simp
  qed
  moreover have "by_fingerprint ex fp \<noteq> None" if "c = t"
  proof -
    have "scanRecord flt x \<in> set ex" using in_db x(3) that by (auto simp: ex row_key_def)
    moreover have "f_fingerprint (scanRecord flt x) = fp" using in_db(2) by (simp add: row_key_def)
    ultimately have "fp \<in> f_fingerprint ` set ex" by (metis imageI)
    then show ?thesis by (simp add: by_fingerprint_def map_of_eq_None_iff image_image)
  qed
  ultimately show ?thesis by blast
qed

text \<open>So every step of the engine keeps the finding suppressed, and the scan current.\<close>

lemma engine_keeps:
  assumes "engine_step (sql_ops flt) newID mi p db = (p', db')"
    and "suppressed_in flt (mi_id mi) t fp db" "current_on (mi_id mi) t fp p"
  shows "suppressed_in flt (mi_id mi) t fp db' \<and> current_on (mi_id mi) t fp p'"
proof (cases "sn_pc p")
  case (Listing fs)
  then show ?thesis
    using assms listed_suppressed [OF assms(2), of "t_canonical (sn_target p)"]
    by (auto simp: engine_step_def current_on_def not_foreign_def reconcile_end_def split: sum.splits)
next
  case (Ingesting ex fs)
  then have cur: "silent_about fp (sn_res p)" "not_foreign t fp p fs" "all_suppressed (mi_id mi) fp ex"
    "t_canonical (sn_target p) = t \<longrightarrow> by_fingerprint ex fp \<noteq> None"
    using assms(3) by (simp_all add: current_on_def)
  show ?thesis
  proof (cases fs)
    case Nil
    then show ?thesis using assms(1,2) Ingesting cur by (auto simp: engine_step_def current_on_def)
  next
    case (Cons f gs)
    obtain st e where step: "ingest_step (sql_ops flt) newID (sn_now p) (mi_id mi) (by_fingerprint ex) f (scan_rstate p db) = (st, e)"
      by fastforce
    have "suppressed_in flt (mi_id mi) t fp (rs_store st) \<and> silent_about fp (rs_res st)"
      by (rule ingest_keeps [OF step]) (use assms(2) cur Cons in \<open>auto simp: scan_rstate_def not_foreign_def\<close>)
    then show ?thesis using assms(1) Ingesting Cons step cur
      by (cases e) (auto simp: engine_step_def current_on_def scan_keep_def not_foreign_def reconcile_end_def)
  qed
next
  case (Resolving rs)
  then have cur: "silent_about fp (sn_res p)" "all_suppressed (mi_id mi) fp rs"
    using assms(3) by (simp_all add: current_on_def)
  show ?thesis
  proof (cases rs)
    case Nil
    then show ?thesis using assms(1,2) Resolving cur by (auto simp: engine_step_def current_on_def)
  next
    case (Cons r qs)
    obtain st e where step: "resolve_step (sql_ops flt) (sn_now p) (ResolveAfterOrDefault mi) r (scan_rstate p db) = (st, e)"
      by fastforce
    have "suppressed_in flt (mi_id mi) t fp (rs_store st) \<and> silent_about fp (rs_res st)"
      by (rule resolve_keeps [OF step]) (use assms(2) cur Cons in \<open>auto simp: scan_rstate_def\<close>)
    then show ?thesis using assms(1) Resolving Cons step cur
      by (cases e) (auto simp: engine_step_def current_on_def scan_keep_def all_suppressed_def reconcile_end_def)
  qed
qed (use assms in \<open>auto simp: engine_step_def\<close>)

section \<open>The whole fleet\<close>

text \<open>The steps that leave the finding's status to the user's last word.\<close>

definition leaves_status :: "string \<Rightarrow> label \<Rightarrow> bool" where
  "leaves_status fp l \<longleftrightarrow> (case l of UserGet fp' st \<Rightarrow> (fp' = fp \<longrightarrow> st = StatusSuppressed) | _ \<Rightarrow> True)"

definition hushed :: "float_reader \<Rightarrow> string \<Rightarrow> string \<Rightarrow> string \<Rightarrow> sched_result list \<Rightarrow> (sqlite, 'e) fleet \<Rightarrow> bool" where
  "hushed flt m t fp old w \<longleftrightarrow> suppressed_in flt m t fp (ft_store w) \<and> (\<forall>p \<in> set (ft_scans w). current_on m t fp p) \<and>
     all_suppressed m fp (ft_users w) \<and>
     (\<exists>new. ft_results w = old @ new \<and> (\<forall>res \<in> set new. silent_about fp (sr_reconcile res)))"

lemma current_new [simp]: "current_on m t fp (new_scan org tg)"
  by (simp add: current_on_def new_scan_def silent_about_def empty_result_def)

lemma hushed_update:
  assumes "hushed flt m t fp old w" "suppressed_in flt m t fp s" "current_on m t fp p"
  shows "hushed flt m t fp old (w\<lparr>ft_store := s, ft_scans := (ft_scans w)[i := p]\<rparr>)"
    and "hushed flt m t fp old (w\<lparr>ft_scans := (ft_scans w)[i := p]\<rparr>)"
  using assms set_update_subset_insert [of "ft_scans w" i p] by (auto simp: hushed_def)

lemma hushed_step:
  assumes "fleet_step env l w = Some w'" "hushed flt m t fp old w" "leaves_status fp l"
    and "fe_ops env = sql_ops flt" "fe_get env = sql_Get flt" "mi_id (fe_info env) = m"
    and collected: "\<And>now tg fs. co_collect (fe_collector env) now tg = Inr fs \<Longrightarrow> t_canonical tg \<noteq> t \<Longrightarrow>
      fp \<notin> f_fingerprint ` set fs"
  shows "hushed flt m t fp old w'"
proof -
  have cur: "i < length (ft_scans w) \<Longrightarrow> current_on m t fp (ft_scans w ! i)" for i
    using assms(2) by (simp add: hushed_def)
  have st: "suppressed_in flt m t fp (ft_store w)" using assms(2) by (simp add: hushed_def)
  have pc: "current_on m t fp (p\<lparr>sn_pc := pc\<rparr>)"
    if "current_on m t fp p" "pc = Collecting \<or> (\<exists>x. pc = Returned x)" for p :: "'b scan" and pc
    using that by (auto simp: current_on_def)
  show ?thesis
  proof (cases l)
    case (Acquire i)
    then have i: "i < length (ft_scans w)" "w' = w\<lparr>ft_scans := (ft_scans w)[i := (ft_scans w ! i)\<lparr>sn_pc := Collecting\<rparr>]\<rparr>"
      using assms(1) by (auto split: if_splits)
    show ?thesis unfolding i(2) by (rule hushed_update(2) [OF assms(2) st pc [OF cur [OF i(1)]]]) simp
  next
    case (Abandon i)
    then have i: "i < length (ft_scans w)" "w' = w\<lparr>ft_scans := (ft_scans w)[i := (ft_scans w ! i)\<lparr>sn_pc := Returned (Some Canceled)\<rparr>]\<rparr>"
      using assms(1) by (auto split: if_splits)
    show ?thesis unfolding i(2) by (rule hushed_update(2) [OF assms(2) st pc [OF cur [OF i(1)]]]) simp
  next
    case (CollectNow i now)
    have "current_on m t fp (collect_step (fe_collector env) now p)" if "current_on m t fp p" for p
      using that collected by (auto simp: collect_step_def current_on_def not_foreign_def split: sum.split)
    note collect = this
    have i: "i < length (ft_scans w)" "w' = w\<lparr>ft_scans := (ft_scans w)[i := collect_step (fe_collector env) now (ft_scans w ! i)]\<rparr>"
      using CollectNow assms(1) by (auto split: if_splits)
    show ?thesis unfolding i(2) by (rule hushed_update(2) [OF assms(2) st collect [OF cur [OF i(1)]]])
  next
    case (EngineStep i)
    obtain p s where step: "engine_step (fe_ops env) (fe_new_id env) (fe_info env) (ft_scans w ! i) (ft_store w) = (p, s)"
      by fastforce
    then have i: "i < length (ft_scans w)" "w' = w\<lparr>ft_store := s, ft_scans := (ft_scans w)[i := p]\<rparr>"
      using EngineStep assms(1) by (auto split: if_splits)
    have "suppressed_in flt m t fp s \<and> current_on m t fp p"
      using engine_keeps [OF step [unfolded assms(4)], of t fp] assms(6) st cur [OF i(1)] by simp
    then show ?thesis using hushed_update(1) [OF assms(2)] by (simp add: i(2))
  next
    case (Finish i now)
    then obtain res where i: "i < length (ft_scans w)" "sn_pc (ft_scans w ! i) = Returned res"
      "w' = finish_scan env now (ft_scans w ! i) res (w\<lparr>ft_scans := remove_nth i (ft_scans w)\<rparr>)"
      using assms(1) by (auto split: if_splits scan_pc.splits)
    have "silent_about fp (sn_res (ft_scans w ! i))" using cur [OF i(1)] by (simp add: current_on_def)
    then have "\<exists>new. ft_results w' = ft_results w @ new \<and> (\<forall>r \<in> set new. silent_about fp (sr_reconcile r))"
      by (auto simp: i(3) finish_scan_def Let_def split: prod.split)
    then show ?thesis using assms(2) set_remove_nth [of i "ft_scans w"]
      by (fastforce simp: hushed_def i(3))
  next
    case (UserGet fp' s)
    then obtain r where r: "sql_Get flt (ft_store w) m fp' = Some r" "w' = w\<lparr>ft_users := ft_users w @ [r\<lparr>f_status := s\<rparr>]\<rparr>"
      using assms(1,5,6) by (auto split: option.splits)
    then show ?thesis using UserGet assms(2,3) sql_Get_key [OF r(1)]
      by (auto simp: hushed_def all_suppressed_def leaves_status_def)
  next
    case (UserPut i)
    then have i: "i < length (ft_users w)" using assms(1) by (auto split: if_splits)
    let ?r = "ft_users w ! i"
    have key: "f_module ?r = m" "f_fingerprint ?r = fp \<Longrightarrow> f_status ?r = StatusSuppressed"
      using assms(2) nth_mem [OF i] by (auto simp: hushed_def all_suppressed_def)
    have "suppressed_in flt m t fp s" if "op_upsert (sql_ops flt) (ft_store w) ?r = Inr s" for s
      by (rule suppressed_write [OF st that]) (use key in auto)
    then show ?thesis using UserPut assms(1,2,4) i set_remove_nth [of i "ft_users w"]
      by (auto simp: hushed_def all_suppressed_def split: sum.splits)
  qed (use assms(1,2) in \<open>auto simp: hushed_def split: if_splits sum.splits\<close>)
qed

text \<open>
  C11. A suppression outlives every scan that starts to read after it, in any interleaving: when
  a finding is stored as suppressed and no scan in flight has read an older status of it, then
  after any steps of sweeps, scans, added targets and other requests it is still suppressed, and
  none of the results delivered since announces it. The user does not change the status again,
  and a scan of another tenant does not report this finding's fingerprint.
\<close>

theorem suppression_survives_interleaving:
  assumes "fe_ops env = sql_ops flt" "fe_get env = sql_Get flt" "fleet_run env ls w = Some w'"
    and "sql_inv (ft_store w)" "sql_Get flt (ft_store w) (mi_id (fe_info env)) fp = Some r"
    and "f_status r = StatusSuppressed" "f_target r = t"
    and "\<forall>p \<in> set (ft_scans w). current_on (mi_id (fe_info env)) t fp p" "ft_users w = []"
    and "\<forall>l \<in> set ls. leaves_status fp l"
    and "\<forall>now tg fs. co_collect (fe_collector env) now tg = Inr fs \<longrightarrow> t_canonical tg \<noteq> t \<longrightarrow>
      fp \<notin> f_fingerprint ` set fs"
  shows "map_option f_status (sql_Get flt (ft_store w') (mi_id (fe_info env)) fp) = Some StatusSuppressed \<and>
    (\<exists>new. ft_results w' = ft_results w @ new \<and>
       (\<forall>res \<in> set new. fp \<notin> f_fingerprint ` set (rr_newly_open (sr_reconcile res)) \<and>
          fp \<notin> f_fingerprint ` set (rr_resolved (sr_reconcile res))))"
proof -
  let ?m = "mi_id (fe_info env)"
  have "hushed flt ?m t fp (ft_results w) w'"
  proof (rule fleet_run_invariant [where P = "hushed flt ?m t fp (ft_results w)", OF _ _ assms(3)])
    show "hushed flt ?m t fp (ft_results w) w"
      using assms(4-9) by (simp add: hushed_def suppressed_in_def all_suppressed_def)
  next
    fix l v v' assume "l \<in> set ls" "hushed flt ?m t fp (ft_results w) v" "fleet_step env l v = Some v'"
    then show "hushed flt ?m t fp (ft_results w) v'"
      using hushed_step [of env l v v' flt ?m t fp "ft_results w"] assms(1,2,10,11) by blast
  qed
  then show ?thesis by (auto simp: hushed_def suppressed_in_def silent_about_def)
qed

text \<open>The sample collector reports its finding of target \<open>t\<close> and nothing of any other.\<close>

definition reporting :: "unit collector" where
  "reporting = (fe_collector (sample_fleet_env 1))\<lparr>co_collect := (\<lambda>_ tg. Inr (if t_canonical tg = ''t'' then [sample_f] else []))\<rparr>"

definition sql_fleet_env :: "(sqlite, unit) fleet_env" where
  "sql_fleet_env = \<lparr>fe_ops = sql_ops (\<lambda>_. None), fe_get = sql_Get (\<lambda>_. None), fe_new_id = (\<lambda>_ _. Some ''i''),
     fe_cfg = sched_withDefaults zero_cfg, fe_collector = reporting, fe_canceled = (\<lambda>_. False)\<rparr>"

definition suppressed_db :: sqlite where
  "suppressed_db = new_sqlite\<lparr>db_findings := [row_values ((new_record ''m'' 5 ''i'' sample_f)\<lparr>f_status := StatusSuppressed\<rparr>) None]\<rparr>"

theorem suppression_survives_interleaving_witness:
  "\<exists>w. fleet_run sql_fleet_env [AddTo ''t'', Sweep 7, Acquire 0, CollectNow 0 9, EngineStep 0, Acquire 1]
       (started_fleet suppressed_db []) = Some w \<and>
     map_option f_status (sql_Get (\<lambda>_. None) (ft_store w) ''m'' ''fp'') = Some StatusSuppressed"
proof -
  let ?w0 = "started_fleet suppressed_db [] :: (sqlite, unit) fleet"
  have env: "fe_ops sql_fleet_env = sql_ops (\<lambda>_. None)" "fe_get sql_fleet_env = sql_Get (\<lambda>_. None)"
    "mi_id (fe_info sql_fleet_env) = ''m''" "fe_collector sql_fleet_env = reporting"
    by (simp_all add: sql_fleet_env_def reporting_def sample_fleet_env_def)
  have workers: "sc_workers (fe_cfg sql_fleet_env) = 8"
    by (simp add: sql_fleet_env_def sched_withDefaults_def zero_cfg_def Let_def)
  have col: "co_validate reporting raw = Inr (plain_target raw)"
    "co_collect reporting now tg = Inr (if t_canonical tg = ''t'' then [sample_f] else [])" for raw now tg
    by (simp_all add: reporting_def sample_fleet_env_def plain_target_def)
  have eligible: "eligible empty_tracker 7 tg" for tg
    by (simp add: eligible_def next_ok_of_def empty_tracker_def)
  obtain w where run: "fleet_run sql_fleet_env [AddTo ''t'', Sweep 7, Acquire 0, CollectNow 0 9, EngineStep 0, Acquire 1] ?w0 = Some w"
    by (simp add: started_fleet_def env col workers free_slot_def amap_put_def plain_target_def eligible collect_step_def
      engine_step_def sql_ops_def sql_ListByTarget_def)
  have fresh: "\<forall>now tg fs. co_collect (fe_collector sql_fleet_env) now tg = Inr fs \<longrightarrow> t_canonical tg \<noteq> ''t'' \<longrightarrow>
      ''fp'' \<notin> f_fingerprint ` set fs" by (simp add: env col)
  obtain r where r: "sql_Get (\<lambda>_. None) suppressed_db ''m'' ''fp'' = Some r" "f_status r = StatusSuppressed" "f_target r = ''t''"
    by (simp add: suppressed_db_def sql_Get_def row_key_def row_values_def)
  have inv: "sql_inv suppressed_db" by (simp add: suppressed_db_def new_sqlite_def sql_inv_def)
  from suppression_survives_interleaving [OF env(1,2) run, of "''fp''" r "''t''"] fresh inv r run env(3)
  show ?thesis by (simp add: started_fleet_def leaves_status_def del: fleet_run.simps)
qed

section \<open>The write that is lost\<close>

text \<open>
  Nothing stops a scan from writing back what it read before the user acted. Here a scan of the
  finding's target lists its records, then the user suppresses the finding, and the engine's
  next write makes it open again: the request was answered with success and has no effect.
\<close>

definition racing_env :: "(mem_store, unit) fleet_env" where
  "racing_env = (sample_fleet_env 1)\<lparr>fe_collector := reporting\<rparr>"

definition status_after :: "label list \<Rightarrow> finding_status option" where
  "status_after ls = Option.bind (fleet_run racing_env ls (started_fleet (sample_store StatusOpen 0) []))
     (\<lambda>w. map_option f_status (mem_Get (ft_store w) ''m'' ''fp''))"

lemma suppression_lost:
  "status_after [AddTo ''t'', Acquire 0, CollectNow 0 9, EngineStep 0, UserGet ''fp'' StatusSuppressed, UserPut 0] =
     Some StatusSuppressed" (is ?written)
  "status_after [AddTo ''t'', Acquire 0, CollectNow 0 9, EngineStep 0, UserGet ''fp'' StatusSuppressed, UserPut 0,
     EngineStep 0] = Some StatusOpen" (is ?lost)
proof -
  have env: "fe_ops racing_env = mem_ops" "fe_get racing_env = mem_Get" "mi_id (co_describe reporting) = ''m''"
    "fe_collector racing_env = reporting" "sc_workers (fe_cfg racing_env) = 1"
    by (simp_all add: racing_env_def reporting_def sample_fleet_env_def sched_withDefaults_def zero_cfg_def)
  have col: "co_validate reporting raw = Inr (plain_target raw)"
    "co_collect reporting now tg = Inr (if t_canonical tg = ''t'' then [sample_f] else [])" for raw now tg
    by (simp_all add: reporting_def sample_fleet_env_def plain_target_def)
  note steps = status_after_def started_fleet_def env col free_slot_def amap_put_def plain_target_def collect_step_def
    engine_step_def in_engine_def mem_ops_def mem_ListByTarget_def sample_store_def mem_Upsert_def mem_Get_def
  show ?written by (simp add: steps)
  show ?lost by (simp add: steps ingest_step_def by_fingerprint_def scan_rstate_def new_scan_def scan_keep_def)
qed

text \<open>
  Two overlapping scans of one target, such as a sweep and the dashboard's scan button, both list
  the records before either writes, and both announce the same new finding.
\<close>

definition overlapping_env :: "(mem_store, unit) fleet_env" where
  "overlapping_env = (sample_fleet_env 2)\<lparr>fe_collector := reporting\<rparr>"

lemma overlap_announces_twice:
  "map_option (\<lambda>w. map (\<lambda>r. map f_fingerprint (rr_newly_open (sr_reconcile r))) (ft_results w))
     (fleet_run overlapping_env
        [Sweep 7, ScanAll, Acquire 0, Acquire 1, CollectNow 0 9, CollectNow 1 9, EngineStep 0, EngineStep 1,
         EngineStep 0, EngineStep 1, EngineStep 0, EngineStep 0, EngineStep 1, EngineStep 1, Finish 0 10, Finish 0 11]
        (started_fleet NewMemStore [(''t'', plain_target ''t'')])) =
   Some [[''fp''], [''fp'']]"
proof -
  have env: "fe_ops overlapping_env = mem_ops" "fe_collector overlapping_env = reporting"
    "sc_workers (fe_cfg overlapping_env) = 2" "fe_new_id overlapping_env now n = Some ''i''"
    "mi_id (co_describe reporting) = ''m''" for now n
    by (simp_all add: overlapping_env_def reporting_def sample_fleet_env_def sched_withDefaults_def zero_cfg_def)
  have col: "co_collect reporting now tg = Inr (if t_canonical tg = ''t'' then [sample_f] else [])" for now tg
    by (simp add: reporting_def sample_fleet_env_def)
  have eligible: "eligible empty_tracker 7 tg" for tg
    by (simp add: eligible_def next_ok_of_def empty_tracker_def)
  show ?thesis
    by (simp add: started_fleet_def env col eligible free_slot_def plain_target_def collect_step_def engine_step_def
      in_engine_def holds_slot_def mem_ops_def mem_ListByTarget_def NewMemStore_def mem_Upsert_def ingest_step_def
      by_fingerprint_def scan_rstate_def new_scan_def scan_keep_def empty_result_def finish_scan_def remove_nth_def
      track_result_def Let_def)
qed

end
