(* ===== verification/Go_Date.thy ===== *)
theory Go_Date
  imports GoTime
begin

text \<open>
  Calendar dates (\<open>time.Date\<close> and \<open>Time.AddDate\<close>): the inverse of \<open>civil\<close>, and that adding
  days on the calendar is adding days on the clock.
\<close>

section \<open>The day of a date\<close>

text \<open>Days before the first of March of a year, and of a month counted from March.\<close>

definition march_days :: "int \<Rightarrow> int" where
  "march_days y = 365 * y + y div 4 - y div 100 + y div 400"

definition month_days :: "int \<Rightarrow> int" where
  "month_days mp = (153 * mp + 2) div 5"

definition days_civil :: "int \<Rightarrow> int \<Rightarrow> int \<Rightarrow> int" where
  "days_civil y m d =
     march_days (if m \<le> 2 then y - 1 else y) + month_days (if m \<le> 2 then m + 9 else m - 3) + d - 1 - 306"

text \<open>\<open>AddDate\<close> takes the date apart, adds, and normalises the month; a day past its month runs on.\<close>

definition add_date :: "time \<Rightarrow> int \<Rightarrow> int \<Rightarrow> int \<Rightarrow> time" where
  "add_date t years months days =
     (let (y, m, d) = civil (t div day);
          n = 12 * (y + years) + (m - 1 + months)
      in (days_civil (n div 12) (n mod 12 + 1) 1 + (d - 1) + days) * day + t mod day)"

section \<open>The date of a day\<close>

definition year_of_era :: "int \<Rightarrow> int" where
  "year_of_era doe = (doe - doe div 1460 + doe div 36524 - doe div 146096) div 365"

definition day_of_year :: "int \<Rightarrow> int" where
  "day_of_year doe = doe - (365 * year_of_era doe + year_of_era doe div 4 - year_of_era doe div 100)"

text \<open>Within an era the year is one of 400 and the day one of 366.\<close>

lemma year_in_century:
  fixes doe c :: int
  assumes "0 \<le> c" "c \<le> 3" "36524 * c \<le> doe" "doe < 36524 * c + 36524"
  defines "Y \<equiv> (doe - doe div 1460 + c) div 365"
  shows "100 * c \<le> Y \<and> Y < 100 * c + 100 \<and> 0 \<le> doe - (365 * Y + Y div 4 - c) \<and> doe - (365 * Y + Y div 4 - c) \<le> 365"
proof -
  define a q s e where "a = doe div 1460" and "q = Y div 4" and "s = Y mod 4"
    and "e = (doe - a + c) mod 365"
  have a: "1460 * a \<le> doe" "doe < 1460 * a + 1460" by (simp_all add: a_def)
  have Y: "doe - a + c = 365 * Y + e" "0 \<le> e" "e < 365" by (simp_all add: Y_def e_def a_def)
  have q: "Y = 4 * q + s" "0 \<le> s" "s \<le> 3" by (simp_all add: q_def s_def)
  have c: "c = 0 \<or> c = 1 \<or> c = 2 \<or> c = 3" using assms(1,2) by arith
  have century: "100 * c \<le> Y \<and> Y < 100 * c + 100" using c a Y assms(3,4) by (elim disjE) linarith+
  then have "25 * c \<le> q" "q < 25 * c + 25" using q by linarith+
  then have "a \<le> q + 1" "q \<le> a + 1" "a = q - 1 \<longrightarrow> 1 \<le> e" using c a Y q assms(3,4) by linarith+
  then have "0 \<le> e + a - q" "e + a - q \<le> 365" using Y(2,3) by linarith+
  then show ?thesis using century Y(1) by (simp add: q_def)
qed

lemma year_of_era_bounds:
  assumes "0 \<le> doe" "doe < 146097"
  shows "0 \<le> year_of_era doe \<and> year_of_era doe < 400 \<and> 0 \<le> day_of_year doe \<and> day_of_year doe \<le> 365"
proof (cases "doe = 146096")
  case True
  then show ?thesis by (simp add: year_of_era_def day_of_year_def)
next
  case False
  define c where "c = doe div 36524"
  have c: "0 \<le> c" "c \<le> 3" "36524 * c \<le> doe" "doe < 36524 * c + 36524"
    using assms False by (simp_all add: c_def)
  have "doe div 146096 = 0" using assms False by simp
  then have y: "year_of_era doe = (doe - doe div 1460 + c) div 365" by (simp add: year_of_era_def c_def)
  note b = year_in_century [OF c, folded y]
  then have "year_of_era doe div 100 = c" by linarith
  then show ?thesis using b c(1,2) by (simp add: day_of_year_def)
qed

lemma march_days_era: "0 \<le> y \<Longrightarrow> y < 400 \<Longrightarrow> march_days (y + 400 * era) = 146097 * era + (365 * y + y div 4 - y div 100)"
proof -
  have "(y + 400 * era) div 4 = y div 4 + 100 * era" "(y + 400 * era) div 100 = y div 100 + 4 * era"
    using div_mult_self1 [of 4 y "100 * era"] div_mult_self1 [of 100 y "4 * era"] by simp_all
  moreover assume "0 \<le> y" "y < 400"
  ultimately show ?thesis by (simp add: march_days_def)
qed

text \<open>The date of a day, in years from March: the month index and the day are within bounds.\<close>

lemma civil_march:
  obtains y mp d where "0 \<le> mp" "mp \<le> 11" "days = march_days y + month_days mp + d - 1 - 306"
    "civil days = (y + (if mp < 10 then 0 else 1), if mp < 10 then mp + 3 else mp - 9, d)"
proof -
  define z era doe where "z = days + 306" and "era = z div 146097" and "doe = z mod 146097"
  have doe: "0 \<le> doe" "doe < 146097" by (simp_all add: doe_def)
  note b = year_of_era_bounds [OF doe]
  define yoe doy mp where "yoe = year_of_era doe" and "doy = day_of_year doe" and "mp = (5 * doy + 2) div 153"
  have "0 \<le> doy" "doy \<le> 365" using b by (simp_all add: doy_def)
  then have mp: "0 \<le> mp" "mp \<le> 11" using zdiv_mono1 [of "5 * doy + 2" 1827 153] by (simp_all add: mp_def)
  have "days = era * 146097 + doe - 306" by (simp add: era_def doe_def z_def)
  moreover have "march_days (yoe + 400 * era) = 146097 * era + (365 * yoe + yoe div 4 - yoe div 100)"
    using b by (intro march_days_era) (simp_all add: yoe_def)
  moreover have "doy = doe - (365 * yoe + yoe div 4 - yoe div 100)" by (simp add: doy_def yoe_def day_of_year_def)
  ultimately have days: "days = march_days (yoe + 400 * era) + month_days mp + (doy - month_days mp + 1) - 1 - 306"
    by linarith
  have "civil days = (let m = if mp < 10 then mp + 3 else mp - 9
      in (yoe + era * 400 + (if m \<le> 2 then 1 else 0), m, doy - month_days mp + 1))"
    by (simp only: civil_def Let_def z_def [symmetric] era_def [symmetric] doe_def [symmetric]
      year_of_era_def [symmetric] yoe_def [symmetric] day_of_year_def [symmetric, of doe, folded yoe_def]
      doy_def [symmetric] mp_def [symmetric] month_days_def)
  then have "civil days = (yoe + 400 * era + (if mp < 10 then 0 else 1), if mp < 10 then mp + 3 else mp - 9,
      doy - month_days mp + 1)"
    using mp by (cases "mp < 10") (simp_all add: Let_def)
  then show thesis using that mp days by blast
qed

lemma days_civil_civil:
  assumes "civil days = (y, m, d)"
  shows "days_civil y m d = days"
proof -
  obtain y' mp d' where mp: "0 \<le> mp" "mp \<le> 11" "days = march_days y' + month_days mp + d' - 1 - 306"
    "civil days = (y' + (if mp < 10 then 0 else 1), if mp < 10 then mp + 3 else mp - 9, d')"
    by (rule civil_march)
  then show ?thesis using assms by (cases "mp < 10") (auto simp: days_civil_def)
qed

lemma civil_month: "civil days = (y, m, d) \<Longrightarrow> 1 \<le> m \<and> m \<le> 12"
  using civil_march [of days] by (smt (verit) Pair_inject)

section \<open>Adding to a date\<close>

lemma add_date_days: "add_date t 0 0 n = add_days t n"
proof -
  obtain y m d where c: "civil (t div day) = (y, m, d)" by (cases "civil (t div day)") auto
  then have m: "1 \<le> m" "m \<le> 12" using civil_month by auto
  have "12 * (y + 0) + (m - 1 + 0) = (m - 1) + y * 12" by simp
  then have "(12 * (y + 0) + (m - 1 + 0)) div 12 = y" "(12 * (y + 0) + (m - 1 + 0)) mod 12 + 1 = m"
    using m by (simp_all only: div_mult_self1 mod_mult_self1) simp_all
  then have "add_date t 0 0 n = (days_civil y m 1 + (d - 1) + n) * day + t mod day"
    by (simp only: add_date_def c Let_def split)
  moreover have "days_civil y m 1 + (d - 1) = t div day"
    using days_civil_civil [OF c] by (simp add: days_civil_def)
  ultimately show ?thesis by (simp add: add_days_def distrib_right)
qed

text \<open>Seven months back is more than half a year back.\<close>

lemma march_days_year: "364 \<le> march_days y - march_days (y - 1)" "march_days y - march_days (y - 1) \<le> 367"
proof -
  have apart: "365 + (a - a') - (b - b') + (c - c') = 365 * y + a - b + c - (365 * (y - 1) + a' - b' + c')"
    for a b c a' b' c' :: int
    by (simp add: algebra_simps)
  have diff: "0 \<le> y div k - (y - 1) div k \<and> y div k - (y - 1) div k \<le> 1" if "0 < k" for k
  proof -
    have "(y - k) div k \<le> (y - 1) div k" using that by (intro zdiv_mono1) auto
    moreover have "(y - k) div k = y div k - 1" using div_mult_self1 [of k y "- 1"] that by simp
    ultimately show ?thesis using zdiv_mono1 [of "y - 1" y k] that by linarith
  qed
  have bound: "364 \<le> 365 + p - q + r \<and> 365 + p - q + r \<le> 367"
    if "0 \<le> p \<and> p \<le> 1" "0 \<le> q \<and> q \<le> 1" "0 \<le> r \<and> r \<le> 1" for p q r :: int
    using that by auto
  have "march_days y - march_days (y - 1) = 365 + (y div 4 - (y - 1) div 4) - (y div 100 - (y - 1) div 100) + (y div 400 - (y - 1) div 400)"
    unfolding march_days_def by (rule apart [symmetric])
  then show "364 \<le> march_days y - march_days (y - 1)" "march_days y - march_days (y - 1) \<le> 367"
    using bound [OF diff diff diff, of 4 100 400] by (simp_all only: zero_less_numeral simp_thms)
qed

lemma months_of: "(12 * y + k) div 12 = y + k div 12" "(12 * y + k) mod 12 = k mod 12" for y k :: int
  by simp_all

lemma seven_months_ago: "t - 217 * day \<le> add_date t 0 (- 7) 0" "add_date t 0 (- 7) 0 \<le> t - 211 * day"
proof -
  obtain y mp d where mp: "0 \<le> mp" "mp \<le> 11" "t div day = march_days y + month_days mp + d - 1 - 306"
    "civil (t div day) = (y + (if mp < 10 then 0 else 1), if mp < 10 then mp + 3 else mp - 9, d)"
    by (rule civil_march)
  define n where "n = days_civil (y + (mp - 5) div 12) ((mp - 5) mod 12 + 1) 1 + (d - 1)"
  have month: "12 * (y + (if mp < 10 then 0 else 1) + 0) + ((if mp < 10 then mp + 3 else mp - 9) - 1 + - 7) = 12 * y + (mp - 5)"
    by simp
  have "add_date t 0 (- 7) 0 =
      (days_civil (y + (mp - 5) div 12) ((mp - 5) mod 12 + 1) 1 + (d - 1) + 0) * day + t mod day"
    by (simp only: add_date_def mp(4) Let_def split month) (simp only: months_of)
  then have moved: "add_date t 0 (- 7) 0 = n * day + t mod day" by (simp add: n_def)
  have "mp = 0 \<or> mp = 1 \<or> mp = 2 \<or> mp = 3 \<or> mp = 4 \<or> mp = 5 \<or> mp = 6 \<or> mp = 7 \<or> mp = 8 \<or> mp = 9 \<or> mp = 10 \<or> mp = 11"
    using mp(1,2) by arith
  then have "t div day - 217 \<le> n \<and> n \<le> t div day - 211" using march_days_year [of y] mp(3)
    by (elim disjE) (simp_all add: n_def days_civil_def month_days_def)
  then have "(t div day - 217) * day \<le> n * day" "n * day \<le> (t div day - 211) * day"
    by (simp_all add: mult_right_mono time_consts)
  moreover have "(t div day - k) * day + t mod day = t - k * day" for k
    using div_mult_mod_eq [of t day] by (simp only: left_diff_distrib)
  ultimately show "t - 217 * day \<le> add_date t 0 (- 7) 0" "add_date t 0 (- 7) 0 \<le> t - 211 * day"
    unfolding moved by (metis add_right_mono)+
qed

end
