(* ===== verification/Demo.thy ===== *)
theory Demo
  imports Startup Go_Date
begin

text \<open>
  The demo program (\<open>cmd/demo/main.go\<close>): the canned tenant and the decisions of its \<open>main\<close>
  from the address of the narration to the running server. Flags, signals, the socket and the
  wait before the tenant is added are not modelled.
\<close>

section \<open>The canned tenant\<close>

definition ago :: "time \<Rightarrow> int \<Rightarrow> time" where
  "ago now h = now + - h * hour"

definition demo_user :: "string \<Rightarrow> string \<Rightarrow> string \<Rightarrow> bool \<Rightarrow> time \<Rightarrow> user" where
  "demo_user uid email name mfa active =
     \<lparr>u_id = uid, u_email = email, u_display = name, u_enabled = True, u_is_admin = False, u_admin_roles = [],
      u_mfa = mfa, u_last_active = active, u_ext_forward = False, u_forward_target = []\<rparr>"

definition demo_users :: "time \<Rightarrow> user list" where
  "demo_users now =
     [(demo_user ''1'' ''andi@contoso.example'' ''Andi'' False (ago now 2))
        \<lparr>u_is_admin := True, u_admin_roles := [''Global Administrator'']\<rparr>,
      demo_user ''2'' ''sari@contoso.example'' ''Sari'' True (ago now 5),
      demo_user ''3'' ''budi@contoso.example'' ''Budi'' True (ago now 30),
      demo_user ''4'' ''sales@contoso.example'' ''Sales (shared)'' False (ago now 1),
      demo_user ''5'' ''intern@contoso.example'' ''Intern 2024'' False (add_date now 0 (- 7) 0)]"

text \<open>A successful sign-in; what a literal of the code leaves out is empty.\<close>

definition demo_sign_in :: "string \<Rightarrow> time \<Rightarrow> string \<Rightarrow> string \<Rightarrow> string \<Rightarrow> sign_in" where
  "demo_sign_in email at country ip client =
     \<lparr>si_user = email, si_at = at, si_success = True, si_country = country, si_ip = ip, si_client = client,
      si_legacy = False, si_single_factor = False, si_suspicious = False, si_failure_code = []\<rparr>"

definition demo_mail_client :: "time \<Rightarrow> int \<Rightarrow> sign_in" where
  "demo_mail_client now i =
     (demo_sign_in ''sales@contoso.example'' (ago now (30 - i * 3)) ''VN'' ''203.0.113.9'' ''IMAP4'')\<lparr>si_legacy := True\<rparr>"

definition demo_admin :: "time \<Rightarrow> int \<Rightarrow> sign_in" where
  "demo_admin now h =
     (demo_sign_in ''andi@contoso.example'' (ago now h) ''ID'' ''198.51.100.4'' ''Browser'')\<lparr>si_single_factor := True\<rparr>"

definition demo_spray :: "time \<Rightarrow> int \<Rightarrow> sign_in" where
  "demo_spray now i =
     (demo_sign_in (''user'' @ itoa (i mod 7) @ ''@contoso.example'') (ago now 48 + i * 3 * minute) [] ''192.0.2.66'' ''Browser'')
       \<lparr>si_success := False, si_failure_code := ''50126''\<rparr>"

definition demo_sign_ins :: "time \<Rightarrow> sign_in list" where
  "demo_sign_ins now =
     map (demo_mail_client now) [0..8] @
     [demo_admin now 26, demo_admin now 2] @
     [demo_sign_in ''sari@contoso.example'' (ago now 9) ''ID'' ''198.51.100.77'' ''Browser'',
      demo_sign_in ''sari@contoso.example'' (ago now 9 + 38 * minute) ''SG'' ''203.0.113.212'' ''Browser''] @
     map (demo_spray now) [0..13] @
     [demo_sign_in ''budi@contoso.example'' (ago now 47) ''RU'' ''192.0.2.66'' ''Browser'']"

definition demo_assessed :: "string list" where
  "demo_assessed = [AreaMFA, AreaLegacyAuth, AreaOAuth, AreaAdminRoles, AreaSharing, AreaEmailAuth,
     AreaConditional, AreaInactiveUser, AreaSignIn]"

definition demo_state :: "time \<Rightarrow> tenant_state" where
  "demo_state now =
     \<lparr>ts_provider = ProviderM365, ts_domain = ''contoso.example'', ts_taken_at = now, ts_users = demo_users now,
      ts_grants = [\<lparr>g_app_id = ''a1'', g_app_name = ''PDF Converter Free'', g_scopes = [''Mail.Read'', ''Files.ReadWrite.All''],
        g_consent = ''AllPrincipals'', g_publisher = []\<rparr>],
      ts_domains = [\<lparr>d_domain = ''contoso.example'', d_spf = True, d_dkim = True, d_dmarc = ''none''\<rparr>],
      ts_sharing = \<lparr>sh_anyone = True, sh_external = True, sh_level = ''ExternalUserAndGuestSharing''\<rparr>,
      ts_sign_ins = demo_sign_ins now, ts_legacy_auth = True, ts_conditional = False,
      ts_assessed = (\<lambda>area. area \<in> set demo_assessed),
      ts_notes = [''external mailbox auto-forwarding needs Exchange mailbox read '' @ em_dash @ '' assess manually'']\<rparr>"

definition demo_source :: "time \<Rightarrow> 'e source" where
  "demo_source now = (\<lambda>_ _. Inr (demo_state now))"

section \<open>The demo's main program\<close>

definition demo_server ::
  "(mem_store, 'e tenant_error) server \<Rightarrow> ai_assist option \<Rightarrow> (mem_store, 'e tenant_error) server" where
  "demo_server sv ai = sv\<lparr>
     sv_module := Describe, sv_api := mem_api, sv_targets := None, sv_limits := Some product_TierLimits,
     sv_verify := None, sv_pub := [], sv_license_file := [], sv_ai := ai,
     sv_export_meta := \<lparr>hm_product = [], hm_version = [], hm_host = []\<rparr>\<rparr>"

text \<open>A panic also ends with exit code 2.\<close>

definition demo_addTenant ::
  "(mem_store, 'e tenant_error) server \<Rightarrow> (mem_store, 'e tenant_error) web \<Rightarrow> start_error + (mem_store, 'e tenant_error) web" where
  "demo_addTenant sv w = (case AddTarget ModuleID ''m365:contoso.example'' (wb_sched w) of
     Inl e \<Rightarrow> Inl (Fatal 2 (sched_error_text (sv_error_text sv) e))
   | Inr (sched, t, scans) \<Rightarrow> Inr (w\<lparr>wb_sched := sched, wb_launched := wb_launched w @ (if scans then [t] else [])\<rparr>))"

definition demo_main ::
  "(mem_store, 'e tenant_error) server \<Rightarrow> (string \<Rightarrow> (string \<times> string) option) \<Rightarrow> (string \<Rightarrow> string + string) \<Rightarrow>
     string \<Rightarrow> bool \<Rightarrow> time \<Rightarrow> start_error + (mem_store, 'e tenant_error) server \<times> (mem_store, 'e tenant_error) web" where
  "demo_main sv0 parse read url hold now =
     (case Register (tenant_collector (demo_source now)) (NewScheduler empty_config) of
        Inl e \<Rightarrow> Inl (Fatal 2 (sched_error_text (sv_error_text sv0) e))
      | Inr sched0 \<Rightarrow>
          (case NewAIAssist parse read \<lparr>ai_url = url, ai_key_file = [], ai_language = [], ai_no_thinking = False\<rparr> of
             Inl e \<Rightarrow> Inl (Fatal 2 e)
           | Inr ai \<Rightarrow> (case Start sched0 of
                Inl e \<Rightarrow> Inl (Fatal 2 (sched_error_text (sv_error_text sv0) e))
              | Inr (sched1, loops) \<Rightarrow>
                  (let sv = demo_server sv0 ai;
                       w = NewServer sv sched1 NewMemStore None now
                   in if hold then Inr (sv, w) else map_sum id (Pair sv) (demo_addTenant sv w)))))"

end
