(* ===== verification/Demo_Props.thy ===== *)
theory Demo_Props
  imports Demo Web_Props
begin

text \<open>
  What a visitor of the demo sees: the findings of the canned tenant, check by check, and what its
  first scan announces.
\<close>

section \<open>The findings of the canned tenant\<close>

definition headline :: "finding \<Rightarrow> string \<times> severity \<times> string" where
  "headline f = (f_check f, f_severity f, f_title f)"

lemma headline_collected [simp]: "headline (collected fp target check title sev rem ev) = (check, sev, title)"
  by (simp add: headline_def collected_def)

lemma demo_lower [simp]:
  "to_lower ''andi@contoso.example'' = ''andi@contoso.example''"
  "to_lower ''sari@contoso.example'' = ''sari@contoso.example''"
  "to_lower ''budi@contoso.example'' = ''budi@contoso.example''"
  "to_lower ''sales@contoso.example'' = ''sales@contoso.example''"
  by code_simp+

lemma demo_areas [simp]:
  "ts_assessed (demo_state now) AreaMFA" "ts_assessed (demo_state now) AreaLegacyAuth"
  "ts_assessed (demo_state now) AreaOAuth" "ts_assessed (demo_state now) AreaAdminRoles"
  "ts_assessed (demo_state now) AreaSharing" "ts_assessed (demo_state now) AreaEmailAuth"
  "ts_assessed (demo_state now) AreaConditional" "ts_assessed (demo_state now) AreaInactiveUser"
  "ts_assessed (demo_state now) AreaSignIn" "\<not> ts_assessed (demo_state now) AreaMailForward"
  by (simp_all add: demo_state_def demo_assessed_def area_defs)

lemma demo_fields [simp]:
  "ts_provider (demo_state now) = ProviderM365" "ts_domain (demo_state now) = ''contoso.example''"
  "ts_taken_at (demo_state now) = now" "ts_users (demo_state now) = demo_users now"
  "ts_sign_ins (demo_state now) = demo_sign_ins now" "ts_legacy_auth (demo_state now)"
  "\<not> ts_conditional (demo_state now)" "sh_anyone (ts_sharing (demo_state now))"
  "ts_grants (demo_state now) = [\<lparr>g_app_id = ''a1'', g_app_name = ''PDF Converter Free'',
     g_scopes = [''Mail.Read'', ''Files.ReadWrite.All''], g_consent = ''AllPrincipals'', g_publisher = []\<rparr>]"
  "ts_domains (demo_state now) = [\<lparr>d_domain = ''contoso.example'', d_spf = True, d_dkim = True, d_dmarc = ''none''\<rparr>]"
  by (simp_all add: demo_state_def)

lemma demo_config:
  "map headline (checkAdminMFA target (demo_state now)) =
     [(''tenant.admin-mfa'', SeverityHigh, ''Admin without MFA: andi@contoso.example (Global Administrator)'')]" (is ?admin_mfa)
  "map headline (checkUserMFA target (demo_state now)) =
     [(''tenant.user-mfa'', SeverityMedium, ''2 of 4 standard users have no MFA'')]" (is ?user_mfa)
  "map headline (checkLegacyAuth target (demo_state now)) =
     [(''tenant.legacy-auth'', SeverityHigh, ''Legacy authentication is still enabled'')]" (is ?legacy)
  "map headline (checkOAuth target (demo_state now)) =
     [(''tenant.risky-oauth'', SeverityHigh, ''Third-party app with broad access: PDF Converter Free (unverified publisher)'')]" (is ?oauth)
  "checkAdminSprawl target (demo_state now) = []" (is ?sprawl)
  "checkMailForward target (demo_state now) = []" (is ?forward)
  "map headline (checkSharing target (demo_state now)) =
     [(''tenant.external-sharing'', SeverityMedium, quote @ ''Anyone with the link'' @ quote @ '' file sharing is enabled'')]" (is ?sharing)
  "map headline (checkEmailAuth target (demo_state now)) =
     [(''tenant.email-auth'', SeverityMedium,
       ''Email spoofing risk on contoso.example: DMARC p=none (monitoring only '' @ em_dash @ '' spoofable)'')]" (is ?email)
  "map headline (checkConditionalAccess target (demo_state now)) =
     [(''tenant.no-conditional-access'', SeverityMedium, ''No enforced conditional-access policy'')]" (is ?access)
proof -
  have texts: "nat_str (Suc (Suc 0)) = ''2''" "nat_str (Suc (Suc (Suc (Suc 0)))) = ''4''" "riskyScopes [''Mail.Read'', ''Files.ReadWrite.All''] \<noteq> []"
    "equal_fold ''AllPrincipals'' ''AllPrincipals''"
    by code_simp+
  show ?admin_mfa
    by (simp add: checkAdminMFA_def demo_users_def demo_user_def admin_mfa_finding_def)
  show ?user_mfa
    by (simp add: checkUserMFA_def demo_users_def demo_user_def texts Let_def)
  show ?legacy
    by (simp add: checkLegacyAuth_def)
  show ?oauth
    by (simp add: checkOAuth_def oauth_finding_def appLabel_def texts Let_def)
  show ?sprawl
    by (simp add: checkAdminSprawl_def demo_users_def demo_user_def AdminSprawlThreshold_def)
  show ?forward by (simp add: checkMailForward_def)
  show ?sharing
    by (simp add: checkSharing_def Let_def)
  show ?email
    by (simp add: checkEmailAuth_def email_problems_def email_finding_def Let_def)
  show ?access
    by (simp add: checkConditionalAccess_def)
qed

lemma demo_inactive:
  assumes "unix_epoch \<le> now"
  shows "map headline (checkInactiveUsers target (demo_state now)) =
    [(''tenant.inactive-user'', SeverityLow, ''1 enabled account(s) unused for over 90 days'')]"
proof -
  have lits: "nat_str (Suc 0) = ''1''" "itoa 90 = ''90''" by code_simp+
  have "add_date now 0 (- 7) 0 < add_days now (- 90)" "\<not> is_zero (add_date now 0 (- 7) 0)"
    using seven_months_ago [of now] assms
    by (auto simp: add_days_def time_consts is_zero_def unix_epoch_def)
  then show ?thesis using assms lits
    by (simp add: checkInactiveUsers_def demo_users_def demo_user_def is_zero_def ago_def add_days_def InactiveDays_def
      time_consts unix_epoch_def Let_def)
qed

section \<open>Its sign-ins\<close>

abbreviation demo_mail :: "time \<Rightarrow> sign_in list" where
  "demo_mail now \<equiv> map (demo_mail_client now) [0..8]"

abbreviation demo_failures :: "time \<Rightarrow> sign_in list" where
  "demo_failures now \<equiv> map (demo_spray now) [0..13]"

lemmas demo_events = demo_mail_client_def demo_admin_def demo_spray_def demo_sign_in_def

lemma group_const:
  "\<forall>x \<in> set xs. key x = k \<Longrightarrow> m = pre @ (k, ys) # post \<Longrightarrow> k \<notin> fst ` set pre \<Longrightarrow>
     fold (group_step key) xs m = pre @ (k, ys @ xs) # post"
proof (induction xs arbitrary: m ys)
  case (Cons x xs)
  have "amap_upd k f (pre @ (k, ys) # post) = pre @ (k, f (Some ys)) # post" for f
    using Cons.prems(3) by (induction pre) auto
  then have "group_step key x m = pre @ (k, ys @ [x]) # post" using Cons.prems by (simp add: group_step_def)
  then show ?case using Cons.IH [of _ "ys @ [x]"] Cons.prems by simp
qed simp

lemma group_new:
  assumes "\<forall>x \<in> set xs. key x = k" "k \<notin> fst ` set m" "xs \<noteq> []"
  shows "fold (group_step key) xs m = m @ [(k, xs)]"
proof -
  obtain x ys where xs: "xs = x # ys" using assms(3) by (cases xs) auto
  have "amap_upd k f m = m @ [(k, f None)]" for f using assms(2) by (induction m) auto
  then have "group_step key x m = m @ [(k, [x])]" using assms(1) by (simp add: xs group_step_def)
  then show ?thesis using group_const [of ys key k "m @ [(k, [x])]" m "[x]" "[]"] assms by (simp add: xs)
qed

lemma demo_by_user:
  "by_user (demo_sign_ins now) =
     [(''sales@contoso.example'', demo_mail now), (''andi@contoso.example'', [demo_admin now 26, demo_admin now 2]),
      (''sari@contoso.example'',
        [demo_sign_in ''sari@contoso.example'' (ago now 9) ''ID'' ''198.51.100.77'' ''Browser'',
         demo_sign_in ''sari@contoso.example'' (ago now 9 + 38 * minute) ''SG'' ''203.0.113.212'' ''Browser'']),
      (''budi@contoso.example'', [demo_sign_in ''budi@contoso.example'' (ago now 47) ''RU'' ''192.0.2.66'' ''Browser''])]"
proof -
  have "fold (group_step (\<lambda>e. to_lower (si_user e))) (demo_mail now) [] = [] @ [(''sales@contoso.example'', demo_mail now)]"
    by (rule group_new) (simp_all add: demo_events del: to_lower_Cons)
  then show ?thesis
    by (simp add: by_user_def demo_sign_ins_def filter_map comp_def demo_events group_by_def fold_append group_step_def
      del: to_lower_Cons)
qed

lemma demo_by_ip:
  "by_ip (demo_sign_ins now) =
     [(''203.0.113.9'', demo_mail now), (''198.51.100.4'', [demo_admin now 26, demo_admin now 2]),
      (''198.51.100.77'', [demo_sign_in ''sari@contoso.example'' (ago now 9) ''ID'' ''198.51.100.77'' ''Browser'']),
      (''203.0.113.212'', [demo_sign_in ''sari@contoso.example'' (ago now 9 + 38 * minute) ''SG'' ''203.0.113.212'' ''Browser'']),
      (''192.0.2.66'', demo_failures now @ [demo_sign_in ''budi@contoso.example'' (ago now 47) ''RU'' ''192.0.2.66'' ''Browser''])]"
proof -
  have mail: "fold (group_step si_ip) (demo_mail now) [] = [] @ [(''203.0.113.9'', demo_mail now)]"
    by (rule group_new) (simp_all add: demo_events)
  have spray: "fold (group_step si_ip) (demo_failures now) m = m @ [(''192.0.2.66'', demo_failures now)]"
    if "''192.0.2.66'' \<notin> fst ` set m" for m
    by (rule group_new) (use that in \<open>simp_all add: demo_events\<close>)
  show ?thesis using mail
    by (simp add: by_ip_def demo_sign_ins_def filter_map comp_def demo_events group_by_def fold_append group_step_def
      spray)
qed

text \<open>Every group is in the order of time already.\<close>

lemma demo_mail_sorted: "sorted (map si_at (demo_mail now))"
  by (simp add: demo_events ago_def time_consts sorted_wrt_map upto.simps)

lemma demo_failures_sorted: "sorted (map si_at (demo_failures now))"
  by (simp add: demo_events ago_def time_consts upto.simps)

lemma legacy_skip: "\<forall>e \<in> set es. \<not> si_legacy e \<Longrightarrow> fold legacy_step es agg = agg"
  by (induction es) (auto simp: legacy_step_def)

lemma legacy_mail:
  "\<exists>l. fold legacy_step (map (demo_mail_client now) ks)
      [((''sales@contoso.example'', ''IMAP4''), \<lparr>la_count = n, la_last = l0, la_from = [''VN'']\<rparr>)] =
    [((''sales@contoso.example'', ''IMAP4''), \<lparr>la_count = n + length ks, la_last = l, la_from = [''VN'']\<rparr>)]"
proof (induction ks arbitrary: n l0)
  case (Cons k ks)
  show ?case using Cons.IH [of "Suc n"]
    by (simp add: legacy_step_def legacy_bump_def demo_events Let_def del: to_lower_Cons)
qed simp

lemma demo_legacy:
  "map headline (checkLegacyAuthSuccess target (demo_state now)) =
     [(''tenant.signin-legacy-auth'', SeverityCritical,
       ''Legacy authentication succeeded: sales@contoso.example via IMAP4 from VN (9 sign-ins in the last 7 days)'')]"
proof -
  have mail: "demo_mail now = demo_mail_client now 0 # map (demo_mail_client now) [1..8]" by (simp add: upto_rec1)
  obtain l0 where "legacy_step (demo_mail_client now 0) [] =
      [((''sales@contoso.example'', ''IMAP4''), \<lparr>la_count = Suc 0, la_last = l0, la_from = [''VN'']\<rparr>)]"
    by (simp add: legacy_step_def legacy_bump_def demo_events Let_def del: to_lower_Cons)
  moreover obtain l where "fold legacy_step (map (demo_mail_client now) [1..8])
      [((''sales@contoso.example'', ''IMAP4''), \<lparr>la_count = Suc 0, la_last = l0, la_from = [''VN'']\<rparr>)] =
    [((''sales@contoso.example'', ''IMAP4''), \<lparr>la_count = 9, la_last = l, la_from = [''VN'']\<rparr>)]"
    using legacy_mail [of now "[1..8]" "Suc 0" l0] by auto
  ultimately have "legacy_agg (demo_sign_ins now) =
      [((''sales@contoso.example'', ''IMAP4''), \<lparr>la_count = 9, la_last = l, la_from = [''VN'']\<rparr>)]"
    by (simp add: legacy_agg_def demo_sign_ins_def mail legacy_skip demo_admin_def demo_spray_def demo_sign_in_def
      legacy_step_def)
  moreover have "plural 9 ''sign-in'' = ''9 sign-ins''" "sortedKeys [''VN''] = [''VN'']" by code_simp+
  ultimately show ?thesis
    by (simp add: checkLegacyAuthSuccess_def sortFindings_def clientLabel_def Let_def)
qed

lemma one_factor_skip:
  "\<forall>e \<in> set es. \<not> si_single_factor e \<Longrightarrow> fold (one_factor_step admins) es seen = seen"
  by (induction es) (auto simp: one_factor_step_def)

lemma demo_one_factor:
  "map headline (checkAdminSingleFactor target (demo_state now)) =
     [(''tenant.signin-admin-1fa'', SeverityCritical,
       ''Admin signed in without MFA: andi@contoso.example (Global Administrator) '' @ em_dash @ '' 2 sign-ins in the last 7 days'')]"
proof -
  have admins: "admin_map (demo_users now) = [(''andi@contoso.example'', [''Global Administrator''])]"
    by (simp add: admin_map_def demo_users_def demo_user_def amap_put_def del: to_lower_Cons)
  have "fold (one_factor_step [(''andi@contoso.example'', [''Global Administrator''])]) (demo_mail now) [] = []"
    "fold (one_factor_step [(''andi@contoso.example'', [''Global Administrator''])]) (demo_failures now) seen = seen" for seen
    by (simp_all add: one_factor_skip demo_events)
  then obtain l where "fold (one_factor_step [(''andi@contoso.example'', [''Global Administrator''])]) (demo_sign_ins now) [] =
      [(''andi@contoso.example'', (2, l))]"
    by (simp add: demo_sign_ins_def one_factor_step_def one_factor_bump_def demo_admin_def demo_sign_in_def Let_def
      del: to_lower_Cons)
  moreover have "plural 2 ''sign-in'' = ''2 sign-ins''" by code_simp
  ultimately show ?thesis
    by (simp add: checkAdminSingleFactor_def sortFindings_def admins Let_def)
qed

text \<open>Events in one country never hop, and without a failure there is no burst.\<close>

lemma hop_same: "\<forall>e \<in> set es. si_country e = c \<Longrightarrow> prev = None \<or> (\<exists>l. prev = Some l \<and> si_country l = c) \<Longrightarrow> hop_scan prev es = None"
  by (induction es arbitrary: prev) (auto simp: equal_fold_def)

lemma spray_none: "\<forall>e \<in> set es. si_success e \<Longrightarrow> spray_scan all es = None"
  by (induction es) auto

lemma find_after: "List.find P xs = None \<Longrightarrow> List.find P (xs @ ys) = List.find P ys"
  by (induction xs) auto

lemma sorted_events: "sorted (map si_at es) \<Longrightarrow> sort_key si_at es = es"
  by (rule sort_key_id_if_sorted)

lemma demo_hop:
  "map headline (checkCountryHop target (demo_state now)) =
     [(''tenant.signin-country-hop'', SeverityHigh, ''Sign-ins from ID and SG within 38 minutes: sari@contoso.example'')]"
proof -
  have quiet: "hop_user target s (usr, es) = []"
    if "sorted (map si_at es)" "\<forall>e \<in> set es. si_country e = c" "c \<noteq> []" for s usr es c
  proof -
    have "hop_scan None es = None" "List.find (\<lambda>e. si_country e = [] \<and> si_suspicious e) es = None"
      using hop_same [of es c None] that by (auto simp: find_None_iff)
    then show ?thesis using that(1) by (simp add: sorted_events)
  qed
  let ?a = "demo_sign_in ''sari@contoso.example'' (ago now 9) ''ID'' ''198.51.100.77'' ''Browser''"
  let ?b = "demo_sign_in ''sari@contoso.example'' (ago now 9 + 38 * minute) ''SG'' ''203.0.113.212'' ''Browser''"
  have gap: "time_sub (si_at ?b) (si_at ?a) = 38 * minute" by (simp add: time_sub_def demo_sign_in_def time_consts)
  have "\<not> equal_fold ''ID'' ''SG''" "humanGap (38 * minute) = ''38 minutes''" by code_simp+
  moreover have "38 * minute < TravelWindow" by code_simp
  ultimately have "hop_scan None [?a, ?b] = Some (?a, ?b, 38 * minute)" "humanGap (38 * minute) = ''38 minutes''"
    using gap by (simp_all add: demo_sign_in_def)
  moreover have "sorted (map si_at [?a, ?b])" by (simp add: demo_sign_in_def time_consts)
  ultimately have "hop_user target (demo_state now) (''sari@contoso.example'', [?a, ?b]) =
      [countryHopFinding target (demo_state now) ''sari@contoso.example'' ?a ?b (38 * minute)]"
    and "humanGap (38 * minute) = ''38 minutes''"
    by (simp_all add: sorted_events demo_sign_in_def)
  moreover have "hop_user target (demo_state now) (''sales@contoso.example'', demo_mail now) = []"
    by (rule quiet [of _ "''VN''"]) (use demo_mail_sorted [of now] in \<open>simp_all add: demo_events\<close>)
  moreover have "hop_user target (demo_state now) (''andi@contoso.example'', [demo_admin now 26, demo_admin now 2]) = []"
    by (rule quiet [of _ "''ID''"]) (simp_all add: demo_events ago_def time_consts)
  moreover have "hop_user target (demo_state now) (''budi@contoso.example'',
      [demo_sign_in ''budi@contoso.example'' (ago now 47) ''RU'' ''192.0.2.66'' ''Browser'']) = []"
    by (rule quiet [of _ "''RU''"]) (simp_all add: demo_events)
  ultimately show ?thesis
    by (simp add: checkCountryHop_def demo_by_user sortFindings_def countryHopFinding_def demo_sign_in_def
      del: hop_user.simps)
qed

lemma demo_spray_landed:
  "map headline (checkSprayLanded target (demo_state now)) =
     [(''tenant.signin-spray'', SeverityCritical,
       ''Password spray succeeded from 192.0.2.66: 14 failures across 7 accounts, then budi@contoso.example signed in'')]"
proof -
  let ?fell = "demo_sign_in ''budi@contoso.example'' (ago now 47) ''RU'' ''192.0.2.66'' ''Browser''"
  let ?all = "demo_failures now @ [?fell]"
  have quiet: "spray_ip target s (ip, es) = []" if "\<forall>e \<in> set es. si_success e" "sorted (map si_at es)" for s ip es
    using that by (simp add: sorted_events spray_none)
  have start: "?all = demo_spray now 0 # map (demo_spray now) [1..13] @ [?fell]" by (simp add: upto_rec1)
  have near: "\<not> si_at e > si_at (demo_spray now 0) + SprayWindow" if "e \<in> set ?all" for e
    using that by (auto simp: demo_events ago_def SprayWindow_def time_consts)
  have failed: "\<not> si_success (demo_spray now i)" for i by (simp add: demo_spray_def)
  have "spray_burst (demo_spray now 0) (map (demo_spray now) [1..13] @ [?fell]) =
      filter (\<lambda>x. \<not> si_success x) (takeWhile (\<lambda>x. \<not> si_at x > si_at (demo_spray now 0) + SprayWindow) ?all)"
    by (simp only: spray_burst_def start)
  also have "takeWhile (\<lambda>x. \<not> si_at x > si_at (demo_spray now 0) + SprayWindow) ?all = ?all"
    unfolding takeWhile_eq_all_conv using near by blast
  also have "filter (\<lambda>x. \<not> si_success x) ?all = demo_failures now"
    by (simp add: failed demo_sign_in_def filter_empty_conv)
  finally have burst: "spray_burst (demo_spray now 0) (map (demo_spray now) [1..13] @ [?fell]) = demo_failures now" .
  have seven: "length (spray_accounts (demo_failures now)) = 7"
  proof -
    have "length (remdups (map (\<lambda>i. to_lower (''user'' @ itoa (i mod 7) @ ''@contoso.example'')) [0..13])) = 7" by code_simp
    then show ?thesis by (simp add: spray_accounts_def demo_events comp_def)
  qed
  have "List.find (\<lambda>x. si_success x \<and> \<not> si_at x < si_at (demo_spray now 0)) (demo_failures now) = None"
    by (simp add: find_None_iff failed)
  then have landed: "List.find (\<lambda>x. si_success x \<and> \<not> si_at x < si_at (demo_spray now 0)) ?all = Some ?fell"
    by (simp add: find_after demo_events ago_def time_consts)
  have scan: "spray_scan ?all ?all = Some (14, 7, ?fell)"
    unfolding start using landed by (simp add: failed burst seven start SprayMinFailures_def SprayMinAccounts_def Let_def)
  have "sorted (map si_at ?all)"
    using demo_failures_sorted [of now] by (auto simp: sorted_append demo_events ago_def time_consts)
  then have "spray_ip target (demo_state now) (''192.0.2.66'', ?all) =
      [spray_finding target (demo_state now) ''192.0.2.66'' 14 7 ?fell]"
    using scan by (simp add: sorted_events)
  moreover have "spray_ip target (demo_state now) (ip, demo_mail now) = []" for ip
    by (rule quiet) (use demo_mail_sorted [of now] in \<open>simp_all add: demo_events\<close>)
  moreover have "spray_ip target (demo_state now) (ip, [demo_admin now 26, demo_admin now 2]) = []" for ip
    by (rule quiet) (simp_all add: demo_events ago_def time_consts)
  moreover have "spray_ip target (demo_state now) (ip, [demo_sign_in usr at c ip' client]) = []" for ip usr at c ip' client
    by (rule quiet) (simp_all add: demo_sign_in_def)
  moreover have "nat_str 14 = ''14''" "nat_str 7 = ''7''" by code_simp+
  ultimately show ?thesis
    by (simp add: checkSprayLanded_def demo_by_ip sortFindings_def spray_finding_def demo_sign_in_def
      del: spray_ip.simps)
qed

definition demo_headlines :: "(string \<times> severity \<times> string) list" where
  "demo_headlines =
    [(''tenant.admin-mfa'', SeverityHigh, ''Admin without MFA: andi@contoso.example (Global Administrator)''),
     (''tenant.user-mfa'', SeverityMedium, ''2 of 4 standard users have no MFA''),
     (''tenant.legacy-auth'', SeverityHigh, ''Legacy authentication is still enabled''),
     (''tenant.risky-oauth'', SeverityHigh, ''Third-party app with broad access: PDF Converter Free (unverified publisher)''),
     (''tenant.external-sharing'', SeverityMedium, quote @ ''Anyone with the link'' @ quote @ '' file sharing is enabled''),
     (''tenant.email-auth'', SeverityMedium,
       ''Email spoofing risk on contoso.example: DMARC p=none (monitoring only '' @ em_dash @ '' spoofable)''),
     (''tenant.no-conditional-access'', SeverityMedium, ''No enforced conditional-access policy''),
     (''tenant.inactive-user'', SeverityLow, ''1 enabled account(s) unused for over 90 days''),
     (''tenant.signin-legacy-auth'', SeverityCritical,
       ''Legacy authentication succeeded: sales@contoso.example via IMAP4 from VN (9 sign-ins in the last 7 days)''),
     (''tenant.signin-admin-1fa'', SeverityCritical,
       ''Admin signed in without MFA: andi@contoso.example (Global Administrator) '' @ em_dash @ '' 2 sign-ins in the last 7 days''),
     (''tenant.signin-country-hop'', SeverityHigh, ''Sign-ins from ID and SG within 38 minutes: sari@contoso.example''),
     (''tenant.signin-spray'', SeverityCritical,
       ''Password spray succeeded from 192.0.2.66: 14 failures across 7 accounts, then budi@contoso.example signed in''),
     (''tenant.manual-review'', SeverityInfo,
       ''Manual review: external mailbox auto-forwarding needs Exchange mailbox read '' @ em_dash @ '' assess manually'')]"

lemma demo_evaluated:
  assumes "unix_epoch \<le> now"
  shows "map headline (Evaluate (demo_state now)) = demo_headlines"
proof -
  have "map headline (notesToFindings target (demo_state now)) =
      [(''tenant.manual-review'', SeverityInfo,
        ''Manual review: external mailbox auto-forwarding needs Exchange mailbox read '' @ em_dash @ '' assess manually'')]" for target
    by (simp add: notesToFindings_def note_finding_def demo_state_def)
  then show ?thesis
    by (simp add: demo_headlines_def Evaluate_def Let_def checkSignIns_def demo_config demo_inactive [OF assms] demo_legacy demo_one_factor
      demo_hop demo_spray_landed)
qed


section \<open>The first scan of the demo\<close>

text \<open>Into a store that does not know them, valid findings go as new ones, in their order.\<close>

lemma headline_new [simp]: "headline (to_finding (new_record mid now i (capEvidence f))) = headline f"
  by (simp add: headline_def new_record_def capEvidence_def split: option.split)

lemma ingest_all_new:
  assumes "\<forall>f \<in> set fs. ValidateForIngest f = None" "\<forall>n. newID now n \<noteq> None"
  shows "\<exists>st'. ingest_loop mem_ops newID now mid (\<lambda>_. None) fs st = (st', None) \<and>
    map headline (rr_newly_open (rs_res st')) = map headline (rr_newly_open (rs_res st)) @ map headline fs \<and>
    rr_rejected (rs_res st') = rr_rejected (rs_res st) \<and> rr_resolved (rs_res st') = rr_resolved (rs_res st)"
  using assms(1)
proof (induction fs arbitrary: st)
  case (Cons f fs)
  obtain i where i: "newID now (rs_ids st) = Some i" using assms(2) by blast
  then show ?case using Cons.prems
      Cons.IH [of "fst (ingest_step mem_ops newID now mid (\<lambda>_. None) f st)"]
    by (auto simp: ingest_step_def mem_ops_def mem_Upsert_def Let_def)
qed simp

lemma Reconcile_fresh:
  assumes "\<forall>f \<in> set fs. ValidateForIngest f = None" "\<forall>n. newID now n \<noteq> None"
  shows "\<exists>s res. Reconcile mem_ops newID now mi t fs NewMemStore = (s, res, None) \<and>
    map headline (rr_newly_open res) = map headline fs \<and> rr_rejected res = [] \<and> rr_resolved res = []"
proof -
  have none: "by_fingerprint [] = (\<lambda>_. None)" by (simp add: by_fingerprint_def fun_eq_iff)
  have listed: "op_list_by_target mem_ops NewMemStore m c = Inr []" for m c
    by (simp add: mem_ops_def mem_ListByTarget_def NewMemStore_def)
  show ?thesis
    using ingest_all_new [where newID = newID and now = now, OF assms, of "mi_id mi" "\<lparr>rs_store = NewMemStore, rs_seen = [], rs_res = empty_result, rs_ids = 0\<rparr>"]
    by (auto simp: Reconcile_def none listed empty_result_def Let_def)
qed

definition demo_target :: target where
  "demo_target = \<lparr>t_raw = ''m365:contoso.example'', t_canonical = ''m365:contoso.example'',
     t_meta = [(''provider'', ''m365''), (''domain'', ''contoso.example'')]\<rparr>"

lemma demo_validated: "ValidateTarget ''m365:contoso.example'' = Inr demo_target"
proof -
  have "trim_space ''m365:contoso.example'' = ''m365:contoso.example''"
    "SplitCanonical (to_lower ''m365:contoso.example'') = Some (''m365'', ''contoso.example'')"
    "contains ''contoso.example'' ''.''" "Canonical ''m365'' ''contoso.example'' = ''m365:contoso.example''"
    by code_simp+
  then show ?thesis by (simp add: ValidateTarget_def ProviderM365_def demo_target_def Let_def del: to_lower_Cons)
qed

text \<open>
  C36. The demo shows what it promises, whenever and with whatever narration it is started: adding
  the canned tenant launches one scan, and that scan announces exactly these thirteen findings
  in this order, with three critical ones, rejects none and resolves none.
\<close>

theorem demo_first_scan:
  fixes sv0 :: "(mem_store, 'e tenant_error) server"
  assumes "unix_epoch \<le> now" "demo_main sv0 parse read url False now = Inr (sv, w)"
    and "\<forall>t n. sv_new_id sv0 t n \<noteq> None"
  shows "\<exists>t reg s res. wb_launched w = [t] \<and> ListTargets ModuleID (wb_sched w) = [t] \<and>
    map_of (sd_modules (wb_sched w)) (module_id sv) = Some reg \<and>
    scanOne (engine_ops (sv_api sv)) (sv_new_id sv) at reg t (wb_store w) = (s, Inr res) \<and>
    map headline (rr_newly_open (sr_reconcile res)) = demo_headlines \<and>
    rr_rejected (sr_reconcile res) = [] \<and> rr_resolved (sr_reconcile res) = []"
proof -
  let ?src = "demo_source now :: 'e source"
  let ?col = "tenant_collector ?src"
  let ?reg = "\<lparr>rg_collector = ?col, rg_info = Describe, rg_targets = [(''m365:contoso.example'', demo_target)]\<rparr>"
  have col: "co_describe ?col = Describe" "co_validate ?col ''m365:contoso.example'' = Inr demo_target"
    "t_canonical demo_target = ''m365:contoso.example''"
    by (simp_all add: tenant_collector_def demo_validated, simp add: demo_target_def)
  obtain ai where sv: "sv = demo_server sv0 ai" and w: "wb_launched w = [demo_target]" "wb_store w = NewMemStore"
    "sd_modules (wb_sched w) = [(ModuleID, ?reg)]"
    using assms(2)
    by (auto simp: demo_main_def Register_def Start_def demo_addTenant_def AddTarget_def NewServer_def NewScheduler_def
        Let_def col Describe_def ModuleID_def amap_put_def split: sum.splits)
  have sv': "engine_ops (sv_api sv) = mem_ops" "sv_new_id sv = sv_new_id sv0" "module_id sv = ModuleID"
    by (simp_all add: sv demo_server_def Describe_def engine_ops_def mem_api_def mem_ops_def)
  have "complete_state ''m365'' ''contoso.example'' at (demo_state now) = demo_state now"
    using assms(1) by (simp add: complete_state_def ProviderM365_def is_zero_def unix_epoch_def time_consts)
  moreover have "?src ''m365'' ''contoso.example'' = Inr (demo_state now)" by (simp add: demo_source_def)
  ultimately have "Collect ?src at demo_target = Inr (Evaluate (demo_state now))"
    using Collect_canonical [of "''m365''" "''contoso.example''" demo_target ?src at] col(3)
    by (simp add: ProviderM365_def)
  then have collected: "co_collect ?col at demo_target = Inr (Evaluate (demo_state now))"
    by (simp add: tenant_collector_def)
  have "\<forall>f \<in> set (Evaluate (demo_state now)). ValidateForIngest f = None"
    using Evaluate_emitted emitted_ingest by fastforce
  then obtain s res where "Reconcile mem_ops (sv_new_id sv0) at Describe (t_canonical demo_target)
        (Evaluate (demo_state now)) NewMemStore = (s, res, None)"
    "map headline (rr_newly_open res) = demo_headlines" "rr_rejected res = []" "rr_resolved res = []"
    using Reconcile_fresh [of "Evaluate (demo_state now)" "sv_new_id sv0" at Describe "t_canonical demo_target"] assms(3)
      demo_evaluated [OF assms(1)] by auto
  then show ?thesis using w sv' collected
    by (intro exI [of _ demo_target] exI [of _ ?reg] exI [of _ s]
        exI [of _ "\<lparr>sr_module = ModuleID, sr_target = demo_target, sr_reconcile = res\<rparr>"])
      (simp add: scanOne_def ListTargets_def snapshotTargets_def Describe_def)
qed

theorem demo_first_scan_witness:
  "\<exists>sv w t (reg :: unit tenant_error registration) s res. demo_main (sample_server [] None) (\<lambda>_. None) Inl [] False unix_epoch = Inr (sv, w) \<and>
     scanOne (engine_ops (sv_api sv)) (sv_new_id sv) (unix_epoch + hour) reg t (wb_store w) = (s, Inr res) \<and>
     map headline (rr_newly_open (sr_reconcile res)) = demo_headlines"
proof -
  obtain sv w where main: "demo_main (sample_server [] None) (\<lambda>_. None) Inl [] False unix_epoch = Inr (sv, w)"
    by (simp add: demo_main_def Register_def Start_def demo_addTenant_def AddTarget_def NewServer_def NewScheduler_def
        Let_def tenant_collector_def demo_validated Describe_def ModuleID_def amap_put_def NewAIAssist_def trim_space_def)
  have "\<forall>t n. sv_new_id (sample_server [] None) t n \<noteq> None" by (simp add: sample_server_def sample_ids_def)
  from demo_first_scan [OF order_refl main this, of "unix_epoch + hour"] obtain t and reg :: "unit tenant_error registration" and s res where
    "scanOne (engine_ops (sv_api sv)) (sv_new_id sv) (unix_epoch + hour) reg t (wb_store w) = (s, Inr res)"
    "map headline (rr_newly_open (sr_reconcile res)) = demo_headlines" by blast
  then show ?thesis using main by blast
qed

end
