(* ===== verification/Spec2Isabelle.thy ===== *)
theory Spec2Isabelle
  imports SignIn_Props Engine_Props License_Props Live_Props Channels_Props Channel_Flags Notify_Props
    Sqlite_Specs Sqlite_Verify Ulid Ai_Evidence_Props Sched_Races Demo_Props
begin

text \<open>
  TenantWatch: a Go program that polls Microsoft 365 and Google Workspace tenants, judges a
  posture snapshot with pure checks, reconciles the findings with what it stored, notifies
  people of what changed, and shows the findings in a dashboard. This development models the
  program from the requests to the providers down to the bytes of a message, and proves what
  makes it correct.

  How the parts interact. A provider (\<open>graph/\<close>, \<open>gws/\<close>) behind the credentials and tokens of
  \<open>tenantwatch/source.go\<close> returns a snapshot (\<open>tenant/state.go\<close>), with the DNS records of
  \<open>dnsauth/dnsauth.go\<close>; the collector (\<open>tenant/collector.go\<close>) hands it to the checks
  (\<open>tenant/checks.go\<close>, \<open>tenant/signin.go\<close>), which return findings; the scheduler
  (\<open>sched/scheduler.go\<close>) feeds them to the reconcile engine (\<open>store/reconcile.go\<close>), which owns
  status, ids (\<open>store/ulid.go\<close>) and times and keeps records in a store (\<open>store/sqlite.go\<close>,
  \<open>store/memory.go\<close>); what a scan opened or resolved goes to the dispatcher
  (\<open>notify/notify.go\<close>), which batches it into digests for the channels
  (\<open>notify/channels.go\<close>, \<open>notify/format.go\<close>). The dashboard (\<open>web/server.go\<close>) reads and
  changes the same store and scheduler within the limits of the edition
  (\<open>license/license.go\<close>, \<open>tenantwatch/tiers.go\<close>), and has findings narrated
  (\<open>web/ai.go\<close>, \<open>internal/aiclient/\<close>). \<open>cmd/tenantwatch\<close> puts it together, \<open>cmd/demo\<close> does
  so around a canned tenant.

  Theories, in the order of that pipeline. Strings are byte strings, instants and durations
  integers in nanoseconds, Go maps insertion-ordered association lists with distinct keys.
  \<^item> Go's library as far as it is used: \<open>Prelude\<close> (strings, maps, sorting), \<open>GoTime\<close>, \<open>Go_Date\<close>
    (the calendar), \<open>Go_Wire\<close>, \<open>Runes\<close>, \<open>Sha256\<close>, \<open>Base64\<close>, \<open>Http\<close>; JSON in \<open>Json\<close> and
    \<open>Json_Marshal\<close> (writing), \<open>Json_Parse\<close> (reading), \<open>Json_Roundtrip\<close>.
  \<^item> \<open>Finding\<close>: findings, their ingest contract and fingerprint, modules and targets.
  \<^item> \<open>Provider_IO\<close>, \<open>Graph\<close>, \<open>Gws\<close>, \<open>Live_Source\<close>: requests, paging, tokens, and the decoding
    of every response, as actions on a scripted outside world. \<open>Provider_Props\<close> and
    \<open>Live_Props\<close>: where requests go and how many, what a blind spot leaves, and that the live
    source keeps the contract \<open>posture_source\<close>. \<open>Dnsauth\<close>, \<open>Domain_Verify\<close>: email
    authentication and ownership challenges.
  \<^item> \<open>Tenant_State\<close>, \<open>Tenant_Checks\<close>, \<open>Tenant_SignIn\<close>, \<open>Tenant_Engine\<close>, \<open>Collector\<close>: the
    snapshot, every check, \<open>Evaluate\<close> and one collection. \<open>SignIn_Spec\<close> states the detections
    as conditions on the log and relates the loops to them; \<open>SignIn_Props\<close> and \<open>Engine_Props\<close>
    count, for every check, the findings a snapshot raises.
  \<^item> \<open>Store\<close>: records, the contract \<open>record_store\<close>, and the in-memory store under it.
    \<open>Reconcile\<close>: the engine over any store, and its effect proved once from the contract.
    \<open>Lifecycle\<close>: the abstract life cycle of a fingerprint and the refinement;
    \<open>Reconcile_Props\<close>: what a scan announces, resolves, refreshes and rejects.
  \<^item> \<open>Sqlite_Store\<close>: the tables as lists of rows with their unique constraints. Evidence changes
    on its way through the database, so \<open>Evidence_Sim\<close> shows that the engine never looks into
    it, and \<open>Sqlite_Props\<close> that the database keeps the contract apart from it; \<open>Sqlite_Specs\<close>:
    the life cycle, pruning, evidence and saved targets over the database. \<open>Sqlite_Verify\<close>:
    both challenge stores under one contract. \<open>Ulid\<close>: the ids.
  \<^item> \<open>Sched\<close>, \<open>Sched_Props\<close>: registration, targets, the failure backoff, one scan as one step.
    \<open>Sched_Fleet\<close>: the goroutines of the loop and of the scans, interleaved at every call of the
    store, with worker slots, cancellation and the two halves of a status change.
    \<open>Sched_Fleet_Props\<close>: the slots bound the scans, stopping terminates, and a scan alone is the
    scan of \<open>Sched\<close>. \<open>Sched_Races\<close>: which scans can and which cannot undo what the user set.
  \<^item> \<open>Notify\<close>, \<open>Notify_Props\<close>: the dispatcher as atomic steps, its invariant, delivery over any
    sequence of steps, retries. \<open>Channels\<close>, \<open>Channels_Props\<close>: rendering and the channels.
  \<^item> \<open>License\<close>, \<open>License_Props\<close>: keys, activation and the tier table.
  \<^item> \<open>Ai_Evidence\<close>, \<open>Ai_Guard\<close>, \<open>Ai_Client\<close> and their properties \<open>Ai_Evidence_Props\<close>,
    \<open>Ai_Client_Props\<close>: what leaves for the narration, what of its answer is let through, retries.
  \<^item> \<open>Web_Server\<close>, \<open>Web_Ai\<close>, \<open>Web_Handler\<close>: every handler from a request and a state to a
    response and a state, the routes, and the running server as a step relation. \<open>Web_Props\<close>:
    the limits and editions over all reachable states, the license across a restart.
    \<open>Web_Findings\<close>: what a request does to a finding, over both stores by one contract.
  \<^item> \<open>Channel_Flags\<close>, \<open>Startup\<close>, \<open>Startup_Props\<close>: from the flags to the running server, the
    configured channels, and a restart over the database of any run. \<open>Demo\<close>, \<open>Demo_Props\<close>: the
    canned tenant through collector, checks and engine.
  \<^item> This theory: from a scan to the digests.

  Bounds and termination. Loops over lists and counters are structural recursion; the retry
  loops have a measure. The JSON reader takes fuel, one unit for each value or delimiter: twice
  the length of the text plus two, which \<open>Json_Roundtrip\<close> shows to be enough for what the
  writer produces. Paging stops at the code's limit of ten pages. Counters are integers; the
  backoff wraps at 64 bits as the code does, and ids are computed on 64-bit words.

  Assumptions in the model. Case mapping and blanks are ASCII, dates are in UTC where the code
  says so and in a zone that is an argument elsewhere. \<open>sort.Slice\<close> leaves the order of equal
  keys open, here it is stable; where the iteration order of a Go map reaches a result, the
  order is an argument. Of the errors of a database only the violated constraint is modelled,
  and the conflict clause is tried first. Reading a float is an argument. Locks make a method
  atomic; a request of the dashboard is atomic in \<open>Web_Handler\<close> and its client waits for the
  answer, while \<open>Sched_Fleet\<close> splits the status change. A sweep reads its targets and their
  backoff in one step. Values outside the sources (resolver, HTTP, files, random bytes, clock,
  signatures, the event library) are arguments.

  Not modelled: the dashboard's static files and the refusals of the mux, the routes other
  products add, parsing the flags and setting up the process (signals, the socket, opening the
  database), the library calls that make a key pair or parse an RSA key, the size of the jitter
  and the fields of the interfaces for other products of the line (\<open>internal/aiclient/types.go\<close>).
\<close>

section \<open>From a scan to the digests\<close>

lemma enqueue_all_run:
  "enqueue_all now es d = dispatch_run (map (\<lambda>e. (now, Enq e)) es) d"
  by (induction es arbitrary: d) (simp_all split: prod.splits)

lemma accepted_events:
  "accepted cfg (map (\<lambda>e. (now, Enq e)) es) =
     {e \<in> set es. ev_kind e = KindOpened \<longrightarrow> passesSeverity cfg (f_severity (ev_finding e))}"
  by (auto simp: accepted_def)

lemma result_event_ids:
  "event_id ` set (result_events m newly resolved) =
     (\<lambda>f. (KindOpened, m, f_fingerprint f)) ` set newly \<union> (\<lambda>f. (KindResolved, m, f_fingerprint f)) ` set resolved"
  by (simp add: result_events_def image_Un image_image event_id_def)

text \<open>
  C9. Wired to the dispatcher as \<open>BindScheduler\<close> wires it, a successful scan announces
  exactly what its reconcile changed: after the dispatcher is closed the digests carry an
  opened entry for precisely the newly open findings, a resolved entry for precisely the
  resolved ones, under the module of the scan. No severity filter is configured and the
  module's name has no bar.
\<close>

theorem scan_changes_reach_digests:
  assumes "scanOne ops newID now reg t s = (s', Inr res)"
    and "CHR ''|'' \<notin> set (mi_id (rg_info reg))" "nc_min_severity cfg = []"
  shows "case enqueue_all now (result_events (sr_module res) (rr_newly_open (sr_reconcile res))
        (rr_resolved (sr_reconcile res))) (NewDispatcher cfg) of
      (d, out) \<Rightarrow>
        (\<lambda>(k, m, f). (k, m, f_fingerprint f)) ` announced_by (out @ snd (Close later d)) =
          (\<lambda>f. (KindOpened, mi_id (rg_info reg), f_fingerprint f)) ` set (rr_newly_open (sr_reconcile res)) \<union>
          (\<lambda>f. (KindResolved, mi_id (rg_info reg), f_fingerprint f)) ` set (rr_resolved (sr_reconcile res))"
proof -
  let ?m = "mi_id (rg_info reg)"
  let ?es = "result_events (sr_module res) (rr_newly_open (sr_reconcile res)) (rr_resolved (sr_reconcile res))"
  have m: "sr_module res = ?m" using assms(1)
    by (auto simp: scanOne_def split: sum.splits prod.splits option.splits)
  obtain d out where run: "enqueue_all now ?es (NewDispatcher cfg) = (d, out)" by fastforce
  have new: "\<not> dp_closed (NewDispatcher cfg)" "pend_events (NewDispatcher cfg) = []"
    "dp_cfg (NewDispatcher cfg) = notify_withDefaults cfg"
    by (simp_all add: NewDispatcher_def)
  have plain: "plain_ops (map (\<lambda>e. (now, Enq e)) ?es)"
    using assms(2) by (auto simp: list_all_iff plain_event_def result_events_def m)
  have all: "accepted (notify_withDefaults cfg) (map (\<lambda>e. (now, Enq e)) ?es) = set ?es"
    using assms(3) by (auto simp: accepted_events passesSeverity_def notify_withDefaults_def Let_def)
  have rd: "dispatcher_inv d \<and> \<not> dp_closed d \<and> (\<forall>e \<in> set (pend_events d). plain_event e) \<and>
      event_id ` set (pend_events d) \<union> triple_id ` announced_by out = event_id ` set ?es"
    using run_delivery [OF dispatcher_inv_new new(1) _ plain run [unfolded enqueue_all_run]] new all by simp
  have "announced_by (snd (Close later d)) = event_triple ` set (pend_events d)"
    unfolding Close_flush using rd by (intro flush_ids) (elim conjE, assumption)+
  then have "triple_id ` announced_by (out @ snd (Close later d)) =
      triple_id ` announced_by out \<union> event_id ` set (pend_events d)"
    unfolding announced_by_append image_Un by (simp only: triple_id_event)
  also have "\<dots> = event_id ` set ?es" using rd by (simp only: Un_commute)
  finally show ?thesis using run by (simp only: prod.case result_event_ids m)
qed

theorem scan_changes_reach_digests_witness:
  "case scanOne mem_ops sample_ids 9 (tenant_registration (\<lambda>p d. Inr empty_state :: unit + tenant_state))
      \<lparr>t_raw = ''m365:a.b'', t_canonical = ''m365:a.b'', t_meta = []\<rparr> NewMemStore of
    (s', Inr res) \<Rightarrow>
      triple_id ` announced_by (case enqueue_all 9 (result_events (sr_module res)
          (rr_newly_open (sr_reconcile res)) (rr_resolved (sr_reconcile res))) (NewDispatcher sample_cfg) of
          (d, out) \<Rightarrow> out @ snd (Close 10 d)) = {}
  | _ \<Rightarrow> False"
proof -
  let ?t = "\<lparr>t_raw = ''m365:a.b'', t_canonical = ''m365:a.b'', t_meta = []\<rparr>"
  let ?reg = "tenant_registration (\<lambda>p d. Inr empty_state :: unit + tenant_state)"
  have "Collect (\<lambda>p d. Inr empty_state :: unit + tenant_state) 9 ?t = Inr []"
  proof -
    have "Evaluate (complete_state p d now empty_state) = []" for p d now
    proof -
      have "ts_assessed (complete_state p d now empty_state) = (\<lambda>_. False)"
        "ts_notes (complete_state p d now empty_state) = []"
        by (simp_all add: complete_state_def empty_state_def Let_def)
      then show ?thesis
        by (simp add: Evaluate_def checkAdminMFA_def checkUserMFA_def checkLegacyAuth_def checkOAuth_def
            checkAdminSprawl_def checkMailForward_def checkSharing_def checkEmailAuth_def
            checkConditionalAccess_def checkInactiveUsers_def checkSignIns_def notesToFindings_def)
    qed
    then show ?thesis by (simp add: Collect_canonical [of ProviderM365 "''a.b''"] ProviderM365_def)
  qed
  then have run: "scanOne mem_ops sample_ids 9 ?reg ?t NewMemStore =
      (NewMemStore, Inr \<lparr>sr_module = ModuleID, sr_target = ?t, sr_reconcile = empty_result\<rparr>)"
    by (simp add: scanOne_def tenant_registration_def tenant_collector_def Reconcile_def mem_ops_def
        mem_ListByTarget_def NewMemStore_def Describe_def Let_def)
  have bar: "CHR ''|'' \<notin> set (mi_id (rg_info ?reg))"
    by (simp add: tenant_registration_def Describe_def ModuleID_def)
  have filter: "nc_min_severity sample_cfg = []" by (simp add: sample_cfg_def)
  show ?thesis using scan_changes_reach_digests [OF run bar filter, of 10]
    unfolding run prod.case sum.case by (simp add: empty_result_def case_prod_beta)
qed

end
